(* ===== verification/Fleet_Prelude.thy ===== *)
theory Fleet_Prelude
  imports Complex_Main "HOL-Library.Multiset"
begin

text \<open>
  Shared ground of the development: the collections that the component proofs draw on, the
  row-level operations of a relational table kept as a list of records (lookup by key,
  UPDATE ... WHERE, DELETE ... WHERE), and the generic facts on lists and options that every
  component uses.
\<close>

named_theorems db_frame \<open>what an operation leaves unchanged\<close>
named_theorems wf_intros \<open>an operation keeps the schema invariant\<close>
named_theorems handler_defs \<open>definitions of handlers, unfolded for case analysis\<close>

section \<open>Rows of a table\<close>

text \<open>A table is the list of its rows; \<open>key\<close> reads a row's primary key.\<close>

definition lookup_key :: "('r \<Rightarrow> 'k) \<Rightarrow> 'k \<Rightarrow> 'r list \<Rightarrow> 'r option" where
  "lookup_key key k rows = find (\<lambda>r. key r = k) rows"

definition update_where :: "('r \<Rightarrow> bool) \<Rightarrow> ('r \<Rightarrow> 'r) \<Rightarrow> 'r list \<Rightarrow> 'r list" where
  "update_where P f rows = map (\<lambda>r. if P r then f r else r) rows"

definition delete_where :: "('r \<Rightarrow> bool) \<Rightarrow> 'r list \<Rightarrow> 'r list" where
  "delete_where P rows = filter (\<lambda>r. \<not> P r) rows"

definition replace_row :: "('r \<Rightarrow> 'k) \<Rightarrow> 'r \<Rightarrow> 'r list \<Rightarrow> 'r list" where
  "replace_row key new rows = update_where (\<lambda>r. key r = key new) (\<lambda>_. new) rows"

text \<open>The values of a nullable column, NULLs left out (SQL's UNIQUE ignores them).\<close>

definition non_null :: "('r \<Rightarrow> 'v option) \<Rightarrow> 'r list \<Rightarrow> 'v list" where
  "non_null col rows = List.map_filter col rows"

lemma lookup_key_Some_iff:
  assumes "distinct (map key rows)"
  shows "lookup_key key k rows = Some r \<longleftrightarrow> r \<in> set rows \<and> key r = k"
  using assms by (induction rows) (auto simp: lookup_key_def)

lemma lookup_key_SomeD: "lookup_key key k rows = Some r \<Longrightarrow> r \<in> set rows \<and> key r = k"
  by (induction rows) (auto simp: lookup_key_def split: if_splits)

lemma lookup_key_None_iff: "lookup_key key k rows = None \<longleftrightarrow> k \<notin> key ` set rows"
  by (induction rows) (auto simp: lookup_key_def)

lemma lookup_key_append:
  "lookup_key key k (rows @ rows') =
     (case lookup_key key k rows of None \<Rightarrow> lookup_key key k rows' | Some r \<Rightarrow> Some r)"
  by (induction rows) (auto simp: lookup_key_def)

lemma lookup_key_update_where:
  assumes "\<And>r. key (f r) = key r"
  shows "lookup_key key k (update_where P f rows) =
           map_option (\<lambda>r. if P r then f r else r) (lookup_key key k rows)"
  by (induction rows) (auto simp: lookup_key_def update_where_def assms)

lemma lookup_key_update_key [simp]:
  assumes "\<And>r. key (f r) = key r"
  shows "lookup_key key k (update_where (\<lambda>r. key r = k') f rows) =
           (if k = k' then map_option f (lookup_key key k rows) else lookup_key key k rows)"
  by (induction rows) (auto simp: lookup_key_def update_where_def assms)

lemma lookup_key_replace_row:
  "lookup_key key k (replace_row key new rows) =
     (if k = key new \<and> lookup_key key k rows \<noteq> None then Some new else lookup_key key k rows)"
  by (induction rows) (auto simp: lookup_key_def replace_row_def update_where_def)

lemma lookup_key_delete_where_key:
  "lookup_key key k (delete_where (\<lambda>r. key r = k') rows) =
     (if k = k' then None else lookup_key key k rows)"
  by (induction rows) (auto simp: lookup_key_def delete_where_def)

lemma map_key_update_where [simp]:
  assumes "\<And>r. key (f r) = key r"
  shows "map key (update_where P f rows) = map key rows"
  by (auto simp: update_where_def assms)

lemma map_key_replace_row [simp]: "map key (replace_row key new rows) = map key rows"
  by (auto simp: replace_row_def update_where_def)

lemma set_update_where: "set (update_where P f rows) = (\<lambda>r. if P r then f r else r) ` set rows"
  by (simp add: update_where_def)

lemma length_update_where [simp]: "length (update_where P f rows) = length rows"
  by (simp add: update_where_def)

lemma update_where_append [simp]:
  "update_where P f (rows @ rows') = update_where P f rows @ update_where P f rows'"
  by (simp add: update_where_def)

lemma set_replace_row_subset: "set (replace_row key new rows) \<subseteq> insert new (set rows)"
  by (auto simp: replace_row_def update_where_def)

lemma set_delete_where [simp]: "set (delete_where P rows) = {r \<in> set rows. \<not> P r}"
  by (auto simp: delete_where_def)

lemma distinct_map_delete_where:
  "distinct (map key rows) \<Longrightarrow> distinct (map key (delete_where P rows))"
  by (simp add: delete_where_def distinct_map_filter)

lemma distinct_delete_where: "distinct rows \<Longrightarrow> distinct (delete_where P rows)"
  by (simp add: delete_where_def)

lemma delete_where_append [simp]:
  "delete_where P (rows @ rows') = delete_where P rows @ delete_where P rows'"
  by (simp add: delete_where_def)

lemma set_non_null: "set (non_null col rows) = {v. \<exists>r \<in> set rows. col r = Some v}"
  by (induction rows) (auto simp: non_null_def split: option.splits)

lemma non_null_append [simp]: "non_null col (rows @ rows') = non_null col rows @ non_null col rows'"
  by (induction rows) (auto simp: non_null_def split: option.splits)

lemma non_null_Nil [simp]: "non_null col [] = []"
  by (simp add: non_null_def)

lemma non_null_Cons [simp]:
  "non_null col (r # rows) = (case col r of None \<Rightarrow> non_null col rows | Some v \<Rightarrow> v # non_null col rows)"
  by (simp add: non_null_def split: option.splits)

lemma non_null_update_where [simp]:
  assumes "\<And>r. col (f r) = col r"
  shows "non_null col (update_where P f rows) = non_null col rows"
  by (induction rows) (auto simp: update_where_def assms split: option.splits)

lemma distinct_non_null_delete_where:
  "distinct (non_null col rows) \<Longrightarrow> distinct (non_null col (delete_where P rows))"
proof (induction rows)
  case (Cons r rows)
  then show ?case
    by (auto simp: delete_where_def set_non_null split: option.splits)
qed (simp add: delete_where_def)

text \<open>
  Replacing one row keeps a nullable UNIQUE column duplicate free when no other row holds the
  new value.
\<close>

lemma distinct_non_null_replace_row:
  assumes "distinct (map key rows)" "distinct (non_null col rows)"
    and "\<And>r v. r \<in> set rows \<Longrightarrow> key r \<noteq> key new \<Longrightarrow> col new = Some v \<Longrightarrow> col r \<noteq> Some v"
  shows "distinct (non_null col (replace_row key new rows))"
  using assms
proof (induction rows)
  case (Cons r rows)
  then have IH: "distinct (non_null col (replace_row key new rows))"
    by (auto split: option.splits)
  have tail: "replace_row key new rows = rows" if "key r = key new"
    using Cons.prems(1) that
    by (auto simp: replace_row_def update_where_def image_iff intro!: map_idI)
  show ?case
  proof (cases "key r = key new")
    case True
    then have "replace_row key new (r # rows) = new # rows"
      using tail by (simp add: replace_row_def update_where_def)
    moreover have "v \<notin> set (non_null col rows)" if "col new = Some v" for v
      using Cons.prems(1,3) True that by (simp add: set_non_null image_iff) metis
    ultimately show ?thesis
      using Cons.prems(2) by (auto split: option.splits)
  next
    case False
    have "v \<notin> set (non_null col (replace_row key new rows))" if "col r = Some v" for v
    proof
      assume "v \<in> set (non_null col (replace_row key new rows))"
      then obtain x where "x \<in> set (replace_row key new rows)" "col x = Some v"
        by (auto simp: set_non_null)
      then consider "x = new" | "x \<in> set rows"
        using set_replace_row_subset by fastforce
      then show False
        using Cons.prems(2,3) False that \<open>col x = Some v\<close>
        by cases (auto simp: set_non_null)
    qed
    with False IH show ?thesis
      by (auto simp: replace_row_def update_where_def split: option.splits)
  qed
qed (simp add: replace_row_def update_where_def)

lemma filter_unique:
  assumes "distinct xs" "x \<in> set xs" "P x" "\<And>y. y \<in> set xs \<Longrightarrow> y \<noteq> x \<Longrightarrow> \<not> P y"
  shows "filter P xs = [x]"
  using assms
proof (induction xs)
  case (Cons y xs)
  then show ?case
  proof (cases "x = y")
    case True
    with Cons.prems have "filter P xs = []" by (auto simp: filter_empty_conv)
    with True Cons.prems(3) show ?thesis by simp
  next
    case False
    with Cons.prems have "\<not> P y" "x \<in> set xs" by auto
    with Cons show ?thesis by simp
  qed
qed simp

lemma replace_row_mem: "r \<in> set rows \<Longrightarrow> key r = key new \<Longrightarrow> new \<in> set (replace_row key new rows)"
  by (auto simp: replace_row_def set_update_where intro: rev_image_eqI)

section \<open>Results\<close>

text \<open>A call returns a value or raises; \<open>Inl\<close> carries the exception.\<close>

definition returns :: "'e + 'a \<Rightarrow> bool" where
  "returns r = (case r of Inl _ \<Rightarrow> False | Inr _ \<Rightarrow> True)"

lemma returns_simps [simp]: "returns (Inr x)" "\<not> returns (Inl e)"
  by (simp_all add: returns_def)

section \<open>Sorting by a key, most recent first\<close>

text \<open>
  \<open>ORDER BY key DESC LIMIT 1\<close>: the head of the rows sorted by decreasing key. The library's
  \<^const>\<open>sort_key\<close> is stable, so ties keep the order in which the rows were scanned.
\<close>

definition first_desc :: "('r \<Rightarrow> int) \<Rightarrow> 'r list \<Rightarrow> 'r option" where
  "first_desc key rows = (case sort_key (\<lambda>r. - key r) rows of [] \<Rightarrow> None | r # _ \<Rightarrow> Some r)"

lemma first_desc_None_iff [simp]: "first_desc key rows = None \<longleftrightarrow> rows = []"
  by (cases "sort_key (\<lambda>r. - key r) rows")
     (auto simp: first_desc_def simp flip: set_empty split: list.splits dest: arg_cong [where f = set])

lemma first_desc_Nil [simp]: "first_desc key [] = None"
  by simp

lemma first_desc_SomeD:
  assumes "first_desc key rows = Some r"
  shows "r \<in> set rows" and "\<forall>r' \<in> set rows. key r' \<le> key r"
proof -
  obtain rs where s: "sort_key (\<lambda>r. - key r) rows = r # rs"
    using assms by (auto simp: first_desc_def split: list.splits)
  have set: "set (r # rs) = set rows"
    using s by (metis set_sort)
  then show "r \<in> set rows" by auto
  have "sorted (map (\<lambda>r. - key r) (r # rs))"
    using s by (metis sorted_sort_key)
  with set show "\<forall>r' \<in> set rows. key r' \<le> key r"
    by (metis (no_types, lifting) image_eqI list.set_map list.simps(9) neg_le_iff_le order_refl
        set_ConsD sorted_simps(2))
qed

lemma first_desc_map_single [simp]: "first_desc key [r] = Some r"
  by (simp add: first_desc_def)

end
