(* ===== verification/Py_Base.thy ===== *)
theory Py_Base
  imports Fleet_Prelude
begin

text \<open>
  What the server uses of Python: the exceptions its code raises or lets through, the string
  methods it calls (\<^verbatim>\<open>strip\<close>, \<^verbatim>\<open>lstrip\<close>, \<^verbatim>\<open>rstrip\<close>, \<^verbatim>\<open>split\<close>, \<^verbatim>\<open>startswith\<close>, \<^verbatim>\<open>endswith\<close>,
  \<^verbatim>\<open>str(int)\<close>), and JSON values with their truth value and comparison.

  A Python string is a HOL \<^typ>\<open>string\<close>, one character per code point; the model covers the code
  points below 256, so \<^const>\<open>length\<close> is Python's \<^verbatim>\<open>len\<close>. A \<^verbatim>\<open>datetime\<close> is the number of
  microseconds since the epoch (UTC), an unbounded \<^typ>\<open>int\<close>.
\<close>

type_synonym datetime = int

definition seconds :: "int \<Rightarrow> int" where
  "seconds n = n * 1000000"

definition minutes :: "int \<Rightarrow> int" where
  "minutes n = seconds (60 * n)"

section \<open>Exceptions\<close>

text \<open>
  \<open>IntegrityError\<close> is a violated key, unique, foreign-key or NOT NULL constraint, \<open>DBAPIError\<close> any
  other error the database driver reports (a value too long for its column, an integer out of
  range, a value of the wrong type, a negative LIMIT). \<open>RequestInvalid\<close> is the request validation
  error of the web framework, \<open>MissingGreenlet\<close> the object mapper's refusal to load an expired
  attribute outside an awaited call.
\<close>

datatype exn =
    HTTPException nat string
  | RequestInvalid
  | ValueError string
  | RuntimeError string
  | AttributeError
  | TypeError
  | IntegrityError
  | OperationalError
  | DBAPIError
  | MultipleResultsFound
  | MqttError
  | FileError
  | MissingGreenlet

type_synonym 'a res = "exn + 'a"

section \<open>Strings\<close>

text \<open>Python's whitespace among the code points below 256.\<close>

definition is_space :: "char \<Rightarrow> bool" where
  "is_space c = (let n = (of_char c :: nat) in
     (9 \<le> n \<and> n \<le> 13) \<or> (28 \<le> n \<and> n \<le> 32) \<or> n = 133 \<or> n = 160)"

definition lstrip_by :: "(char \<Rightarrow> bool) \<Rightarrow> string \<Rightarrow> string" where
  "lstrip_by P s = dropWhile P s"

definition rstrip_by :: "(char \<Rightarrow> bool) \<Rightarrow> string \<Rightarrow> string" where
  "rstrip_by P s = rev (dropWhile P (rev s))"

definition strip :: "string \<Rightarrow> string" where
  "strip s = rstrip_by is_space (lstrip_by is_space s)"

definition startswith :: "string \<Rightarrow> string \<Rightarrow> bool" where
  "startswith s p = (take (length p) s = p)"

definition endswith :: "string \<Rightarrow> string \<Rightarrow> bool" where
  "endswith s p = (length p \<le> length s \<and> drop (length s - length p) s = p)"

fun split_on :: "char \<Rightarrow> string \<Rightarrow> string list" where
  "split_on c [] = [[]]"
| "split_on c (x # xs) =
     (if x = c then [] # split_on c xs
      else (case split_on c xs of [] \<Rightarrow> [[x]] | w # ws \<Rightarrow> (x # w) # ws))"

fun join_with :: "string \<Rightarrow> string list \<Rightarrow> string" where
  "join_with sep [] = []"
| "join_with sep [w] = w"
| "join_with sep (w # v # ws) = w @ sep @ join_with sep (v # ws)"

fun digits :: "nat \<Rightarrow> string" where
  "digits n = (if n < 10 then [char_of (48 + n)] else digits (n div 10) @ [char_of (48 + n mod 10)])"

declare digits.simps [simp del]

definition str_nat :: "nat \<Rightarrow> string" where
  "str_nat n = digits n"

definition str_int :: "int \<Rightarrow> string" where
  "str_int i = (if i < 0 then ''-'' @ digits (nat (- i)) else digits (nat i))"

section \<open>Dates as text\<close>

text \<open>
  \<^verbatim>\<open>datetime.isoformat()\<close> of an aware UTC time: the proleptic Gregorian date of the day number (days
  since 1970-01-01), by 400-year eras of 146097 days that start on March 1st, then the time of day,
  with six digits of microseconds when there are any.
\<close>

definition civil_from_days :: "int \<Rightarrow> int \<times> int \<times> int" where
  "civil_from_days days =
     (let z = days + 719468; era = z div 146097; doe = z mod 146097;
          yoe = (doe - doe div 1460 + doe div 36524 - doe div 146096) div 365;
          doy = doe - (365 * yoe + yoe div 4 - yoe div 100);
          mp = (5 * doy + 2) div 153;
          d = doy - (153 * mp + 2) div 5 + 1;
          m = (if mp < 10 then mp + 3 else mp - 9);
          y = yoe + era * 400 + (if m \<le> 2 then 1 else 0)
      in (y, m, d))"

definition pad :: "nat \<Rightarrow> int \<Rightarrow> string" where
  "pad n i = (let s = str_int i in replicate (n - length s) CHR ''0'' @ s)"

definition isoformat :: "datetime \<Rightarrow> string" where
  "isoformat t =
     (let (y, m, d) = civil_from_days (t div 86400000000); us = t mod 86400000000;
          secs = us div 1000000; frac = us mod 1000000
      in pad 4 y @ ''-'' @ pad 2 m @ ''-'' @ pad 2 d @ ''T'' @ pad 2 (secs div 3600) @ '':'' @
         pad 2 (secs div 60 mod 60) @ '':'' @ pad 2 (secs mod 60) @
         (if frac = 0 then [] else ''.'' @ pad 6 frac) @ ''+00:00'')"

section \<open>Paths\<close>

text \<open>
  \<^verbatim>\<open>pathlib\<close> on POSIX: a path is its root (none, one slash, or exactly two) and its parts, empty parts
  and single dots left out; \<^verbatim>\<open>/\<close> joins, an absolute right-hand side winning.
\<close>

definition path_root :: "string \<Rightarrow> string" where
  "path_root s =
     (if \<not> startswith s ''/'' then [] else if startswith s ''//'' \<and> \<not> startswith s ''///'' then ''//'' else ''/'')"

definition path_parts :: "string \<Rightarrow> string list" where
  "path_parts s = filter (\<lambda>x. x \<noteq> [] \<and> x \<noteq> ''.'') (split_on (CHR ''/'') s)"

definition path_join :: "string \<Rightarrow> string \<Rightarrow> string" where
  "path_join a b =
     (if startswith b ''/'' then b else if a = [] \<or> endswith a ''/'' then a @ b else a @ ''/'' @ b)"

definition path_str :: "string \<Rightarrow> string" where
  "path_str s =
     (let p = path_root s @ join_with ''/'' (path_parts s) in if p = [] then ''.'' else p)"

section \<open>JSON values\<close>

datatype json =
    JNull
  | JBool bool
  | JInt int
  | JFloat rat
  | JStr string
  | JList "json list"
  | JObj "(string \<times> json) list"

text \<open>\<^verbatim>\<open>bool(value)\<close>, the test behind \<^verbatim>\<open>if value\<close>, \<^verbatim>\<open>not value\<close> and \<^verbatim>\<open>value or default\<close>.\<close>

fun truthy :: "json \<Rightarrow> bool" where
  "truthy JNull = False"
| "truthy (JBool b) = b"
| "truthy (JInt i) = (i \<noteq> 0)"
| "truthy (JFloat q) = (q \<noteq> 0)"
| "truthy (JStr s) = (s \<noteq> [])"
| "truthy (JList js) = (js \<noteq> [])"
| "truthy (JObj kvs) = (kvs \<noteq> [])"

text \<open>\<^verbatim>\<open>data.get(key, default)\<close>: only a dictionary has the method.\<close>

fun json_get :: "json \<Rightarrow> string \<Rightarrow> json \<Rightarrow> json res" where
  "json_get (JObj kvs) k dflt = Inr (case map_of kvs k of None \<Rightarrow> dflt | Some v \<Rightarrow> v)"
| "json_get _ k dflt = Inl AttributeError"

definition obj_get :: "(string \<times> json) list \<Rightarrow> string \<Rightarrow> json" where
  "obj_get kvs k = (case map_of kvs k of None \<Rightarrow> JNull | Some v \<Rightarrow> v)"

lemma json_get_obj: "json_get (JObj kvs) k JNull = Inr (obj_get kvs k)"
  by (simp add: obj_get_def)

text \<open>\<^verbatim>\<open>value < bound\<close> for an integer bound: strings, lists and dictionaries do not compare.\<close>

fun json_less :: "json \<Rightarrow> int \<Rightarrow> bool res" where
  "json_less (JInt i) n = Inr (i < n)"
| "json_less (JBool b) n = Inr ((if b then 1 else 0) < n)"
| "json_less (JFloat q) n = Inr (q < of_int n)"
| "json_less _ n = Inl TypeError"

definition json_strings :: "string list \<Rightarrow> json" where
  "json_strings xs = JList (map JStr xs)"

definition json_opt_str :: "string option \<Rightarrow> json" where
  "json_opt_str s = (case s of None \<Rightarrow> JNull | Some x \<Rightarrow> JStr x)"

section \<open>Facts on strings\<close>

lemma split_on_not_Nil [simp]: "split_on c s \<noteq> []"
  by (induction s) (auto split: list.splits)

lemma split_on_Cons_ne: "x \<noteq> c \<Longrightarrow> \<exists>w ws. split_on c s = w # ws \<and> split_on c (x # s) = (x # w) # ws"
  by (cases "split_on c s") auto

text \<open>Splitting and joining at the separator are inverse.\<close>

lemma join_split: "join_with [c] (split_on c s) = s"
proof (induction s)
  case (Cons x s)
  show ?case
  proof (cases "x = c")
    case True
    with Cons show ?thesis by (cases "split_on c s") auto
  next
    case False
    then obtain w ws where "split_on c s = w # ws" "split_on c (x # s) = (x # w) # ws"
      using split_on_Cons_ne by blast
    with Cons show ?thesis by (cases ws) auto
  qed
qed simp

lemma split_on_no_sep: "c \<notin> set s \<Longrightarrow> split_on c s = [s]"
  by (induction s) auto

lemma split_on_append_sep: "c \<notin> set s \<Longrightarrow> split_on c (s @ c # t) = s # split_on c t"
  by (induction s) auto

lemma split_on_append: "set w \<subseteq> - {c} \<Longrightarrow> split_on c (w @ c # s) = w # split_on c s"
  by (rule split_on_append_sep) auto

lemma split_join:
  "ws \<noteq> [] \<Longrightarrow> \<forall>w \<in> set ws. c \<notin> set w \<Longrightarrow> split_on c (join_with [c] ws) = ws"
proof (induction "[c]" ws rule: join_with.induct)
  case (3 w v ws)
  then show ?case by (simp add: split_on_append_sep)
qed (auto simp: split_on_no_sep)

lemma endswith_append [simp]: "endswith (s @ p) p"
  by (simp add: endswith_def)

lemma endswith_iff: "endswith s p \<longleftrightarrow> (\<exists>q. s = q @ p)"
proof
  assume "endswith s p"
  then have "s = take (length s - length p) s @ p"
    by (metis append_take_drop_id endswith_def)
  then show "\<exists>q. s = q @ p" ..
qed auto

lemma startswith_iff: "startswith s p \<longleftrightarrow> (\<exists>q. s = p @ q)"
  by (metis append_eq_conv_conj append_take_drop_id startswith_def)

lemma strip_Nil [simp]: "strip [] = []"
  by (simp add: strip_def rstrip_by_def lstrip_by_def)

lemma set_rstrip_by: "set (rstrip_by P s) \<subseteq> set s"
  using set_dropWhileD by (fastforce simp: rstrip_by_def)

lemma length_strip_le: "length (strip s) \<le> length s"
proof -
  have "length (rstrip_by is_space t) \<le> length t" for t
    by (metis length_dropWhile_le length_rev rstrip_by_def)
  then show ?thesis
    unfolding strip_def lstrip_by_def using length_dropWhile_le le_trans by blast
qed

lemma last_rstrip_by: "rstrip_by P s \<noteq> [] \<Longrightarrow> \<not> P (last (rstrip_by P s))"
  unfolding rstrip_by_def by (metis hd_dropWhile last_rev rev_is_Nil_conv)

lemma hd_rstrip_by: "s \<noteq> [] \<Longrightarrow> \<not> P (hd s) \<Longrightarrow> rstrip_by P s \<noteq> [] \<and> hd (rstrip_by P s) = hd s"
proof -
  assume s: "s \<noteq> []" "\<not> P (hd s)"
  then obtain t where t: "rev s = t @ [hd s]"
    by (metis list.collapse rev.simps(2))
  then have "dropWhile P (rev s) = dropWhile P t @ [hd s] \<or> dropWhile P (rev s) = [hd s]"
    using s(2) by (metis append_Nil dropWhile.simps(2) dropWhile_append dropWhile_eq_Nil_conv)
  moreover have "hd s \<in> set s" using s(1) by simp
  ultimately show ?thesis using s(2) by (auto simp: rstrip_by_def)
qed

text \<open>A stripped string neither starts nor ends with whitespace, so stripping again is the identity.\<close>

lemma strip_ends:
  assumes "strip s \<noteq> []"
  shows "\<not> is_space (hd (strip s))" and "\<not> is_space (last (strip s))"
proof -
  let ?t = "lstrip_by is_space s"
  have t: "?t \<noteq> []"
    using assms by (auto simp: strip_def rstrip_by_def)
  then have "\<not> is_space (hd ?t)"
    unfolding lstrip_by_def by (rule hd_dropWhile)
  then show "\<not> is_space (hd (strip s))"
    unfolding strip_def using hd_rstrip_by [OF t] by metis
  show "\<not> is_space (last (strip s))"
    using assms unfolding strip_def by (rule last_rstrip_by)
qed

lemma rstrip_by_id: "s = [] \<or> \<not> P (last s) \<Longrightarrow> rstrip_by P s = s"
  unfolding rstrip_by_def
  by (metis dropWhile.simps(1) dropWhile_eq_self_iff hd_rev rev.simps(1) rev_rev_ident)

lemma strip_idem: "strip (strip s) = strip s"
proof (cases "strip s = []")
  case False
  then show ?thesis
    using strip_ends [OF False]
    by (metis dropWhile_eq_self_iff lstrip_by_def rstrip_by_id strip_def)
qed simp

lemma digits_not_Nil [simp]: "digits n \<noteq> []"
  by (subst digits.simps) simp

lemma digit_chars: "set (digits n) \<subseteq> set ''0123456789''"
proof (induction n rule: digits.induct)
  case (1 n)
  have d: "char_of (48 + k) \<in> set ''0123456789''" if "k < 10" for k :: nat
  proof -
    have "\<forall>k \<in> set [0..<10]. char_of (48 + k) \<in> set ''0123456789''"
      by code_simp
    with that show ?thesis by (simp del: set_simps)
  qed
  show ?case
  proof (cases "n < 10")
    case True
    then show ?thesis using d by (subst digits.simps) simp
  next
    case False
    then show ?thesis using 1 d [of "n mod 10"] by (subst digits.simps) auto
  qed
qed

section \<open>Facts on paths\<close>

text \<open>A name that is one part of a path.\<close>

definition plain_name :: "string \<Rightarrow> bool" where
  "plain_name s \<longleftrightarrow> s \<noteq> [] \<and> s \<noteq> ''.'' \<and> CHR ''/'' \<notin> set s"

lemma split_on_append_general: "split_on c (s @ c # t) = split_on c s @ split_on c t"
proof (induction s)
  case (Cons x s)
  show ?case
  proof (cases "x = c")
    case False
    obtain w ws where "split_on c s = w # ws" "split_on c (x # s) = (x # w) # ws"
      using split_on_Cons_ne [OF False] by blast
    with Cons False show ?thesis by simp
  qed (use Cons in simp)
qed simp

lemma startswith_slash: "startswith s ''/'' \<longleftrightarrow> (\<exists>t. s = CHR ''/'' # t)"
  by (auto simp: startswith_iff)

lemma plain_name_not_abs: "plain_name v \<Longrightarrow> \<not> startswith v ''/''"
  by (auto simp: plain_name_def startswith_slash)

lemma path_parts_plain: "plain_name v \<Longrightarrow> path_parts v = [v]"
  by (simp add: path_parts_def plain_name_def split_on_no_sep)

lemma path_parts_join:
  assumes "plain_name v"
  shows "path_parts (path_join a v) = path_parts a @ [v]"
proof -
  have sl: "path_parts (t @ CHR ''/'' # v) = path_parts t @ [v]" for t
    using path_parts_plain [OF assms] by (simp add: path_parts_def split_on_append_general)
  consider "a = []" | t where "a = t @ ''/''" | "a \<noteq> []" "\<not> endswith a ''/''"
    by (auto simp: endswith_iff)
  then show ?thesis
  proof cases
    case 1
    then show ?thesis
      using assms by (simp add: path_join_def plain_name_not_abs path_parts_plain) (simp add: path_parts_def)
  next
    case 2
    have "path_parts (t @ ''/'') = path_parts t"
      using split_on_append_general [of "CHR ''/''" t "[]"] by (simp add: path_parts_def)
    then show ?thesis
      using 2 sl [of t] assms by (simp add: path_join_def plain_name_not_abs)
  next
    case 3
    then show ?thesis using sl [of a] assms by (simp add: path_join_def plain_name_not_abs)
  qed
qed

lemma path_parts_no_slash: "x \<in> set (path_parts s) \<Longrightarrow> CHR ''/'' \<notin> set x"
proof -
  have "\<forall>w \<in> set (split_on c s). c \<notin> set w" for c
    by (induction s) (auto split: list.splits)
  then show "x \<in> set (path_parts s) \<Longrightarrow> CHR ''/'' \<notin> set x" by (auto simp: path_parts_def)
qed

text \<open>Two paths with the same root and the same text have the same parts.\<close>

lemma path_str_inject:
  assumes "path_str s = path_str t" "path_root s = path_root t" "path_parts s \<noteq> []" "path_parts t \<noteq> []"
  shows "path_parts s = path_parts t"
proof -
  have ne: "join_with ''/'' (path_parts u) \<noteq> []" if u: "path_parts u \<noteq> []" for u
  proof
    assume "join_with ''/'' (path_parts u) = []"
    then have "path_parts u = [[]]"
      using split_join [OF u, of "CHR ''/''"] path_parts_no_slash [of _ u] by simp
    then have "[] \<in> set (path_parts u)" by simp
    then show False by (simp add: path_parts_def)
  qed
  have "join_with ''/'' (path_parts s) = join_with ''/'' (path_parts t)"
    using assms(1,2) ne [OF assms(3)] ne [OF assms(4)] by (simp add: path_str_def Let_def)
  then have "split_on (CHR ''/'') (join_with ''/'' (path_parts s)) = split_on (CHR ''/'') (join_with ''/'' (path_parts t))"
    by simp
  then show ?thesis
    using split_join [OF assms(3), of "CHR ''/''"] split_join [OF assms(4), of "CHR ''/''"]
      path_parts_no_slash by simp
qed

lemma path_root_append:
  assumes "a \<noteq> []" "plain_name v"
  shows "\<not> endswith a ''/'' \<Longrightarrow> path_root (a @ CHR ''/'' # v) = path_root a"
    and "endswith a ''/'' \<Longrightarrow> path_root (a @ v) = path_root a"
proof -
  have st: "startswith (x # xs) (y # ys) \<longleftrightarrow> x = y \<and> startswith xs ys" "startswith xs []" for x y xs ys
    by (auto simp: startswith_def)
  obtain c v' where v: "v = c # v'" "c \<noteq> CHR ''/''"
    using assms(2) by (cases v) (auto simp: plain_name_def)
  have nil: "\<not> startswith [] (y # ys)" for y ys by (simp add: startswith_def)
  show "path_root (a @ CHR ''/'' # v) = path_root a" if "\<not> endswith a ''/''"
    using that assms(1) v
    by (cases a rule: remdups_adj.cases; cases "tl (tl a)") (auto simp: path_root_def st nil endswith_def)
  show "path_root (a @ v) = path_root a" if "endswith a ''/''"
    using that assms(1) v
    by (cases a rule: remdups_adj.cases; cases "tl (tl a)") (auto simp: path_root_def st nil endswith_def)
qed

lemma path_root_join:
  assumes "plain_name v"
  shows "path_root (path_join a v) = path_root a"
proof (cases "a = []")
  case True
  then show ?thesis
    using plain_name_not_abs [OF assms] by (simp add: path_join_def path_root_def) (simp add: startswith_def)
next
  case False
  then show ?thesis
    using path_root_append [OF False assms] plain_name_not_abs [OF assms] by (auto simp: path_join_def)
qed

end
