(* ===== verification/Py_Json.thy ===== *)
theory Py_Json
  imports Py_Base "HOL-Library.AList"
begin

text \<open>
  The \<^verbatim>\<open>json\<close> module of the standard library: \<^verbatim>\<open>json.dumps\<close> of a dictionary of strings, which writes
  the OTA commands, and \<^verbatim>\<open>json.loads\<close>, which reads every message of a device. The decoder follows the
  one of the library: whitespace, literals, numbers with leading zeros refused, strings with their
  escapes and without control characters, lists and objects without trailing commas, a repeated key
  overwriting the earlier value in its place, and nothing but whitespace behind the value.

  It answers \<open>Beyond\<close> for the few texts whose value is outside the model: an escape for a character
  above the code point 255, \<^verbatim>\<open>NaN\<close> and the infinities, a number that is not an integer and has more
  than 15 digits or an exponent of more than two, an integer of more than 4300 digits, and more
  than 500 nested brackets, where the recursion limit may be reached. A number with a fraction or an exponent
  is read as the decimal it is; with 15 digits it compares with integers as its double does. The decoder
  recurses on fuel; the last section shows that twice the length of the text and one is enough, and
  that decoding takes back encoding.
\<close>

section \<open>json.dumps of a dictionary of strings\<close>

text \<open>
  The encoder of the standard library with its defaults (\<^verbatim>\<open>ensure_ascii\<close>, separators \<^verbatim>\<open>", "\<close> and
  \<^verbatim>\<open>": "\<close>): quotes, backslashes and the named control characters get a two-character escape, every
  other character outside the printable ASCII range a \<^verbatim>\<open>\u00XX\<close> escape.
\<close>

definition hex_digit :: "nat \<Rightarrow> char" where
  "hex_digit n = (if n < 10 then char_of (48 + n) else char_of (87 + n))"

definition dumps_char :: "char \<Rightarrow> string" where
  "dumps_char c = (let n = (of_char c :: nat) in
     if n = 34 then [char_of (92::nat), char_of (34::nat)]
     else if n = 92 then [char_of (92::nat), char_of (92::nat)]
     else if n = 10 then char_of (92::nat) # ''n''
     else if n = 13 then char_of (92::nat) # ''r''
     else if n = 9 then char_of (92::nat) # ''t''
     else if n = 12 then char_of (92::nat) # ''f''
     else if n = 8 then char_of (92::nat) # ''b''
     else if 32 \<le> n \<and> n \<le> 126 then [c]
     else char_of (92::nat) # ''u00'' @ [hex_digit (n div 16), hex_digit (n mod 16)])"

definition dumps_str :: "string \<Rightarrow> string" where
  "dumps_str s = [CHR 0x22] @ concat (map dumps_char s) @ [CHR 0x22]"

definition dumps_obj :: "(string \<times> string) list \<Rightarrow> string" where
  "dumps_obj kvs =
     ''{'' @ join_with '', '' (map (\<lambda>(k, v). dumps_str k @ '': '' @ dumps_str v) kvs) @ ''}''"

section \<open>json.loads\<close>

datatype 'a parsed = Parsed 'a string | Malformed | Beyond

definition json_space :: "char \<Rightarrow> bool" where
  "json_space c \<longleftrightarrow> c \<in> {CHR 0x20, CHR 0x09, CHR 0x0A, CHR 0x0D}"

definition skip_space :: "string \<Rightarrow> string" where
  "skip_space s = dropWhile json_space s"

definition is_digit :: "char \<Rightarrow> bool" where
  "is_digit c = (let n = (of_char c :: nat) in 48 \<le> n \<and> n \<le> 57)"

definition hex_value :: "char \<Rightarrow> nat option" where
  "hex_value c = (let n = (of_char c :: nat) in
     if 48 \<le> n \<and> n \<le> 57 then Some (n - 48)
     else if 97 \<le> n \<and> n \<le> 102 then Some (n - 87)
     else if 65 \<le> n \<and> n \<le> 70 then Some (n - 55)
     else None)"

definition hex4 :: "char \<Rightarrow> char \<Rightarrow> char \<Rightarrow> char \<Rightarrow> nat option" where
  "hex4 a b c d =
     (case (hex_value a, hex_value b, hex_value c, hex_value d) of
        (Some w, Some x, Some y, Some z) \<Rightarrow> Some (4096 * w + 256 * x + 16 * y + z)
      | _ \<Rightarrow> None)"

definition unescape :: "char \<Rightarrow> char option" where
  "unescape c =
     (if c = CHR 0x22 \<or> c = CHR 0x5C \<or> c = CHR 0x2F then Some c
      else if c = CHR ''b'' then Some (CHR 0x08)
      else if c = CHR ''f'' then Some (CHR 0x0C)
      else if c = CHR ''n'' then Some (CHR 0x0A)
      else if c = CHR ''r'' then Some (CHR 0x0D)
      else if c = CHR ''t'' then Some (CHR 0x09)
      else None)"

text \<open>A string, from behind its opening quote.\<close>

fun scan_string :: "string \<Rightarrow> string parsed" where
  "scan_string [] = Malformed"
| "scan_string (c # cs) =
     (if c = CHR 0x22 then Parsed [] cs
      else if c = CHR 0x5C then
        (case cs of
           [] \<Rightarrow> Malformed
         | e # es \<Rightarrow>
             (case unescape e of
                Some x \<Rightarrow> map_parsed ((#) x) (scan_string es)
              | None \<Rightarrow>
                  if e = CHR ''u'' then
                    (case es of
                       h1 # h2 # h3 # h4 # rest \<Rightarrow>
                         (case hex4 h1 h2 h3 h4 of
                            None \<Rightarrow> Malformed
                          | Some n \<Rightarrow>
                              if n < 256 then map_parsed ((#) (char_of n)) (scan_string rest) else Beyond)
                     | _ \<Rightarrow> Malformed)
                  else Malformed))
      else if (of_char c :: nat) < 32 then Malformed
      else map_parsed ((#) c) (scan_string cs))"

text \<open>A number: its digits before and behind the point, and its exponent.\<close>

definition digits_value :: "string \<Rightarrow> int" where
  "digits_value ds = foldl (\<lambda>n c. 10 * n + (of_char c - 48)) 0 ds"

definition scan_fraction :: "string \<Rightarrow> string \<times> string" where
  "scan_fraction s =
     (case s of
        [] \<Rightarrow> ([], s)
      | c # t \<Rightarrow> if c = CHR ''.'' \<and> takeWhile is_digit t \<noteq> [] then (takeWhile is_digit t, dropWhile is_digit t) else ([], s))"

definition scan_exponent :: "string \<Rightarrow> (bool \<times> string) option \<times> string" where
  "scan_exponent s =
     (case s of
        [] \<Rightarrow> (None, s)
      | c # t \<Rightarrow>
          (let neg = (t \<noteq> [] \<and> hd t = CHR ''-'');
               u = (if t \<noteq> [] \<and> hd t \<in> {CHR ''-'', CHR ''+''} then tl t else t)
           in if c \<in> {CHR ''e'', CHR ''E''} \<and> takeWhile is_digit u \<noteq> []
              then (Some (neg, takeWhile is_digit u), dropWhile is_digit u) else (None, s)))"

definition float_of :: "bool \<Rightarrow> string \<Rightarrow> (bool \<times> string) option \<Rightarrow> rat" where
  "float_of neg ds ex =
     (let m = of_int (digits_value ds);
          q = (case ex of
                 None \<Rightarrow> m
               | Some (below, es) \<Rightarrow>
                   if below then m / 10 ^ nat (digits_value es) else m * 10 ^ nat (digits_value es))
      in if neg then - q else q)"

definition number_value :: "bool \<Rightarrow> string \<Rightarrow> string \<Rightarrow> (bool \<times> string) option \<Rightarrow> string \<Rightarrow> json parsed" where
  "number_value neg whole part ex r =
     (if part = [] \<and> ex = None
      then if length whole \<le> 4300
           then Parsed (JInt (if neg then - digits_value whole else digits_value whole)) r else Beyond
      else if length whole + length part \<le> 15 \<and> (case ex of None \<Rightarrow> True | Some (below, es) \<Rightarrow> length es \<le> 2)
      then Parsed (JFloat (float_of neg (whole @ part) ex / 10 ^ length part)) r
      else Beyond)"

definition whole_part :: "string \<Rightarrow> string" where
  "whole_part t = (if t \<noteq> [] \<and> hd t = CHR ''0'' then ''0'' else takeWhile is_digit t)"

definition scan_unsigned :: "bool \<Rightarrow> string \<Rightarrow> json parsed" where
  "scan_unsigned neg t =
     (if whole_part t = [] then (if neg \<and> startswith t ''Infinity'' then Beyond else Malformed)
      else (case scan_fraction (drop (length (whole_part t)) t) of
              (part, r1) \<Rightarrow>
                (case scan_exponent r1 of (ex, r2) \<Rightarrow> number_value neg (whole_part t) part ex r2)))"

definition scan_number :: "string \<Rightarrow> json parsed" where
  "scan_number s =
     (if s \<noteq> [] \<and> hd s = CHR ''-'' then scan_unsigned True (tl s) else scan_unsigned False s)"

definition scan_literal :: "string \<Rightarrow> json parsed" where
  "scan_literal s =
     (if startswith s ''null'' then Parsed JNull (drop 4 s)
      else if startswith s ''true'' then Parsed (JBool True) (drop 4 s)
      else if startswith s ''false'' then Parsed (JBool False) (drop 5 s)
      else if startswith s ''NaN'' \<or> startswith s ''Infinity'' then Beyond
      else scan_number s)"

text \<open>A dictionary keeps the place of a key and takes its last value.\<close>

definition dict_put :: "string \<Rightarrow> json \<Rightarrow> (string \<times> json) list \<Rightarrow> (string \<times> json) list" where
  "dict_put k v d = AList.update k v d"

text \<open>\<open>n\<close> is the fuel, \<open>k\<close> how many more brackets may be open at once.\<close>

fun parse_value :: "nat \<Rightarrow> nat \<Rightarrow> string \<Rightarrow> json parsed"
and parse_items :: "nat \<Rightarrow> nat \<Rightarrow> string \<Rightarrow> json list parsed"
and parse_members :: "nat \<Rightarrow> nat \<Rightarrow> (string \<times> json) list \<Rightarrow> string \<Rightarrow> (string \<times> json) list parsed" where
  "parse_value 0 k s = Beyond"
| "parse_value (Suc n) k s =
     (case s of
        [] \<Rightarrow> Malformed
      | c # cs \<Rightarrow>
          if c = CHR 0x22 then map_parsed JStr (scan_string cs)
          else if c = CHR ''{'' then
            (if k = 0 then Beyond else let r = skip_space cs in
             if r \<noteq> [] \<and> hd r = CHR ''}'' then Parsed (JObj []) (tl r)
             else map_parsed JObj (parse_members n (k - 1) [] r))
          else if c = CHR ''['' then
            (if k = 0 then Beyond else let r = skip_space cs in
             if r \<noteq> [] \<and> hd r = CHR '']'' then Parsed (JList []) (tl r)
             else map_parsed JList (parse_items n (k - 1) r))
          else scan_literal s)"
| "parse_items 0 k s = Beyond"
| "parse_items (Suc n) k s =
     (case parse_value n k s of
        Malformed \<Rightarrow> Malformed
      | Beyond \<Rightarrow> Beyond
      | Parsed v r \<Rightarrow>
          (case skip_space r of
             [] \<Rightarrow> Malformed
           | c # cs \<Rightarrow>
               if c = CHR '','' then map_parsed ((#) v) (parse_items n k (skip_space cs))
               else if c = CHR '']'' then Parsed [v] cs
               else Malformed))"
| "parse_members 0 k d s = Beyond"
| "parse_members (Suc n) k d s =
     (case s of
        [] \<Rightarrow> Malformed
      | q # qs \<Rightarrow>
          if q \<noteq> CHR 0x22 then Malformed
          else (case scan_string qs of
             Malformed \<Rightarrow> Malformed
           | Beyond \<Rightarrow> Beyond
           | Parsed key r \<Rightarrow>
               (case skip_space r of
                  [] \<Rightarrow> Malformed
                | c # cs \<Rightarrow>
                    if c \<noteq> CHR '':'' then Malformed
                    else (case parse_value n k (skip_space cs) of
                       Malformed \<Rightarrow> Malformed
                     | Beyond \<Rightarrow> Beyond
                     | Parsed v r1 \<Rightarrow>
                         (case skip_space r1 of
                            [] \<Rightarrow> Malformed
                          | e # es \<Rightarrow>
                              if e = CHR '','' then parse_members n k (dict_put key v d) (skip_space es)
                              else if e = CHR ''}'' then Parsed (dict_put key v d) es
                              else Malformed)))))"

definition loads_text :: "string \<Rightarrow> json parsed" where
  "loads_text text =
     (let s = skip_space text in
      case parse_value (2 * length s + 1) 500 s of
        Malformed \<Rightarrow> Malformed
      | Beyond \<Rightarrow> Beyond
      | Parsed v r \<Rightarrow> if skip_space r = [] then Parsed v [] else Malformed)"

section \<open>The fuel is enough\<close>

lemma length_skip_space: "length (skip_space s) \<le> length s"
  by (simp add: skip_space_def length_dropWhile_le)

lemma skip_space_Cons: "skip_space s = c # cs \<Longrightarrow> length cs < length s"
  using length_skip_space [of s] by simp

lemma map_parsed_Parsed: "map_parsed f p = Parsed y r \<longleftrightarrow> (\<exists>x. p = Parsed x r \<and> y = f x)"
  by (cases p) auto

lemma scan_string_length: "scan_string s = Parsed x r \<Longrightarrow> length r < length s"
proof (induction s arbitrary: x r rule: length_induct)
  case (1 s)
  then have IH: "\<And>t y q. scan_string t = Parsed y q \<Longrightarrow> length t < length s \<Longrightarrow> length q < length s"
    using less_trans by blast
  show ?case
  proof (cases s)
    case (Cons c cs)
    with "1.prems" scan_string.simps(2) [of c cs] show ?thesis
      by (auto simp: map_parsed_Parsed simp del: scan_string.simps split: if_splits list.splits option.splits
          dest!: IH)
  qed (use "1.prems" in simp)
qed

lemma scan_fraction_length: "length (snd (scan_fraction s)) \<le> length s"
  by (auto simp: scan_fraction_def split: list.split intro: le_SucI length_dropWhile_le)

lemma scan_exponent_length: "length (snd (scan_exponent s)) \<le> length s"
proof (cases s)
  case (Cons c t)
  have "length (dropWhile is_digit u) \<le> Suc (length t)" if "u \<in> {t, tl t}" for u
    using length_dropWhile_le [of is_digit u] that by auto
  with Cons show ?thesis by (auto simp: scan_exponent_def Let_def)
qed (simp add: scan_exponent_def)

lemma number_value_rest: "number_value neg whole part ex q = Parsed v r \<Longrightarrow> r = q"
  by (auto simp: number_value_def split: if_splits)

lemma scan_unsigned_length: "scan_unsigned neg t = Parsed v r \<Longrightarrow> length r \<le> length t"
proof -
  assume "scan_unsigned neg t = Parsed v r"
  then have "r = snd (scan_exponent (snd (scan_fraction (drop (length (whole_part t)) t))))"
    by (auto simp: scan_unsigned_def dest: number_value_rest split: if_splits prod.splits)
  also have "length \<dots> \<le> length (drop (length (whole_part t)) t)"
    using scan_exponent_length scan_fraction_length by (rule order_trans)
  finally show ?thesis by simp
qed

lemma scan_number_length: "scan_number s = Parsed v r \<Longrightarrow> length r \<le> length s"
  by (fastforce simp: scan_number_def dest: scan_unsigned_length split: if_splits)

lemma scan_literal_length: "scan_literal s = Parsed v r \<Longrightarrow> length r \<le> length s"
  by (auto simp: scan_literal_def split: if_splits dest: scan_number_length)

lemma parse_items_Parsed:
  "parse_items (Suc n) k s = Parsed vs r \<Longrightarrow>
   \<exists>v q cs. parse_value n k s = Parsed v q \<and> length cs < length q \<and>
     (r = cs \<or> (\<exists>us. parse_items n k (skip_space cs) = Parsed us r))"
  by (auto simp: map_parsed_Parsed split: parsed.splits list.splits if_splits dest: skip_space_Cons)

lemma parse_members_Parsed:
  assumes "parse_members (Suc n) k d s = Parsed ms r"
  shows "\<exists>cs v q es d'. length cs < length s \<and> parse_value n k (skip_space cs) = Parsed v q \<and> length es < length q \<and>
           (r = es \<or> parse_members n k d' (skip_space es) = Parsed ms r)"
proof -
  obtain c qs key r0 cs v r1 es where
    "s = c # qs" "scan_string qs = Parsed key r0" "skip_space r0 = CHR '':'' # cs"
    "parse_value n k (skip_space cs) = Parsed v r1" "skip_space r1 = CHR '','' # es \<or> skip_space r1 = CHR ''}'' # es"
    "r = es \<or> (\<exists>d'. parse_members n k d' (skip_space es) = Parsed ms r)"
    using assms by (auto split: parsed.splits list.splits if_splits) blast+
  moreover from this have "length cs < length s" "length es < length r1"
    using scan_string_length [of qs key r0] skip_space_Cons [of r0] skip_space_Cons [of r1] by fastforce+
  ultimately show ?thesis by blast
qed

lemma parse_length:
  "parse_value n k s = Parsed v r \<Longrightarrow> length r \<le> length s"
  "parse_items n k s = Parsed vs r \<Longrightarrow> length r \<le> length s"
  "parse_members n k d s = Parsed ms r \<Longrightarrow> length r \<le> length s"
proof (induction n arbitrary: k d s v r vs ms)
  case (Suc n)
  note sp = length_skip_space
  {
    case 1
    have sp1: "length (tl (skip_space t)) \<le> Suc (length t)" for t
      using length_skip_space [of t] by simp
    show ?case
      using 1
      by (cases s)
         (auto simp: Let_def map_parsed_Parsed split: if_splits intro: le_SucI order_trans [OF _ sp] sp1
           dest!: scan_string_length scan_literal_length Suc.IH(2,3))
  next
    case 2
    then show ?case
      using parse_items_Parsed [OF 2] Suc.IH(1,2) sp by (meson le_trans less_imp_le)
  next
    case 3
    then show ?case
      using parse_members_Parsed [OF 3] Suc.IH(1,3) sp by (meson le_trans less_imp_le)
  }
qed simp_all

text \<open>With at least this fuel the result does not depend on it.\<close>

lemma fuel_enough:
  "2 * length s + 1 \<le> n \<Longrightarrow> 2 * length s + 1 \<le> m \<Longrightarrow> parse_value n k s = parse_value m k s"
  "2 * length s + 2 \<le> n \<Longrightarrow> 2 * length s + 2 \<le> m \<Longrightarrow> parse_items n k s = parse_items m k s"
  "2 * length s + 1 \<le> n \<Longrightarrow> 2 * length s + 1 \<le> m \<Longrightarrow> parse_members n k d s = parse_members m k d s"
proof (induction n arbitrary: k d s m)
  case (Suc n)
  note sp = length_skip_space
  {
    case 1
    then obtain m' where m: "m = Suc m'" by (cases m) auto
    show ?case
    proof (cases s)
      case (Cons c cs)
      with 1 m have f: "2 * length (skip_space cs) + 2 \<le> n" "2 * length (skip_space cs) + 2 \<le> m'"
        using sp [of cs] by simp_all
      have "parse_items n (k - 1) (skip_space cs) = parse_items m' (k - 1) (skip_space cs)"
        "parse_members n (k - 1) [] (skip_space cs) = parse_members m' (k - 1) [] (skip_space cs)"
        using f by (auto intro: Suc.IH(2,3))
      then show ?thesis unfolding Cons m parse_value.simps list.case Let_def by (simp only:)
    qed (use m in simp)
  next
    case 2
    then obtain m' where m: "m = Suc m'" by (cases m) auto
    have v: "parse_value n k s = parse_value m' k s" using 2 m by (auto intro: Suc.IH(1))
    have i: "parse_items n k (skip_space cs) = parse_items m' k (skip_space cs)"
      if "parse_value m' k s = Parsed x r" "skip_space r = c # cs" for x r c cs
      using parse_length(1) [OF that(1)] skip_space_Cons [OF that(2)] sp [of cs] 2 m
      by (intro Suc.IH(2)) simp_all
    show ?case using v i m by (auto split: parsed.split list.split)
  next
    case 3
    then obtain m' where m: "m = Suc m'" by (cases m) auto
    have v: "parse_value n k (skip_space cs) = parse_value m' k (skip_space cs)"
      if "s = q # qs" "scan_string qs = Parsed key r" "skip_space r = c # cs" for q qs key r c cs
      using that(1) scan_string_length [OF that(2)] skip_space_Cons [OF that(3)] sp [of cs] 3 m
      by (intro Suc.IH(1)) simp_all
    have i: "parse_members n k d' (skip_space es) = parse_members m' k d' (skip_space es)"
      if "s = q # qs" "scan_string qs = Parsed key r" "skip_space r = c # cs"
        "parse_value m' k (skip_space cs) = Parsed x r1" "skip_space r1 = e # es" for q qs key r c cs x r1 e es d'
      using that(1) scan_string_length [OF that(2)] skip_space_Cons [OF that(3)] sp [of cs] parse_length(1) [OF that(4)]
        skip_space_Cons [OF that(5)] sp [of es] 3 m
      by (intro Suc.IH(3)) simp_all
    show ?case using v i m by (auto split: parsed.split list.split)
  }
qed simp_all

text \<open>Decoding the text does not depend on the fuel beyond twice its length and one.\<close>

lemma loads_text_fuel:
  assumes "2 * length (skip_space text) + 1 \<le> n"
  shows "loads_text text =
           (case parse_value n 500 (skip_space text) of
              Malformed \<Rightarrow> Malformed
            | Beyond \<Rightarrow> Beyond
            | Parsed v r \<Rightarrow> if skip_space r = [] then Parsed v [] else Malformed)"
  unfolding loads_text_def Let_def using fuel_enough(1) [OF order_refl assms] by simp

section \<open>Decoding what was encoded\<close>

text \<open>How each character is written, by its code point.\<close>

lemma hex_value_digit: "m < 16 \<Longrightarrow> hex_value (hex_digit m) = Some m"
  by (simp add: hex_value_def hex_digit_def Let_def)

lemma hex4_dumps:
  assumes "n < 256"
  shows "hex4 (CHR ''0'') (CHR ''0'') (hex_digit (n div 16)) (hex_digit (n mod 16)) = Some n"
proof -
  have "hex_value (CHR ''0'') = Some 0" by (simp add: hex_value_def)
  moreover have "hex_value (hex_digit (n div 16)) = Some (n div 16)" "hex_value (hex_digit (n mod 16)) = Some (n mod 16)"
    using assms by (auto intro: hex_value_digit)
  ultimately show ?thesis by (simp add: hex4_def)
qed

lemma escape_codes:
  "char_of (34::nat) = CHR 0x22" "char_of (92::nat) = CHR 0x5C" "char_of (10::nat) = CHR 0x0A"
  "char_of (13::nat) = CHR 0x0D" "char_of (9::nat) = CHR 0x09" "char_of (12::nat) = CHR 0x0C"
  "char_of (8::nat) = CHR 0x08"
  by code_simp+

lemma scan_dumps_code:
  assumes "n < 256"
  shows "scan_string (dumps_char (char_of n) @ t) = map_parsed ((#) (char_of (n :: nat))) (scan_string t)"
proof -
  have n: "(of_char (char_of n :: char) :: nat) = n" using assms by simp
  consider "n \<in> {34, 92, 10, 13, 9, 12, 8}" | "n \<notin> {34, 92, 10, 13, 9, 12, 8}" "32 \<le> n" "n \<le> 126"
    | "n \<notin> {34, 92, 10, 13, 9, 12, 8}" "\<not> (32 \<le> n \<and> n \<le> 126)" by blast
  then show ?thesis
  proof cases
    case 1
    then show ?thesis by (elim insertE emptyE) (simp_all add: escape_codes dumps_char_def unescape_def)
  next
    case 2
    then have "char_of n \<noteq> CHR 0x22" "char_of n \<noteq> CHR 0x5C"
      using arg_cong [of "char_of n" _ "of_char :: char \<Rightarrow> nat"] n by force+
    then show ?thesis using 2 n by (simp add: dumps_char_def)
  next
    case 3
    then have "dumps_char (char_of n) = CHR 0x5C # CHR ''u'' # CHR ''0'' # CHR ''0'' # [hex_digit (n div 16), hex_digit (n mod 16)]"
      unfolding dumps_char_def Let_def n by (simp add: escape_codes)
    moreover have "unescape (CHR ''u'') = None" by (simp add: unescape_def)
    ultimately show ?thesis using hex4_dumps [OF assms] assms by simp
  qed
qed

lemma scan_dumps_char: "scan_string (dumps_char c @ t) = map_parsed ((#) c) (scan_string t)"
  using scan_dumps_code [of "of_char c" t] by simp

lemma scan_dumps_str: "scan_string (concat (map dumps_char s) @ CHR 0x22 # t) = Parsed s t"
  by (induction s) (simp_all only: concat.simps list.map append_Nil append_assoc scan_dumps_char, simp_all)

lemma skip_space_simps [simp]:
  "skip_space [] = []" "skip_space (CHR '' '' # s) = skip_space s" "skip_space (CHR 0x22 # s) = CHR 0x22 # s"
  "skip_space (CHR '':'' # s) = CHR '':'' # s" "skip_space (CHR '','' # s) = CHR '','' # s"
  "skip_space (CHR ''}'' # s) = CHR ''}'' # s" "skip_space (CHR ''{'' # s) = CHR ''{'' # s"
  by (simp_all add: skip_space_def json_space_def)

definition dumps_pair :: "string \<times> string \<Rightarrow> string" where
  "dumps_pair = (\<lambda>(k, v). dumps_str k @ '': '' @ dumps_str v)"

lemma dumps_obj_pairs: "dumps_obj kvs = ''{'' @ join_with '', '' (map dumps_pair kvs) @ ''}''"
  by (simp add: dumps_obj_def dumps_pair_def)

definition put_strings :: "(string \<times> json) list \<Rightarrow> (string \<times> string) list \<Rightarrow> (string \<times> json) list" where
  "put_strings = foldl (\<lambda>d (k, v). dict_put k (JStr v) d)"

lemma parse_dumps_members:
  assumes "kvs \<noteq> []" "length kvs < n"
  shows "parse_members n k d (join_with '', '' (map dumps_pair kvs) @ CHR ''}'' # r) = Parsed (put_strings d kvs) r"
  using assms
proof (induction kvs arbitrary: n d)
  case (Cons kv kvs)
  obtain key v where kv: "kv = (key, v)" by fastforce
  obtain n' where n: "n = Suc (Suc n')" using Cons.prems by (cases n; cases "n - 1") auto
  show ?case
  proof (cases "kvs = []")
    case True
    then show ?thesis by (simp add: kv n dumps_pair_def dumps_str_def scan_dumps_str put_strings_def)
  next
    case False
    then have "join_with '', '' (map dumps_pair (kv # kvs)) = dumps_pair kv @ '', '' @ join_with '', '' (map dumps_pair kvs)"
      by (cases kvs) simp_all
    moreover have "skip_space (join_with '', '' (map dumps_pair kvs) @ t) = join_with '', '' (map dumps_pair kvs) @ t" for t
      using False by (cases kvs; cases "tl kvs") (auto simp: dumps_pair_def dumps_str_def split: prod.splits)
    ultimately show ?thesis
      using Cons.IH [OF False, of "Suc n'" "dict_put key (JStr v) d"] Cons.prems n
      by (simp add: kv dumps_pair_def dumps_str_def scan_dumps_str put_strings_def)
  qed
qed simp

lemma put_strings_distinct:
  assumes "distinct (map fst d @ map fst kvs)"
  shows "put_strings d kvs = d @ map (\<lambda>(k, v). (k, JStr v)) kvs"
  using assms
proof (induction kvs arbitrary: d)
  case (Cons kv kvs)
  obtain key v where kv: "kv = (key, v)" by fastforce
  have "dict_put key (JStr v) d = d @ [(key, JStr v)]"
    using Cons.prems kv by (induction d) (auto simp: dict_put_def)
  then show ?case using Cons kv by (simp add: put_strings_def)
qed (simp add: put_strings_def)

lemma length_join_with: "length xs \<le> Suc (length (join_with '', '' xs))"
  by (induction xs rule: induct_list012) simp_all

lemma loads_dumps_obj:
  assumes "kvs \<noteq> []" "distinct (map fst kvs)"
  shows "loads_text (dumps_obj kvs) = Parsed (JObj (map (\<lambda>(k, v). (k, JStr v)) kvs)) []"
proof -
  let ?j = "join_with '', '' (map dumps_pair kvs)"
  have s: "skip_space (?j @ t) = ?j @ t" "?j @ t \<noteq> []" "hd (?j @ t) = CHR 0x22" for t
    using assms(1) by (cases kvs; cases "tl kvs"; auto simp: dumps_pair_def dumps_str_def split: prod.splits)+
  have "parse_members (2 * (length ?j + 2)) 499 [] (?j @ ''}'') = Parsed (map (\<lambda>(k, v). (k, JStr v)) kvs) []"
    using parse_dumps_members [OF assms(1), of "2 * (length ?j + 2)" 499 "[]" "[]"]
      put_strings_distinct [of "[]" kvs] assms(2) length_join_with [of "map dumps_pair kvs"]
    by simp
  then have "parse_value (2 * length (dumps_obj kvs) + 1) 500 (dumps_obj kvs) = Parsed (JObj (map (\<lambda>(k, v). (k, JStr v)) kvs)) []"
    using s by (simp add: dumps_obj_pairs Let_def)
  moreover have "skip_space (dumps_obj kvs) = dumps_obj kvs" by (simp add: dumps_obj_pairs)
  ultimately show ?thesis by (simp only: loads_text_def Let_def) simp
qed

end
