(* ===== verification/External.thy ===== *)
theory External
  imports Py_Json
begin

text \<open>
  Everything the server calls that is not its own code, gathered in one record \<open>ext\<close> that the
  operations take as an argument: the settings read from the environment, the wall clock, the
  choices PostgreSQL leaves open (the order of rows without ORDER BY), the driver's encoding of
  JSON values into column values, bcrypt, JWT, the random sources, MQTT publishing and
  HTTP posting. What a theorem needs of them is one of the named hypotheses below; each states
  documented behaviour only, and \<open>demo_ext\<close> is a concrete environment that satisfies all of them.
\<close>

section \<open>Settings (config.py)\<close>

record settings =
  MQTT_BROKER :: string
  MQTT_PORT :: int
  LOG_LEVEL :: string
  SECRET_KEY :: string
  FIRMWARE_STORAGE_PATH :: string
  HOST_PROJECT_DIR :: string
  ESPHOME_IMAGE :: string
  SERVER_URL :: string
  FCM_PROJECT_ID :: string
  FCM_CREDENTIALS_PATH :: string
  SLACK_WEBHOOK_URL :: string
  SENDGRID_API_KEY :: string
  ALERT_EMAIL :: string

definition default_settings :: settings where
  "default_settings =
     \<lparr> MQTT_BROKER = ''localhost'', MQTT_PORT = 1883, LOG_LEVEL = ''INFO'',
       SECRET_KEY = ''change-me'', FIRMWARE_STORAGE_PATH = ''./data/firmware'',
       HOST_PROJECT_DIR = ''/opt/mdm_esp32'', ESPHOME_IMAGE = ''esphome/esphome:2024.12.4'',
       SERVER_URL = ''http://192.168.1.231:8000'',
       FCM_PROJECT_ID = [], FCM_CREDENTIALS_PATH = [],
       SLACK_WEBHOOK_URL = [], SENDGRID_API_KEY = [], ALERT_EMAIL = [] \<rparr>"

section \<open>The environment\<close>

text \<open>
  \<^item> \<open>clock k\<close> is the value of the \<open>k\<close>-th \<^verbatim>\<open>datetime.now(timezone.utc)\<close> of the call, \<open>pg_now k\<close>
    that of SQL's \<^verbatim>\<open>now()\<close> in the \<open>k\<close>-th transaction of the call.
  \<^item> \<open>wide_loads text\<close> is what \<^verbatim>\<open>json.loads\<close> makes of a text whose value is beyond the decoder of
    \<^theory_text>\<open>Py_Json\<close>, \<open>None\<close> when it raises.
  \<^item> \<open>row_order n\<close> is the order in which the database returns \<open>n\<close> matching rows.
  \<^item> \<open>bind_int j\<close> and \<open>bind_text j\<close> encode a JSON value for an INTEGER or VARCHAR column: \<open>None\<close> when
    the driver refuses it, \<open>Some None\<close> for NULL.
  \<^item> \<open>publish_raises topic\<close> says whether the broker client raises on publishing to a topic.
  \<^item> \<open>write_raises path\<close> says whether creating the directory of a file or writing it raises.
  \<^item> \<open>exn_text e\<close> is the text of an exception a library raised, \<open>json_repr v\<close> the \<^verbatim>\<open>repr\<close> of a float or a
    container.
  \<^item> \<open>collate s\<close> is the sort key of a text under the collation of the database, compared
    lexicographically, and \<open>pg_lower\<close> its lower-casing.
  \<^item> \<open>http_post url\<close> is the status code of a POST, \<open>None\<close> when the client raises.
\<close>

record ext =
  cfg :: settings
  clock :: "nat \<Rightarrow> datetime"
  pg_now :: "nat \<Rightarrow> datetime"
  row_order :: "nat \<Rightarrow> nat list"
  wide_loads :: "string \<Rightarrow> json option"
  bind_int :: "json \<Rightarrow> int option option"
  bind_text :: "json \<Rightarrow> string option option"
  publish_raises :: "string \<Rightarrow> bool"
  http_post :: "string \<Rightarrow> nat option"
  gensalt :: string
  hashpw :: "string \<Rightarrow> string \<Rightarrow> string"
  checkpw :: "string \<Rightarrow> string \<Rightarrow> bool"
  jwt_encode :: "string \<Rightarrow> string \<Rightarrow> datetime \<Rightarrow> string"
  jwt_decode :: "datetime \<Rightarrow> string \<Rightarrow> (string \<times> json) list option"
  rand_choice :: "nat \<Rightarrow> string \<Rightarrow> char"
  write_raises :: "string \<Rightarrow> bool"
  exn_text :: "exn \<Rightarrow> string"
  json_repr :: "json \<Rightarrow> string"
  collate :: "string \<Rightarrow> int list"
  pg_lower :: "string \<Rightarrow> string"

text \<open>\<^verbatim>\<open>json.loads(text)\<close>, \<open>None\<close> when it raises.\<close>

definition json_loads :: "ext \<Rightarrow> string \<Rightarrow> json option" where
  "json_loads E text =
     (case loads_text text of Parsed v r \<Rightarrow> Some v | Malformed \<Rightarrow> None | Beyond \<Rightarrow> wide_loads E text)"

lemma json_loads_Parsed: "loads_text text = Parsed v r \<Longrightarrow> json_loads E text = Some v"
  by (simp add: json_loads_def)

lemma json_loads_dumps:
  "kvs \<noteq> [] \<Longrightarrow> distinct (map fst kvs) \<Longrightarrow>
   json_loads E (dumps_obj kvs) = Some (JObj (map (\<lambda>(k, v). (k, JStr v)) kvs))"
  by (rule json_loads_Parsed) (rule loads_dumps_obj)

text \<open>PostgreSQL's INTEGER is a signed 32-bit number.\<close>

definition int4 :: "int \<Rightarrow> bool" where
  "int4 i \<longleftrightarrow> - (2 ^ 31) \<le> i \<and> i < 2 ^ 31"

text \<open>The rows of a query without ORDER BY, in the order the database delivers them.\<close>

definition scan :: "ext \<Rightarrow> 'r list \<Rightarrow> 'r list" where
  "scan E rows = map (\<lambda>i. rows ! i) (row_order E (length rows))"

section \<open>Documented behaviour the theorems rely on\<close>

text \<open>A query returns each matching row once, in some order.\<close>

definition scan_ok :: "ext \<Rightarrow> bool" where
  "scan_ok E \<longleftrightarrow> (\<forall>n. mset (row_order E n) = mset [0..<n])"

text \<open>
  The driver sends 32-bit integers and NUL-free strings, sends \<^verbatim>\<open>None\<close> (and only it) as NULL, and
  accepts for a text column nothing but strings.
\<close>

definition bind_ok :: "ext \<Rightarrow> bool" where
  "bind_ok E \<longleftrightarrow>
     (\<forall>i. bind_int E (JInt i) = (if int4 i then Some (Some i) else None)) \<and>
     (\<forall>j i. bind_int E j = Some (Some i) \<longrightarrow> int4 i) \<and>
     (\<forall>j. bind_int E j = Some None \<longleftrightarrow> j = JNull) \<and>
     (\<forall>s. CHR 0x00 \<notin> set s \<longrightarrow> bind_text E (JStr s) = Some (Some s)) \<and>
     (\<forall>j s. bind_text E j = Some (Some s) \<longrightarrow> j = JStr s) \<and>
     (\<forall>j. bind_text E j = Some None \<longleftrightarrow> j = JNull)"

text \<open>A password checks against its own hash, whatever the salt; the hash fits its column.\<close>

definition bcrypt_ok :: "ext \<Rightarrow> bool" where
  "bcrypt_ok E \<longleftrightarrow> (\<forall>p s. checkpw E p (hashpw E p s)) \<and> (\<forall>p s. length (hashpw E p s) \<le> 256)"

text \<open>A token is not empty; it decodes to its claims until its expiry and to nothing from one second after it.\<close>

definition jwt_ok :: "ext \<Rightarrow> bool" where
  "jwt_ok E \<longleftrightarrow>
     (\<forall>sub role expire. jwt_encode E sub role expire \<noteq> []) \<and>
     (\<forall>now sub role expire. now \<le> expire \<longrightarrow>
        (\<exists>claims. jwt_decode E now (jwt_encode E sub role expire) = Some claims \<and>
           map_of claims ''sub'' = Some (JStr sub) \<and> map_of claims ''role'' = Some (JStr role))) \<and>
     (\<forall>now sub role expire. expire + seconds 1 \<le> now \<longrightarrow>
        jwt_decode E now (jwt_encode E sub role expire) = None)"

text \<open>A random choice is a member of the alphabet.\<close>

definition choice_ok :: "ext \<Rightarrow> bool" where
  "choice_ok E \<longleftrightarrow> (\<forall>k xs. xs \<noteq> [] \<longrightarrow> rand_choice E k xs \<in> set xs)"

text \<open>Different texts have different sort keys (the collations of PostgreSQL are deterministic).\<close>

definition collate_ok :: "ext \<Rightarrow> bool" where
  "collate_ok E \<longleftrightarrow> inj (collate E)"

section \<open>A concrete environment\<close>

text \<open>
  Rows in table order, a clock that stands at 1000 seconds, a driver that accepts exactly the
  documented values, hashes and tokens that carry their contents in the clear.
\<close>

fun demo_bind_int :: "json \<Rightarrow> int option option" where
  "demo_bind_int JNull = Some None"
| "demo_bind_int (JInt i) = (if int4 i then Some (Some i) else None)"
| "demo_bind_int _ = None"

fun demo_bind_text :: "json \<Rightarrow> string option option" where
  "demo_bind_text JNull = Some None"
| "demo_bind_text (JStr s) = Some (Some s)"
| "demo_bind_text _ = None"

definition demo_hashpw :: "string \<Rightarrow> string \<Rightarrow> string" where
  "demo_hashpw p salt = (if length p \<le> 200 then CHR ''h'' # p else ''long'')"

definition demo_checkpw :: "string \<Rightarrow> string \<Rightarrow> bool" where
  "demo_checkpw p h = (demo_hashpw p [] = h)"

text \<open>A token is the expiry in unary-tagged decimal, a separator, and the two claims.\<close>

definition demo_jwt_encode :: "string \<Rightarrow> string \<Rightarrow> datetime \<Rightarrow> string" where
  "demo_jwt_encode sub role expire =
     replicate (nat expire) CHR ''+'' @ replicate (nat (- expire)) CHR ''-'' @ ''.'' @
     replicate (length sub) CHR ''#'' @ ''.'' @ sub @ role"

definition demo_jwt_decode :: "datetime \<Rightarrow> string \<Rightarrow> (string \<times> json) list option" where
  "demo_jwt_decode now tok =
     (let e = takeWhile (\<lambda>c. c \<noteq> CHR ''.'') tok;
          rest = drop (Suc (length e)) tok;
          n = length (takeWhile (\<lambda>c. c = CHR ''#'') rest);
          body = drop (Suc n) rest;
          expire = int (length (filter (\<lambda>c. c = CHR ''+'') e)) - int (length (filter (\<lambda>c. c = CHR ''-'') e))
      in if now \<le> expire
         then Some [(''sub'', JStr (take n body)), (''role'', JStr (drop n body))] else None)"

definition demo_lower :: "string \<Rightarrow> string" where
  "demo_lower s = map (\<lambda>c. let n = (of_char c :: nat) in if 65 \<le> n \<and> n \<le> 90 then char_of (n + 32) else c) s"

definition demo_ext :: ext where
  "demo_ext =
     \<lparr> cfg = default_settings, clock = (\<lambda>_. seconds 1000), pg_now = (\<lambda>_. seconds 1000),
       row_order = (\<lambda>n. [0..<n]), wide_loads = (\<lambda>_. None),
       bind_int = demo_bind_int, bind_text = demo_bind_text,
       publish_raises = (\<lambda>_. False), http_post = (\<lambda>_. Some 200),
       gensalt = ''salt'', hashpw = demo_hashpw, checkpw = demo_checkpw,
       jwt_encode = demo_jwt_encode, jwt_decode = demo_jwt_decode,
       rand_choice = (\<lambda>k xs. hd xs),
       write_raises = (\<lambda>_. False), exn_text = (\<lambda>_. ''error''), json_repr = (\<lambda>_. ''value''),
       collate = map of_char, pg_lower = demo_lower \<rparr>"

lemma demo_ext_simps [simp]:
  "cfg demo_ext = default_settings" "clock demo_ext k = seconds 1000" "pg_now demo_ext k = seconds 1000"
  "row_order demo_ext = (\<lambda>n. [0..<n])" "wide_loads demo_ext t = None"
  "bind_int demo_ext = demo_bind_int" "bind_text demo_ext = demo_bind_text"
  "publish_raises demo_ext t = False" "http_post demo_ext url = Some 200"
  "hashpw demo_ext = demo_hashpw" "checkpw demo_ext = demo_checkpw"
  "rand_choice demo_ext k xs = hd xs"
  "write_raises demo_ext p = False" "collate demo_ext = map of_char" "pg_lower demo_ext = demo_lower"
  by (simp_all add: demo_ext_def)

section \<open>Facts on the environment\<close>

lemma mset_scan: "scan_ok E \<Longrightarrow> mset (scan E rows) = mset rows"
proof -
  assume "scan_ok E"
  then have "mset (scan E rows) = image_mset ((!) rows) (mset [0..<length rows])"
    by (simp add: scan_def scan_ok_def)
  also have "\<dots> = mset (map ((!) rows) [0..<length rows])"
    by simp
  finally show ?thesis by (simp only: map_nth)
qed

lemma set_scan [simp]: "scan_ok E \<Longrightarrow> set (scan E rows) = set rows"
  by (metis mset_scan set_mset_mset)

lemma length_scan [simp]: "scan_ok E \<Longrightarrow> length (scan E rows) = length rows"
  by (metis mset_scan size_mset)

lemma distinct_scan_map: "scan_ok E \<Longrightarrow> distinct (map f (scan E rows)) = distinct (map f rows)"
  by (metis mset_scan mset_map mset_eq_imp_distinct_iff)

lemma scan_Nil [simp]: "scan_ok E \<Longrightarrow> scan E [] = []"
  using mset_scan [of E "[]"] by simp

lemma scan_demo [simp]: "row_order E = (\<lambda>n. [0..<n]) \<Longrightarrow> scan E rows = rows"
  by (simp add: scan_def map_nth)

lemma bind_text_eq:
  assumes "bind_ok E"
  shows "bind_text E j = Some (Some s) \<Longrightarrow> j = JStr s"
    and "bind_text E j = Some None \<longleftrightarrow> j = JNull"
  using assms by (auto simp: bind_ok_def)

lemma bind_int_eq:
  assumes "bind_ok E"
  shows "bind_int E (JInt i) = (if int4 i then Some (Some i) else None)"
    and "bind_int E j = Some (Some i) \<Longrightarrow> int4 i"
    and "bind_int E j = Some None \<longleftrightarrow> j = JNull"
  using assms unfolding bind_ok_def by blast+

lemma jwt_okD:
  assumes "jwt_ok E"
  shows "jwt_encode E sub role expire \<noteq> []"
    and "now \<le> expire \<Longrightarrow> \<exists>claims. jwt_decode E now (jwt_encode E sub role expire) = Some claims \<and>
           map_of claims ''sub'' = Some (JStr sub) \<and> map_of claims ''role'' = Some (JStr role)"
    and "expire + seconds 1 \<le> now \<Longrightarrow> jwt_decode E now (jwt_encode E sub role expire) = None"
  using assms unfolding jwt_ok_def by blast+

lemma demo_jwt_roundtrip:
  "demo_jwt_decode now (demo_jwt_encode sub role expire) =
     (if now \<le> expire then Some [(''sub'', JStr sub), (''role'', JStr role)] else None)"
proof -
  let ?e = "replicate (nat expire) CHR ''+'' @ replicate (nat (- expire)) CHR ''-''"
  have e: "takeWhile (\<lambda>c. c \<noteq> CHR ''.'') (?e @ CHR ''.'' # t) = ?e" for t
    by (subst takeWhile_append2) auto
  have h: "takeWhile (\<lambda>c. c = CHR ''#'') (replicate n CHR ''#'' @ CHR ''.'' # t) = replicate n CHR ''#''" for n t
    by (induction n) auto
  have tok: "demo_jwt_encode sub role expire =
               ?e @ CHR ''.'' # replicate (length sub) CHR ''#'' @ CHR ''.'' # sub @ role"
    by (simp add: demo_jwt_encode_def)
  have len: "int (length (filter (\<lambda>c. c = CHR ''+'') ?e)) - int (length (filter (\<lambda>c. c = CHR ''-'') ?e)) = expire"
    by simp
  show ?thesis
    unfolding demo_jwt_decode_def tok Let_def e len by (simp add: h)
qed

lemma demo_ext_ok [simp]:
  "scan_ok demo_ext" "bind_ok demo_ext" "bcrypt_ok demo_ext" "choice_ok demo_ext"
  "collate_ok demo_ext"
proof -
  have "inj (of_char :: char \<Rightarrow> int)" by (simp add: inj_on_def)
  then show "collate_ok demo_ext" by (simp add: collate_ok_def demo_ext_def)
  show "scan_ok demo_ext" by (simp add: scan_ok_def demo_ext_def)
  have "demo_bind_int j = Some (Some i) \<Longrightarrow> int4 i" for j i
    by (cases j) (auto split: if_splits)
  moreover have "demo_bind_int j = Some None \<longleftrightarrow> j = JNull" for j
    by (cases j) auto
  moreover have "demo_bind_text j = Some (Some s) \<Longrightarrow> j = JStr s" for j s
    by (cases j) auto
  moreover have "demo_bind_text j = Some None \<longleftrightarrow> j = JNull" for j
    by (cases j) auto
  ultimately show "bind_ok demo_ext" by (simp add: bind_ok_def demo_ext_def)
  show "bcrypt_ok demo_ext"
    by (auto simp: bcrypt_ok_def demo_ext_def demo_checkpw_def demo_hashpw_def)
  show "choice_ok demo_ext" by (simp add: choice_ok_def demo_ext_def)
qed

lemma demo_ext_jwt_ok [simp]: "jwt_ok demo_ext"
proof -
  have "demo_jwt_encode sub role expire \<noteq> []" for sub role expire
    by (simp add: demo_jwt_encode_def)
  then show ?thesis
    unfolding jwt_ok_def by (simp add: demo_ext_def demo_jwt_roundtrip seconds_def)
qed

text \<open>The hypotheses do not mention the clocks, the settings or the JSON decoder.\<close>

lemma ext_ok_frame [simp]:
  "scan_ok (E\<lparr>wide_loads := f\<rparr>) = scan_ok E" "bind_ok (E\<lparr>wide_loads := f\<rparr>) = bind_ok E"
  "scan_ok (E\<lparr>clock := c\<rparr>) = scan_ok E" "bind_ok (E\<lparr>clock := c\<rparr>) = bind_ok E"
  "scan_ok (E\<lparr>pg_now := c\<rparr>) = scan_ok E" "bind_ok (E\<lparr>pg_now := c\<rparr>) = bind_ok E"
  "scan_ok (E\<lparr>publish_raises := g\<rparr>) = scan_ok E"
  by (simp_all add: scan_ok_def bind_ok_def)

end
