(* ===== verification/Fleet_Db.thy ===== *)
theory Fleet_Db
  imports External
begin

text \<open>
  The database: one record per model class of \<^verbatim>\<open>fleet_server/models\<close>, the state \<open>db\<close> with one list
  of rows per table, the schema invariant \<open>db_wf\<close> (primary keys, UNIQUE columns, foreign keys,
  column widths, serial ids below their sequence), and the INSERT and UPDATE statements the
  server issues, each with the constraint checks the models declare. NOT NULL columns have a
  plain type and nullable ones an \<open>option\<close> type. A statement that fails leaves the tables alone,
  but the value drawn from a serial column's sequence is spent.
\<close>

section \<open>Model classes\<close>

record user =
  u_id :: string
  u_email :: string
  u_hashed_password :: string
  u_role :: string
  u_is_active :: bool
  u_created_at :: datetime

record home =
  h_home_id :: string
  h_patient_name :: string
  h_address :: "string option"
  h_created_at :: datetime

record community =
  c_community_id :: string
  c_name :: string
  c_description :: "string option"
  c_created_at :: datetime

record device =
  d_device_id :: string
  d_mac :: "string option"
  d_display_name :: "string option"
  d_custom_id :: "string option"
  d_firmware_version :: "string option"
  d_target_firmware_version :: "string option"
  d_device_type :: string
  d_provision_token :: "string option"
  d_role :: string
  d_status :: string
  d_last_seen :: "datetime option"
  d_home_id :: "string option"
  d_rssi :: "int option"
  d_heap :: "int option"
  d_uptime :: "int option"
  d_created_at :: datetime
  d_updated_at :: datetime

record broadcast =
  b_id :: int
  b_community_id :: string
  b_message :: string
  b_type :: string
  b_priority :: string
  b_scheduled_at :: "datetime option"
  b_sent_at :: "datetime option"
  b_sent_by :: "string option"
  b_created_at :: datetime

record broadcast_ack =
  a_id :: int
  a_broadcast_id :: int
  a_home_id :: string
  a_status :: string
  a_received_at :: "datetime option"

record firmware_version =
  f_id :: int
  f_version :: string
  f_binary_path :: string
  f_checksum :: string
  f_release_notes :: "string option"
  f_created_at :: datetime

record ota_event =
  e_id :: int
  e_device_id :: string
  e_from_version :: string
  e_to_version :: string
  e_status :: string
  e_started_at :: datetime
  e_completed_at :: "datetime option"

record provision_job =
  j_id :: string
  j_device_id :: string
  j_device_type :: string
  j_status :: string
  j_firmware_path :: "string option"
  j_error :: "string option"
  j_created_at :: datetime
  j_updated_at :: datetime

record device_group =
  g_id :: int
  g_name :: string
  g_description :: "string option"
  g_created_by :: "string option"
  g_created_at :: datetime
  g_updated_at :: datetime

record scheduled_rollout =
  r_id :: int
  r_target_version :: string
  r_strategy :: string
  r_target_devices :: "string list"
  r_canary_count :: "int option"
  r_fire_at :: datetime
  r_status :: string
  r_created_by :: "string option"
  r_created_at :: datetime
  r_fired_at :: "datetime option"
  r_error :: "string option"

record audit_entry =
  l_id :: int
  l_user_id :: "string option"
  l_action :: string
  l_resource :: string
  l_details :: "json option"
  l_created_at :: datetime

text \<open>The sequences behind the autoincrement columns.\<close>

record seqs =
  seq_broadcasts :: int
  seq_acks :: int
  seq_firmware :: int
  seq_events :: int
  seq_groups :: int
  seq_rollouts :: int
  seq_audit :: int

record db =
  users :: "user list"
  homes :: "home list"
  communities :: "community list"
  home_community :: "(string \<times> string) list"
  devices :: "device list"
  broadcasts :: "broadcast list"
  broadcast_acks :: "broadcast_ack list"
  firmware_versions :: "firmware_version list"
  ota_events :: "ota_event list"
  provision_jobs :: "provision_job list"
  device_groups :: "device_group list"
  device_group_members :: "(int \<times> string) list"
  scheduled_rollouts :: "scheduled_rollout list"
  audit_log :: "audit_entry list"
  sequences :: seqs

type_synonym 'a db_res = "'a res \<times> db"

definition empty_db :: db where
  "empty_db =
     \<lparr> users = [], homes = [], communities = [], home_community = [], devices = [],
       broadcasts = [], broadcast_acks = [], firmware_versions = [], ota_events = [],
       provision_jobs = [], device_groups = [], device_group_members = [],
       scheduled_rollouts = [], audit_log = [],
       sequences = \<lparr> seq_broadcasts = 1, seq_acks = 1, seq_firmware = 1, seq_events = 1,
                      seq_groups = 1, seq_rollouts = 1, seq_audit = 1 \<rparr> \<rparr>"

text \<open>Rolling a transaction back restores the tables, not the sequences.\<close>

definition rollback :: "db \<Rightarrow> db \<Rightarrow> db" where
  "rollback old new = old\<lparr>sequences := sequences new\<rparr>"

section \<open>Column constraints of one row\<close>

definition fits :: "nat \<Rightarrow> string \<Rightarrow> bool" where
  "fits n s = (length s \<le> n)"

definition fits_opt :: "nat \<Rightarrow> string option \<Rightarrow> bool" where
  "fits_opt n so = (case so of None \<Rightarrow> True | Some s \<Rightarrow> fits n s)"

definition int4_opt :: "int option \<Rightarrow> bool" where
  "int4_opt io = (case io of None \<Rightarrow> True | Some i \<Rightarrow> int4 i)"

definition user_ok :: "user \<Rightarrow> bool" where
  "user_ok u = (fits 64 (u_id u) \<and> fits 256 (u_email u) \<and> fits 256 (u_hashed_password u) \<and>
                fits 16 (u_role u))"

definition home_ok :: "home \<Rightarrow> bool" where
  "home_ok h = (fits 64 (h_home_id h) \<and> fits 128 (h_patient_name h) \<and> fits_opt 256 (h_address h))"

definition community_ok :: "community \<Rightarrow> bool" where
  "community_ok c = (fits 32 (c_community_id c) \<and> fits 128 (c_name c))"

definition device_ok :: "device \<Rightarrow> bool" where
  "device_ok d =
     (fits 64 (d_device_id d) \<and> fits_opt 17 (d_mac d) \<and> fits_opt 128 (d_display_name d) \<and>
      fits_opt 64 (d_custom_id d) \<and> fits_opt 32 (d_firmware_version d) \<and>
      fits_opt 32 (d_target_firmware_version d) \<and> fits 32 (d_device_type d) \<and>
      fits_opt 128 (d_provision_token d) \<and> fits 32 (d_role d) \<and> fits 16 (d_status d) \<and>
      fits_opt 64 (d_home_id d) \<and> int4_opt (d_rssi d) \<and> int4_opt (d_heap d) \<and> int4_opt (d_uptime d))"

definition broadcast_ok :: "broadcast \<Rightarrow> bool" where
  "broadcast_ok b = (fits 32 (b_community_id b) \<and> fits 16 (b_type b) \<and> fits 16 (b_priority b) \<and>
                     fits_opt 64 (b_sent_by b))"

definition ack_ok :: "broadcast_ack \<Rightarrow> bool" where
  "ack_ok a = (int4 (a_broadcast_id a) \<and> fits 64 (a_home_id a) \<and> fits 16 (a_status a))"

definition firmware_ok :: "firmware_version \<Rightarrow> bool" where
  "firmware_ok f = (fits 32 (f_version f) \<and> fits 256 (f_binary_path f) \<and> fits 64 (f_checksum f))"

definition event_ok :: "ota_event \<Rightarrow> bool" where
  "event_ok e = (fits 64 (e_device_id e) \<and> fits 32 (e_from_version e) \<and> fits 32 (e_to_version e) \<and>
                 fits 16 (e_status e))"

definition job_ok :: "provision_job \<Rightarrow> bool" where
  "job_ok j = (fits 36 (j_id j) \<and> fits 64 (j_device_id j) \<and> fits 32 (j_device_type j) \<and>
               fits 16 (j_status j) \<and> fits_opt 512 (j_firmware_path j))"

definition group_ok :: "device_group \<Rightarrow> bool" where
  "group_ok g = (fits 128 (g_name g) \<and> fits_opt 64 (g_created_by g))"

definition rollout_ok :: "scheduled_rollout \<Rightarrow> bool" where
  "rollout_ok r = (fits 32 (r_target_version r) \<and> fits 16 (r_strategy r) \<and> int4_opt (r_canary_count r) \<and>
                   fits 16 (r_status r) \<and> fits_opt 64 (r_created_by r))"

definition audit_ok :: "audit_entry \<Rightarrow> bool" where
  "audit_ok l = (fits_opt 64 (l_user_id l) \<and> fits 32 (l_action l) \<and> fits 32 (l_resource l))"

section \<open>The schema invariant\<close>

text \<open>One predicate per table; foreign keys are checked against the set of referred keys.\<close>

definition users_wf :: "user list \<Rightarrow> bool" where
  "users_wf us \<longleftrightarrow> distinct (map u_id us) \<and> distinct (map u_email us) \<and> list_all user_ok us"

definition homes_wf :: "home list \<Rightarrow> bool" where
  "homes_wf hs \<longleftrightarrow> distinct (map h_home_id hs) \<and> list_all home_ok hs"

definition communities_wf :: "community list \<Rightarrow> bool" where
  "communities_wf cs \<longleftrightarrow> distinct (map c_community_id cs) \<and> list_all community_ok cs"

definition fk_opt :: "('r \<Rightarrow> 'k option) \<Rightarrow> 'r list \<Rightarrow> 'k set \<Rightarrow> bool" where
  "fk_opt col rows K \<longleftrightarrow> set (non_null col rows) \<subseteq> K"

definition fk :: "('r \<Rightarrow> 'k) \<Rightarrow> 'r list \<Rightarrow> 'k set \<Rightarrow> bool" where
  "fk col rows K \<longleftrightarrow> set (map col rows) \<subseteq> K"

definition devices_wf :: "device list \<Rightarrow> string set \<Rightarrow> bool" where
  "devices_wf ds H \<longleftrightarrow> distinct (map d_device_id ds) \<and> distinct (non_null d_mac ds) \<and>
     list_all device_ok ds \<and> fk_opt d_home_id ds H"

definition home_community_wf :: "(string \<times> string) list \<Rightarrow> string set \<Rightarrow> string set \<Rightarrow> bool" where
  "home_community_wf hc H C \<longleftrightarrow> distinct hc \<and> fk fst hc H \<and> fk snd hc C"

definition serial_wf :: "('r \<Rightarrow> int) \<Rightarrow> 'r list \<Rightarrow> int \<Rightarrow> bool" where
  "serial_wf idf rows n \<longleftrightarrow> distinct (map idf rows) \<and> (\<forall>r \<in> set rows. idf r < n)"

definition broadcasts_wf :: "broadcast list \<Rightarrow> string set \<Rightarrow> int \<Rightarrow> bool" where
  "broadcasts_wf bs C n \<longleftrightarrow> serial_wf b_id bs n \<and> list_all broadcast_ok bs \<and> fk b_community_id bs C"

definition acks_wf :: "broadcast_ack list \<Rightarrow> int set \<Rightarrow> string set \<Rightarrow> int \<Rightarrow> bool" where
  "acks_wf as B H n \<longleftrightarrow> serial_wf a_id as n \<and> list_all ack_ok as \<and> fk a_broadcast_id as B \<and> fk a_home_id as H"

definition firmware_wf :: "firmware_version list \<Rightarrow> int \<Rightarrow> bool" where
  "firmware_wf fs n \<longleftrightarrow> serial_wf f_id fs n \<and> distinct (map f_version fs) \<and> list_all firmware_ok fs"

definition events_wf :: "ota_event list \<Rightarrow> string set \<Rightarrow> int \<Rightarrow> bool" where
  "events_wf es D n \<longleftrightarrow> serial_wf e_id es n \<and> list_all event_ok es \<and> fk e_device_id es D"

definition jobs_wf :: "provision_job list \<Rightarrow> bool" where
  "jobs_wf js \<longleftrightarrow> distinct (map j_id js) \<and> list_all job_ok js"

definition groups_wf :: "device_group list \<Rightarrow> string set \<Rightarrow> int \<Rightarrow> bool" where
  "groups_wf gs U n \<longleftrightarrow> serial_wf g_id gs n \<and> distinct (map g_name gs) \<and> list_all group_ok gs \<and>
     fk_opt g_created_by gs U"

definition members_wf :: "(int \<times> string) list \<Rightarrow> int set \<Rightarrow> string set \<Rightarrow> bool" where
  "members_wf ms G D \<longleftrightarrow> distinct ms \<and> fk fst ms G \<and> fk snd ms D"

definition rollouts_wf :: "scheduled_rollout list \<Rightarrow> string set \<Rightarrow> string set \<Rightarrow> int \<Rightarrow> bool" where
  "rollouts_wf rs V U n \<longleftrightarrow> serial_wf r_id rs n \<and> list_all rollout_ok rs \<and>
     fk r_target_version rs V \<and> fk_opt r_created_by rs U"

definition audit_wf :: "audit_entry list \<Rightarrow> int \<Rightarrow> bool" where
  "audit_wf ls n \<longleftrightarrow> serial_wf l_id ls n \<and> list_all audit_ok ls"

abbreviation user_keys :: "db \<Rightarrow> string set" where "user_keys db \<equiv> u_id ` set (users db)"
abbreviation home_keys :: "db \<Rightarrow> string set" where "home_keys db \<equiv> h_home_id ` set (homes db)"
abbreviation community_keys :: "db \<Rightarrow> string set" where
  "community_keys db \<equiv> c_community_id ` set (communities db)"
abbreviation device_keys :: "db \<Rightarrow> string set" where "device_keys db \<equiv> d_device_id ` set (devices db)"
abbreviation broadcast_keys :: "db \<Rightarrow> int set" where "broadcast_keys db \<equiv> b_id ` set (broadcasts db)"
abbreviation group_keys :: "db \<Rightarrow> int set" where "group_keys db \<equiv> g_id ` set (device_groups db)"
abbreviation version_keys :: "db \<Rightarrow> string set" where
  "version_keys db \<equiv> f_version ` set (firmware_versions db)"

definition db_wf :: "db \<Rightarrow> bool" where
  "db_wf db \<longleftrightarrow>
     users_wf (users db) \<and> homes_wf (homes db) \<and> communities_wf (communities db) \<and>
     devices_wf (devices db) (home_keys db) \<and>
     home_community_wf (home_community db) (home_keys db) (community_keys db) \<and>
     broadcasts_wf (broadcasts db) (community_keys db) (seq_broadcasts (sequences db)) \<and>
     acks_wf (broadcast_acks db) (broadcast_keys db) (home_keys db) (seq_acks (sequences db)) \<and>
     firmware_wf (firmware_versions db) (seq_firmware (sequences db)) \<and>
     events_wf (ota_events db) (device_keys db) (seq_events (sequences db)) \<and>
     jobs_wf (provision_jobs db) \<and>
     groups_wf (device_groups db) (user_keys db) (seq_groups (sequences db)) \<and>
     members_wf (device_group_members db) (group_keys db) (device_keys db) \<and>
     rollouts_wf (scheduled_rollouts db) (version_keys db) (user_keys db) (seq_rollouts (sequences db)) \<and>
     audit_wf (audit_log db) (seq_audit (sequences db))"

end
