(* ===== verification/Db_Statements.thy ===== *)
theory Db_Statements
  imports Fleet_Db
begin

text \<open>
  The statements the object mapper and the query builder send to the database: one INSERT per
  model class, the UPDATE of one changed object, and the set-oriented UPDATE. Each checks the
  constraints its model class declares: a value that does not fit its column is a \<open>DBAPIError\<close>, a
  duplicate key or a missing referred row an \<open>IntegrityError\<close>. The lemmas show that each statement
  that succeeds keeps the schema invariant, so a handler keeps it too.
\<close>

section \<open>INSERT\<close>

definition insert_user :: "user \<Rightarrow> db \<Rightarrow> db res" where
  "insert_user u db =
     (if \<not> user_ok u then Inl DBAPIError
      else if u_id u \<in> user_keys db \<or> u_email u \<in> u_email ` set (users db) then Inl IntegrityError
      else Inr (db\<lparr>users := users db @ [u]\<rparr>))"

definition insert_home :: "home \<Rightarrow> db \<Rightarrow> db res" where
  "insert_home h db =
     (if \<not> home_ok h then Inl DBAPIError
      else if h_home_id h \<in> home_keys db then Inl IntegrityError
      else Inr (db\<lparr>homes := homes db @ [h]\<rparr>))"

definition insert_community :: "community \<Rightarrow> db \<Rightarrow> db res" where
  "insert_community c db =
     (if \<not> community_ok c then Inl DBAPIError
      else if c_community_id c \<in> community_keys db then Inl IntegrityError
      else Inr (db\<lparr>communities := communities db @ [c]\<rparr>))"

definition insert_home_community :: "string \<Rightarrow> string \<Rightarrow> db \<Rightarrow> db res" where
  "insert_home_community hid cid db =
     (if \<not> (fits 64 hid \<and> fits 32 cid) then Inl DBAPIError
      else if (hid, cid) \<in> set (home_community db) \<or> hid \<notin> home_keys db \<or> cid \<notin> community_keys db
      then Inl IntegrityError
      else Inr (db\<lparr>home_community := home_community db @ [(hid, cid)]\<rparr>))"

text \<open>A \<^verbatim>\<open>Device(...)\<close> with the defaults of the model class, inserted in a transaction that started at \<open>t\<close>.\<close>

definition default_device :: "string \<Rightarrow> datetime \<Rightarrow> device" where
  "default_device did t =
     \<lparr> d_device_id = did, d_mac = None, d_display_name = None, d_custom_id = None,
       d_firmware_version = None, d_target_firmware_version = None, d_device_type = ''room_sensor'',
       d_provision_token = None, d_role = ''sensor'', d_status = ''unknown'', d_last_seen = None,
       d_home_id = None, d_rssi = None, d_heap = None, d_uptime = None,
       d_created_at = t, d_updated_at = t \<rparr>"

text \<open>The conditions on a device row that involve other rows: its MAC is free, its home exists.\<close>

definition mac_free :: "device \<Rightarrow> db \<Rightarrow> bool" where
  "mac_free d db = (case d_mac d of None \<Rightarrow> True
     | Some m \<Rightarrow> \<forall>r \<in> set (devices db). d_device_id r \<noteq> d_device_id d \<longrightarrow> d_mac r \<noteq> Some m)"

definition home_exists :: "device \<Rightarrow> db \<Rightarrow> bool" where
  "home_exists d db = (case d_home_id d of None \<Rightarrow> True | Some h \<Rightarrow> h \<in> home_keys db)"

definition insert_device :: "device \<Rightarrow> db \<Rightarrow> db res" where
  "insert_device d db =
     (if \<not> device_ok d then Inl DBAPIError
      else if d_device_id d \<in> device_keys db \<or> \<not> mac_free d db \<or> \<not> home_exists d db
      then Inl IntegrityError
      else Inr (db\<lparr>devices := devices db @ [d]\<rparr>))"

definition insert_job :: "provision_job \<Rightarrow> db \<Rightarrow> db res" where
  "insert_job j db =
     (if \<not> job_ok j then Inl DBAPIError
      else if j_id j \<in> j_id ` set (provision_jobs db) then Inl IntegrityError
      else Inr (db\<lparr>provision_jobs := provision_jobs db @ [j]\<rparr>))"

text \<open>Tables with a serial id draw it from their sequence first.\<close>

definition insert_broadcast :: "broadcast \<Rightarrow> db \<Rightarrow> broadcast db_res" where
  "insert_broadcast b db =
     (let n = seq_broadcasts (sequences db); b' = b\<lparr>b_id := n\<rparr>;
          db' = db\<lparr>sequences := (sequences db)\<lparr>seq_broadcasts := n + 1\<rparr>\<rparr>
      in if \<not> broadcast_ok b' then (Inl DBAPIError, db')
         else if b_community_id b' \<notin> community_keys db then (Inl IntegrityError, db')
         else (Inr b', db'\<lparr>broadcasts := broadcasts db @ [b']\<rparr>))"

definition insert_ack :: "broadcast_ack \<Rightarrow> db \<Rightarrow> broadcast_ack db_res" where
  "insert_ack a db =
     (let n = seq_acks (sequences db); a' = a\<lparr>a_id := n\<rparr>;
          db' = db\<lparr>sequences := (sequences db)\<lparr>seq_acks := n + 1\<rparr>\<rparr>
      in if \<not> ack_ok a' then (Inl DBAPIError, db')
         else if a_broadcast_id a' \<notin> broadcast_keys db \<or> a_home_id a' \<notin> home_keys db
         then (Inl IntegrityError, db')
         else (Inr a', db'\<lparr>broadcast_acks := broadcast_acks db @ [a']\<rparr>))"

definition insert_firmware :: "firmware_version \<Rightarrow> db \<Rightarrow> firmware_version db_res" where
  "insert_firmware f db =
     (let n = seq_firmware (sequences db); f' = f\<lparr>f_id := n\<rparr>;
          db' = db\<lparr>sequences := (sequences db)\<lparr>seq_firmware := n + 1\<rparr>\<rparr>
      in if \<not> firmware_ok f' then (Inl DBAPIError, db')
         else if f_version f' \<in> version_keys db then (Inl IntegrityError, db')
         else (Inr f', db'\<lparr>firmware_versions := firmware_versions db @ [f']\<rparr>))"

definition insert_event :: "ota_event \<Rightarrow> db \<Rightarrow> ota_event db_res" where
  "insert_event e db =
     (let n = seq_events (sequences db); e' = e\<lparr>e_id := n\<rparr>;
          db' = db\<lparr>sequences := (sequences db)\<lparr>seq_events := n + 1\<rparr>\<rparr>
      in if \<not> event_ok e' then (Inl DBAPIError, db')
         else if e_device_id e' \<notin> device_keys db then (Inl IntegrityError, db')
         else (Inr e', db'\<lparr>ota_events := ota_events db @ [e']\<rparr>))"

definition insert_group :: "device_group \<Rightarrow> db \<Rightarrow> device_group db_res" where
  "insert_group g db =
     (let n = seq_groups (sequences db); g' = g\<lparr>g_id := n\<rparr>;
          db' = db\<lparr>sequences := (sequences db)\<lparr>seq_groups := n + 1\<rparr>\<rparr>
      in if \<not> group_ok g' then (Inl DBAPIError, db')
         else if g_name g' \<in> g_name ` set (device_groups db) \<or>
                 (case g_created_by g' of None \<Rightarrow> False | Some u \<Rightarrow> u \<notin> user_keys db)
         then (Inl IntegrityError, db')
         else (Inr g', db'\<lparr>device_groups := device_groups db @ [g']\<rparr>))"

definition insert_rollout :: "scheduled_rollout \<Rightarrow> db \<Rightarrow> scheduled_rollout db_res" where
  "insert_rollout r db =
     (let n = seq_rollouts (sequences db); r' = r\<lparr>r_id := n\<rparr>;
          db' = db\<lparr>sequences := (sequences db)\<lparr>seq_rollouts := n + 1\<rparr>\<rparr>
      in if \<not> rollout_ok r' then (Inl DBAPIError, db')
         else if r_target_version r' \<notin> version_keys db \<or>
                 (case r_created_by r' of None \<Rightarrow> False | Some u \<Rightarrow> u \<notin> user_keys db)
         then (Inl IntegrityError, db')
         else (Inr r', db'\<lparr>scheduled_rollouts := scheduled_rollouts db @ [r']\<rparr>))"

definition insert_audit :: "audit_entry \<Rightarrow> db \<Rightarrow> audit_entry db_res" where
  "insert_audit l db =
     (let n = seq_audit (sequences db); l' = l\<lparr>l_id := n\<rparr>;
          db' = db\<lparr>sequences := (sequences db)\<lparr>seq_audit := n + 1\<rparr>\<rparr>
      in if \<not> audit_ok l' then (Inl DBAPIError, db')
         else (Inr l', db'\<lparr>audit_log := audit_log db @ [l']\<rparr>))"

section \<open>UPDATE of one object\<close>

definition flush_user :: "user \<Rightarrow> db \<Rightarrow> db res" where
  "flush_user u db =
     (if \<not> user_ok u then Inl DBAPIError
      else if \<exists>r \<in> set (users db). u_id r \<noteq> u_id u \<and> u_email r = u_email u then Inl IntegrityError
      else Inr (db\<lparr>users := replace_row u_id u (users db)\<rparr>))"

definition flush_home :: "home \<Rightarrow> db \<Rightarrow> db res" where
  "flush_home h db =
     (if \<not> home_ok h then Inl DBAPIError
      else Inr (db\<lparr>homes := replace_row h_home_id h (homes db)\<rparr>))"

definition flush_community :: "community \<Rightarrow> db \<Rightarrow> db res" where
  "flush_community c db =
     (if \<not> community_ok c then Inl DBAPIError
      else Inr (db\<lparr>communities := replace_row c_community_id c (communities db)\<rparr>))"

definition flush_device :: "device \<Rightarrow> db \<Rightarrow> db res" where
  "flush_device d db =
     (if \<not> device_ok d then Inl DBAPIError
      else if \<not> mac_free d db \<or> \<not> home_exists d db then Inl IntegrityError
      else Inr (db\<lparr>devices := replace_row d_device_id d (devices db)\<rparr>))"

definition flush_event :: "ota_event \<Rightarrow> db \<Rightarrow> db res" where
  "flush_event e db =
     (if \<not> event_ok e then Inl DBAPIError
      else if e_device_id e \<notin> device_keys db then Inl IntegrityError
      else Inr (db\<lparr>ota_events := replace_row e_id e (ota_events db)\<rparr>))"

definition flush_job :: "provision_job \<Rightarrow> db \<Rightarrow> db res" where
  "flush_job j db =
     (if \<not> job_ok j then Inl DBAPIError
      else Inr (db\<lparr>provision_jobs := replace_row j_id j (provision_jobs db)\<rparr>))"

definition flush_group :: "device_group \<Rightarrow> db \<Rightarrow> db res" where
  "flush_group g db =
     (if \<not> group_ok g then Inl DBAPIError
      else if (\<exists>r \<in> set (device_groups db). g_id r \<noteq> g_id g \<and> g_name r = g_name g) \<or>
              (case g_created_by g of None \<Rightarrow> False | Some u \<Rightarrow> u \<notin> user_keys db)
      then Inl IntegrityError
      else Inr (db\<lparr>device_groups := replace_row g_id g (device_groups db)\<rparr>))"

definition flush_rollout :: "scheduled_rollout \<Rightarrow> db \<Rightarrow> db res" where
  "flush_rollout r db =
     (if \<not> rollout_ok r then Inl DBAPIError
      else if r_target_version r \<notin> version_keys db \<or>
              (case r_created_by r of None \<Rightarrow> False | Some u \<Rightarrow> u \<notin> user_keys db)
      then Inl IntegrityError
      else Inr (db\<lparr>scheduled_rollouts := replace_row r_id r (scheduled_rollouts db)\<rparr>))"

section \<open>Keys, references and serial ids under the statements\<close>

lemma fk_append [simp]: "fk col (rows @ [r]) K \<longleftrightarrow> fk col rows K \<and> col r \<in> K"
  by (auto simp: fk_def)

lemma fk_opt_append [simp]:
  "fk_opt col (rows @ [r]) K \<longleftrightarrow> fk_opt col rows K \<and> (\<forall>v. col r = Some v \<longrightarrow> v \<in> K)"
  by (auto simp: fk_opt_def split: option.splits)

lemma fk_mono: "fk col rows K \<Longrightarrow> K \<subseteq> K' \<Longrightarrow> fk col rows K'"
  by (auto simp: fk_def)

lemma fk_opt_mono: "fk_opt col rows K \<Longrightarrow> K \<subseteq> K' \<Longrightarrow> fk_opt col rows K'"
  by (auto simp: fk_opt_def)

lemma fk_replace_row: "fk col rows K \<Longrightarrow> col new \<in> K \<Longrightarrow> fk col (replace_row key new rows) K"
  by (auto simp: fk_def replace_row_def set_update_where)

lemma fk_opt_replace_row:
  "fk_opt col rows K \<Longrightarrow> (\<forall>v. col new = Some v \<longrightarrow> v \<in> K) \<Longrightarrow> fk_opt col (replace_row key new rows) K"
  by (fastforce simp: fk_opt_def set_non_null replace_row_def set_update_where split: if_splits)

lemma fk_update_where:
  "(\<And>r. col (f r) = col r) \<Longrightarrow> fk col (update_where P f rows) K = fk col rows K"
  by (metis fk_def map_key_update_where)

lemma fk_opt_update_where:
  "(\<And>r. col (f r) = col r) \<Longrightarrow> fk_opt col (update_where P f rows) K = fk_opt col rows K"
  by (simp add: fk_opt_def)

lemma serial_wf_append [simp]:
  assumes "idf r = n"
  shows "serial_wf idf (rows @ [r]) (n + 1) = serial_wf idf rows n"
proof -
  have "(\<forall>x \<in> set rows. idf x < n + 1) \<and> n \<notin> idf ` set rows \<longleftrightarrow> (\<forall>x \<in> set rows. idf x < n)"
    by (force simp: zless_add1_eq)
  then show ?thesis using assms by (simp add: serial_wf_def) blast
qed

lemma serial_wf_replace_row:
  assumes "serial_wf idf rows n"
  shows "serial_wf idf (replace_row idf new rows) n"
proof -
  have "set (map idf (replace_row idf new rows)) = set (map idf rows)"
    by (simp only: map_key_replace_row)
  moreover have "distinct (map idf (replace_row idf new rows))"
    using assms by (simp add: serial_wf_def)
  ultimately show ?thesis
    using assms unfolding serial_wf_def by (metis (no_types, lifting) image_iff list.set_map)
qed

lemma serial_wf_update_where:
  assumes "\<And>r. idf (f r) = idf r"
  shows "serial_wf idf (update_where P f rows) n = serial_wf idf rows n"
proof -
  have "(\<forall>r \<in> set (update_where P f rows). idf r < n) = (\<forall>r \<in> set rows. idf r < n)"
    by (induction rows) (simp_all add: update_where_def assms)
  then show ?thesis using assms by (simp add: serial_wf_def)
qed

lemma list_all_replace_row: "list_all Q rows \<Longrightarrow> Q new \<Longrightarrow> list_all Q (replace_row key new rows)"
  by (auto simp: list_all_iff replace_row_def set_update_where)

lemma list_all_update_where:
  "list_all Q rows \<Longrightarrow> (\<And>r. r \<in> set rows \<Longrightarrow> P r \<Longrightarrow> Q r \<Longrightarrow> Q (f r)) \<Longrightarrow> list_all Q (update_where P f rows)"
  by (auto simp: list_all_iff set_update_where)

lemma keys_replace_row [simp]: "key ` set (replace_row key new rows) = key ` set rows"
  by (metis list.set_map map_key_replace_row)

lemma keys_update_where: "(\<And>r. key (f r) = key r) \<Longrightarrow> key ` set (update_where P f rows) = key ` set rows"
  by (metis list.set_map map_key_update_where)

lemmas table_wf_defs = users_wf_def homes_wf_def communities_wf_def devices_wf_def
  home_community_wf_def broadcasts_wf_def acks_wf_def firmware_wf_def events_wf_def jobs_wf_def
  groups_wf_def members_wf_def rollouts_wf_def audit_wf_def

lemmas append_wf_simps = table_wf_defs serial_wf_append image_iff

text \<open>Growing a referred table never breaks a reference.\<close>

lemma devices_wf_mono: "devices_wf ds H \<Longrightarrow> H \<subseteq> H' \<Longrightarrow> devices_wf ds H'"
  by (auto simp: devices_wf_def intro: fk_opt_mono)

lemma home_community_wf_mono:
  "home_community_wf hc H C \<Longrightarrow> H \<subseteq> H' \<Longrightarrow> C \<subseteq> C' \<Longrightarrow> home_community_wf hc H' C'"
  by (auto simp: home_community_wf_def intro: fk_mono)

lemma broadcasts_wf_mono: "broadcasts_wf bs C n \<Longrightarrow> C \<subseteq> C' \<Longrightarrow> broadcasts_wf bs C' n"
  by (auto simp: broadcasts_wf_def intro: fk_mono)

lemma acks_wf_mono: "acks_wf as B H n \<Longrightarrow> B \<subseteq> B' \<Longrightarrow> H \<subseteq> H' \<Longrightarrow> acks_wf as B' H' n"
  by (auto simp: acks_wf_def intro: fk_mono)

lemma events_wf_mono: "events_wf es D n \<Longrightarrow> D \<subseteq> D' \<Longrightarrow> events_wf es D' n"
  by (auto simp: events_wf_def intro: fk_mono)

lemma groups_wf_mono: "groups_wf gs U n \<Longrightarrow> U \<subseteq> U' \<Longrightarrow> groups_wf gs U' n"
  by (auto simp: groups_wf_def intro: fk_opt_mono)

lemma members_wf_mono: "members_wf ms G D \<Longrightarrow> G \<subseteq> G' \<Longrightarrow> D \<subseteq> D' \<Longrightarrow> members_wf ms G' D'"
  by (auto simp: members_wf_def intro: fk_mono)

lemma rollouts_wf_mono: "rollouts_wf rs V U n \<Longrightarrow> V \<subseteq> V' \<Longrightarrow> U \<subseteq> U' \<Longrightarrow> rollouts_wf rs V' U' n"
  by (auto simp: rollouts_wf_def intro: fk_mono fk_opt_mono)

lemmas wf_monos = devices_wf_mono home_community_wf_mono broadcasts_wf_mono acks_wf_mono
  events_wf_mono groups_wf_mono members_wf_mono rollouts_wf_mono

section \<open>Replacing one table\<close>

text \<open>
  A table that nothing refers to may be replaced by any well-formed one; a referred table by a
  well-formed one that keeps the referred keys.
\<close>

lemma db_wf_set_users:
  assumes "db_wf db" "users_wf us" "user_keys db \<subseteq> u_id ` set us"
  shows "db_wf (db\<lparr>users := us\<rparr>)"
  using assms(1,2) unfolding db_wf_def
  by (simp add: groups_wf_mono [OF _ assms(3)] rollouts_wf_mono [OF _ subset_refl assms(3)])

lemma db_wf_set_homes:
  assumes "db_wf db" "homes_wf hs" "home_keys db \<subseteq> h_home_id ` set hs"
  shows "db_wf (db\<lparr>homes := hs\<rparr>)"
  using assms(1,2) unfolding db_wf_def
  by (simp add: devices_wf_mono [OF _ assms(3)] home_community_wf_mono [OF _ assms(3) subset_refl]
      acks_wf_mono [OF _ subset_refl assms(3)])

lemma db_wf_set_communities:
  assumes "db_wf db" "communities_wf cs" "community_keys db \<subseteq> c_community_id ` set cs"
  shows "db_wf (db\<lparr>communities := cs\<rparr>)"
  using assms(1,2) unfolding db_wf_def
  by (simp add: home_community_wf_mono [OF _ subset_refl assms(3)] broadcasts_wf_mono [OF _ assms(3)])

lemma db_wf_set_home_community:
  "db_wf db \<Longrightarrow> home_community_wf hc (home_keys db) (community_keys db) \<Longrightarrow>
   db_wf (db\<lparr>home_community := hc\<rparr>)"
  by (simp add: db_wf_def)

lemma db_wf_set_devices:
  assumes "db_wf db" "devices_wf ds (home_keys db)" "device_keys db \<subseteq> d_device_id ` set ds"
  shows "db_wf (db\<lparr>devices := ds\<rparr>)"
  using assms(1,2) unfolding db_wf_def
  by (simp add: events_wf_mono [OF _ assms(3)] members_wf_mono [OF _ subset_refl assms(3)])

lemma db_wf_set_broadcasts:
  assumes "db_wf db" "broadcasts_wf bs (community_keys db) (seq_broadcasts (sequences db))"
    "broadcast_keys db \<subseteq> b_id ` set bs"
  shows "db_wf (db\<lparr>broadcasts := bs\<rparr>)"
  using assms(1,2) unfolding db_wf_def
  by (simp add: acks_wf_mono [OF _ assms(3) subset_refl])

lemma db_wf_set_acks:
  "db_wf db \<Longrightarrow> acks_wf as (broadcast_keys db) (home_keys db) (seq_acks (sequences db)) \<Longrightarrow>
   db_wf (db\<lparr>broadcast_acks := as\<rparr>)"
  by (simp add: db_wf_def)

lemma db_wf_set_firmware:
  assumes "db_wf db" "firmware_wf fs (seq_firmware (sequences db))" "version_keys db \<subseteq> f_version ` set fs"
  shows "db_wf (db\<lparr>firmware_versions := fs\<rparr>)"
  using assms(1,2) unfolding db_wf_def
  by (simp add: rollouts_wf_mono [OF _ assms(3) subset_refl])

lemma db_wf_set_events:
  "db_wf db \<Longrightarrow> events_wf es (device_keys db) (seq_events (sequences db)) \<Longrightarrow> db_wf (db\<lparr>ota_events := es\<rparr>)"
  by (simp add: db_wf_def)

lemma db_wf_set_jobs: "db_wf db \<Longrightarrow> jobs_wf js \<Longrightarrow> db_wf (db\<lparr>provision_jobs := js\<rparr>)"
  by (simp add: db_wf_def)

lemma db_wf_set_groups:
  assumes "db_wf db" "groups_wf gs (user_keys db) (seq_groups (sequences db))"
    "group_keys db \<subseteq> g_id ` set gs"
  shows "db_wf (db\<lparr>device_groups := gs\<rparr>)"
  using assms(1,2) unfolding db_wf_def
  by (simp add: members_wf_mono [OF _ assms(3) subset_refl])

lemma db_wf_set_members:
  "db_wf db \<Longrightarrow> members_wf ms (group_keys db) (device_keys db) \<Longrightarrow>
   db_wf (db\<lparr>device_group_members := ms\<rparr>)"
  by (simp add: db_wf_def)

lemma db_wf_set_rollouts:
  "db_wf db \<Longrightarrow> rollouts_wf rs (version_keys db) (user_keys db) (seq_rollouts (sequences db)) \<Longrightarrow>
   db_wf (db\<lparr>scheduled_rollouts := rs\<rparr>)"
  by (simp add: db_wf_def)

lemma db_wf_set_audit:
  "db_wf db \<Longrightarrow> audit_wf ls (seq_audit (sequences db)) \<Longrightarrow> db_wf (db\<lparr>audit_log := ls\<rparr>)"
  by (simp add: db_wf_def)

text \<open>Drawing a value from a sequence keeps the invariant.\<close>

definition seqs_le :: "seqs \<Rightarrow> seqs \<Rightarrow> bool" where
  "seqs_le s t \<longleftrightarrow> seq_broadcasts s \<le> seq_broadcasts t \<and> seq_acks s \<le> seq_acks t \<and>
     seq_firmware s \<le> seq_firmware t \<and> seq_events s \<le> seq_events t \<and> seq_groups s \<le> seq_groups t \<and>
     seq_rollouts s \<le> seq_rollouts t \<and> seq_audit s \<le> seq_audit t"

lemma serial_wf_le: "serial_wf idf rows n \<Longrightarrow> n \<le> m \<Longrightarrow> serial_wf idf rows m"
  by (fastforce simp: serial_wf_def)

lemma seqs_le_refl [simp]: "seqs_le s s"
  by (simp add: seqs_le_def)

lemma seqs_le_trans: "seqs_le s t \<Longrightarrow> seqs_le t u \<Longrightarrow> seqs_le s u"
  by (auto simp: seqs_le_def)

lemma db_wf_sequences:
  assumes "db_wf db" "seqs_le (sequences db) s"
  shows "db_wf (db\<lparr>sequences := s\<rparr>)"
proof -
  note le = assms(2) [unfolded seqs_le_def]
  have "seq_broadcasts (sequences db) \<le> seq_broadcasts s" "seq_acks (sequences db) \<le> seq_acks s"
    "seq_firmware (sequences db) \<le> seq_firmware s" "seq_events (sequences db) \<le> seq_events s"
    "seq_groups (sequences db) \<le> seq_groups s" "seq_rollouts (sequences db) \<le> seq_rollouts s"
    "seq_audit (sequences db) \<le> seq_audit s"
    using le by simp_all
  note mono = this [THEN serial_wf_le [rotated]]
  show ?thesis
    using assms(1)
    by (simp add: db_wf_def broadcasts_wf_def acks_wf_def firmware_wf_def events_wf_def groups_wf_def
        rollouts_wf_def audit_wf_def mono)
qed

text \<open>
  The invariant read off table by table, for the proofs about one table.
\<close>

lemma db_wfD:
  assumes "db_wf db"
  shows "users_wf (users db)" "homes_wf (homes db)" "communities_wf (communities db)"
    "devices_wf (devices db) (home_keys db)"
    "home_community_wf (home_community db) (home_keys db) (community_keys db)"
    "broadcasts_wf (broadcasts db) (community_keys db) (seq_broadcasts (sequences db))"
    "acks_wf (broadcast_acks db) (broadcast_keys db) (home_keys db) (seq_acks (sequences db))"
    "firmware_wf (firmware_versions db) (seq_firmware (sequences db))"
    "events_wf (ota_events db) (device_keys db) (seq_events (sequences db))"
    "jobs_wf (provision_jobs db)"
    "groups_wf (device_groups db) (user_keys db) (seq_groups (sequences db))"
    "members_wf (device_group_members db) (group_keys db) (device_keys db)"
    "rollouts_wf (scheduled_rollouts db) (version_keys db) (user_keys db) (seq_rollouts (sequences db))"
    "audit_wf (audit_log db) (seq_audit (sequences db))"
  using assms by (simp_all add: db_wf_def)

section \<open>Every statement keeps the schema invariant\<close>

lemma db_wf_insert_user [wf_intros]:
  assumes "db_wf db" "insert_user u db = Inr db'"
  shows "db_wf db'"
proof -
  have "db' = db\<lparr>users := users db @ [u]\<rparr>" "users_wf (users db @ [u])"
    using assms(2) db_wfD(1) [OF assms(1)]
    by (auto simp: insert_user_def users_wf_def split: if_splits)
  then show ?thesis using assms(1) by (auto intro: db_wf_set_users)
qed

lemma db_wf_insert_home [wf_intros]:
  assumes "db_wf db" "insert_home h db = Inr db'"
  shows "db_wf db'"
proof -
  have "db' = db\<lparr>homes := homes db @ [h]\<rparr>" "homes_wf (homes db @ [h])"
    using assms(2) db_wfD(2) [OF assms(1)]
    by (auto simp: insert_home_def homes_wf_def split: if_splits)
  then show ?thesis using assms(1) by (auto intro: db_wf_set_homes)
qed

lemma db_wf_insert_community [wf_intros]:
  assumes "db_wf db" "insert_community c db = Inr db'"
  shows "db_wf db'"
proof -
  have "db' = db\<lparr>communities := communities db @ [c]\<rparr>" "communities_wf (communities db @ [c])"
    using assms(2) db_wfD(3) [OF assms(1)]
    by (auto simp: insert_community_def communities_wf_def split: if_splits)
  then show ?thesis using assms(1) by (auto intro: db_wf_set_communities)
qed

lemma db_wf_insert_home_community [wf_intros]:
  assumes "db_wf db" "insert_home_community hid cid db = Inr db'"
  shows "db_wf db'"
proof -
  have "db' = db\<lparr>home_community := home_community db @ [(hid, cid)]\<rparr>"
    "home_community_wf (home_community db @ [(hid, cid)]) (home_keys db) (community_keys db)"
    using assms(2) db_wfD(5) [OF assms(1)]
    by (auto simp: insert_home_community_def home_community_wf_def split: if_splits)
  then show ?thesis using assms(1) by (simp add: db_wf_set_home_community)
qed

lemma db_wf_insert_device [wf_intros]:
  assumes "db_wf db" "insert_device d db = Inr db'"
  shows "db_wf db'"
proof -
  have db': "db' = db\<lparr>devices := devices db @ [d]\<rparr>"
    and ok: "device_ok d" "d_device_id d \<notin> device_keys db" "mac_free d db" "home_exists d db"
    using assms(2) by (auto simp: insert_device_def split: if_splits)
  have "m \<notin> set (non_null d_mac (devices db))" if "d_mac d = Some m" for m
    using ok(2,3) that by (auto simp: mac_free_def set_non_null image_iff)
  then have "devices_wf (devices db @ [d]) (home_keys db)"
    using db_wfD(4) [OF assms(1)] ok(1,2,4)
    by (auto simp: devices_wf_def home_exists_def split: option.splits)
  then show ?thesis
    using assms(1) db' by (auto intro: db_wf_set_devices)
qed

lemma db_wf_insert_job [wf_intros]:
  assumes "db_wf db" "insert_job j db = Inr db'"
  shows "db_wf db'"
proof -
  have "db' = db\<lparr>provision_jobs := provision_jobs db @ [j]\<rparr>" "jobs_wf (provision_jobs db @ [j])"
    using assms(2) db_wfD(10) [OF assms(1)]
    by (auto simp: insert_job_def jobs_wf_def split: if_splits)
  then show ?thesis using assms(1) by (simp add: db_wf_set_jobs)
qed

lemma db_wf_insert_broadcast [wf_intros]:
  assumes "db_wf db" "insert_broadcast b db = (res, db')"
  shows "db_wf db'"
proof -
  let ?db = "db\<lparr>sequences := (sequences db)\<lparr>seq_broadcasts := seq_broadcasts (sequences db) + 1\<rparr>\<rparr>"
  let ?row = "b\<lparr>b_id := seq_broadcasts (sequences db)\<rparr>"
  let ?ok = "broadcast_ok ?row \<and> b_community_id b \<in> community_keys db"
  have wf: "db_wf ?db" using assms(1) by (rule db_wf_sequences) (simp add: seqs_le_def)
  show ?thesis
  proof (cases ?ok)
    case True
    then have "snd (insert_broadcast b db) = ?db\<lparr>broadcasts := broadcasts db @ [?row]\<rparr>"
      by (simp add: insert_broadcast_def Let_def split: option.splits)
    moreover have "broadcasts_wf (broadcasts db @ [?row]) (community_keys db) (seq_broadcasts (sequences db) + 1)"
      using True db_wfD(6) [OF assms(1)] by (simp add: broadcasts_wf_def split: option.splits)
    then have "db_wf (?db\<lparr>broadcasts := broadcasts db @ [?row]\<rparr>)"
      by (intro db_wf_set_broadcasts [OF wf]) auto
    ultimately show ?thesis using assms(2) by simp
  next
    case False
    then have "snd (insert_broadcast b db) = ?db"
      unfolding insert_broadcast_def Let_def by (simp split: option.splits)
    with wf show ?thesis using assms(2) by simp
  qed
qed

lemma db_wf_insert_ack [wf_intros]:
  assumes "db_wf db" "insert_ack a db = (res, db')"
  shows "db_wf db'"
proof -
  let ?db = "db\<lparr>sequences := (sequences db)\<lparr>seq_acks := seq_acks (sequences db) + 1\<rparr>\<rparr>"
  let ?row = "a\<lparr>a_id := seq_acks (sequences db)\<rparr>"
  let ?ok = "ack_ok ?row \<and> a_broadcast_id a \<in> broadcast_keys db \<and> a_home_id a \<in> home_keys db"
  have wf: "db_wf ?db" using assms(1) by (rule db_wf_sequences) (simp add: seqs_le_def)
  show ?thesis
  proof (cases ?ok)
    case True
    then have "snd (insert_ack a db) = ?db\<lparr>broadcast_acks := broadcast_acks db @ [?row]\<rparr>"
      by (simp add: insert_ack_def Let_def split: option.splits)
    moreover have "acks_wf (broadcast_acks db @ [?row]) (broadcast_keys db) (home_keys db) (seq_acks (sequences db) + 1)"
      using True db_wfD(7) [OF assms(1)] by (simp add: acks_wf_def split: option.splits)
    then have "db_wf (?db\<lparr>broadcast_acks := broadcast_acks db @ [?row]\<rparr>)"
      by (intro db_wf_set_acks [OF wf]) auto
    ultimately show ?thesis using assms(2) by simp
  next
    case False
    then have "snd (insert_ack a db) = ?db"
      unfolding insert_ack_def Let_def by (simp split: option.splits)
    with wf show ?thesis using assms(2) by simp
  qed
qed

lemma db_wf_insert_firmware [wf_intros]:
  assumes "db_wf db" "insert_firmware f db = (res, db')"
  shows "db_wf db'"
proof -
  let ?db = "db\<lparr>sequences := (sequences db)\<lparr>seq_firmware := seq_firmware (sequences db) + 1\<rparr>\<rparr>"
  let ?row = "f\<lparr>f_id := seq_firmware (sequences db)\<rparr>"
  let ?ok = "firmware_ok ?row \<and> f_version f \<notin> version_keys db"
  have wf: "db_wf ?db" using assms(1) by (rule db_wf_sequences) (simp add: seqs_le_def)
  show ?thesis
  proof (cases ?ok)
    case True
    then have "snd (insert_firmware f db) = ?db\<lparr>firmware_versions := firmware_versions db @ [?row]\<rparr>"
      by (simp add: insert_firmware_def Let_def split: option.splits)
    moreover have "firmware_wf (firmware_versions db @ [?row])  (seq_firmware (sequences db) + 1)"
      using True db_wfD(8) [OF assms(1)] by (simp add: firmware_wf_def split: option.splits)
    then have "db_wf (?db\<lparr>firmware_versions := firmware_versions db @ [?row]\<rparr>)"
      by (intro db_wf_set_firmware [OF wf]) auto
    ultimately show ?thesis using assms(2) by simp
  next
    case False
    then have "snd (insert_firmware f db) = ?db"
      unfolding insert_firmware_def Let_def by (simp split: option.splits)
    with wf show ?thesis using assms(2) by simp
  qed
qed

lemma db_wf_insert_event [wf_intros]:
  assumes "db_wf db" "insert_event e db = (res, db')"
  shows "db_wf db'"
proof -
  let ?db = "db\<lparr>sequences := (sequences db)\<lparr>seq_events := seq_events (sequences db) + 1\<rparr>\<rparr>"
  let ?row = "e\<lparr>e_id := seq_events (sequences db)\<rparr>"
  let ?ok = "event_ok ?row \<and> e_device_id e \<in> device_keys db"
  have wf: "db_wf ?db" using assms(1) by (rule db_wf_sequences) (simp add: seqs_le_def)
  show ?thesis
  proof (cases ?ok)
    case True
    then have "snd (insert_event e db) = ?db\<lparr>ota_events := ota_events db @ [?row]\<rparr>"
      by (simp add: insert_event_def Let_def split: option.splits)
    moreover have "events_wf (ota_events db @ [?row]) (device_keys db) (seq_events (sequences db) + 1)"
      using True db_wfD(9) [OF assms(1)] by (simp add: events_wf_def split: option.splits)
    then have "db_wf (?db\<lparr>ota_events := ota_events db @ [?row]\<rparr>)"
      by (intro db_wf_set_events [OF wf]) auto
    ultimately show ?thesis using assms(2) by simp
  next
    case False
    then have "snd (insert_event e db) = ?db"
      unfolding insert_event_def Let_def by (simp split: option.splits)
    with wf show ?thesis using assms(2) by simp
  qed
qed

lemma db_wf_insert_group [wf_intros]:
  assumes "db_wf db" "insert_group g db = (res, db')"
  shows "db_wf db'"
proof -
  let ?db = "db\<lparr>sequences := (sequences db)\<lparr>seq_groups := seq_groups (sequences db) + 1\<rparr>\<rparr>"
  let ?row = "g\<lparr>g_id := seq_groups (sequences db)\<rparr>"
  let ?ok = "group_ok ?row \<and> g_name g \<notin> g_name ` set (device_groups db) \<and>
    \<not> (case g_created_by g of None \<Rightarrow> False | Some u \<Rightarrow> u \<notin> user_keys db)"
  have wf: "db_wf ?db" using assms(1) by (rule db_wf_sequences) (simp add: seqs_le_def)
  show ?thesis
  proof (cases ?ok)
    case True
    then have "snd (insert_group g db) = ?db\<lparr>device_groups := device_groups db @ [?row]\<rparr>"
      by (simp add: insert_group_def Let_def split: option.splits)
    moreover have "groups_wf (device_groups db @ [?row]) (user_keys db) (seq_groups (sequences db) + 1)"
      using True db_wfD(11) [OF assms(1)] by (simp add: groups_wf_def split: option.splits)
    then have "db_wf (?db\<lparr>device_groups := device_groups db @ [?row]\<rparr>)"
      by (intro db_wf_set_groups [OF wf]) auto
    ultimately show ?thesis using assms(2) by simp
  next
    case False
    then have "snd (insert_group g db) = ?db"
      unfolding insert_group_def Let_def by (simp split: option.splits)
    with wf show ?thesis using assms(2) by simp
  qed
qed

lemma db_wf_insert_rollout [wf_intros]:
  assumes "db_wf db" "insert_rollout r db = (res, db')"
  shows "db_wf db'"
proof -
  let ?db = "db\<lparr>sequences := (sequences db)\<lparr>seq_rollouts := seq_rollouts (sequences db) + 1\<rparr>\<rparr>"
  let ?row = "r\<lparr>r_id := seq_rollouts (sequences db)\<rparr>"
  let ?ok = "rollout_ok ?row \<and> r_target_version r \<in> version_keys db \<and>
    \<not> (case r_created_by r of None \<Rightarrow> False | Some u \<Rightarrow> u \<notin> user_keys db)"
  have wf: "db_wf ?db" using assms(1) by (rule db_wf_sequences) (simp add: seqs_le_def)
  show ?thesis
  proof (cases ?ok)
    case True
    then have "snd (insert_rollout r db) = ?db\<lparr>scheduled_rollouts := scheduled_rollouts db @ [?row]\<rparr>"
      by (simp add: insert_rollout_def Let_def split: option.splits)
    moreover have "rollouts_wf (scheduled_rollouts db @ [?row]) (version_keys db) (user_keys db) (seq_rollouts (sequences db) + 1)"
      using True db_wfD(13) [OF assms(1)] by (simp add: rollouts_wf_def split: option.splits)
    then have "db_wf (?db\<lparr>scheduled_rollouts := scheduled_rollouts db @ [?row]\<rparr>)"
      by (intro db_wf_set_rollouts [OF wf]) auto
    ultimately show ?thesis using assms(2) by simp
  next
    case False
    then have "snd (insert_rollout r db) = ?db"
      unfolding insert_rollout_def Let_def by (simp split: option.splits)
    with wf show ?thesis using assms(2) by simp
  qed
qed

lemma db_wf_insert_audit [wf_intros]:
  assumes "db_wf db" "insert_audit l db = (res, db')"
  shows "db_wf db'"
proof -
  let ?db = "db\<lparr>sequences := (sequences db)\<lparr>seq_audit := seq_audit (sequences db) + 1\<rparr>\<rparr>"
  let ?row = "l\<lparr>l_id := seq_audit (sequences db)\<rparr>"
  let ?ok = "audit_ok ?row"
  have wf: "db_wf ?db" using assms(1) by (rule db_wf_sequences) (simp add: seqs_le_def)
  show ?thesis
  proof (cases ?ok)
    case True
    then have "snd (insert_audit l db) = ?db\<lparr>audit_log := audit_log db @ [?row]\<rparr>"
      by (simp add: insert_audit_def Let_def split: option.splits)
    moreover have "audit_wf (audit_log db @ [?row])  (seq_audit (sequences db) + 1)"
      using True db_wfD(14) [OF assms(1)] by (simp add: audit_wf_def split: option.splits)
    then have "db_wf (?db\<lparr>audit_log := audit_log db @ [?row]\<rparr>)"
      by (intro db_wf_set_audit [OF wf]) auto
    ultimately show ?thesis using assms(2) by simp
  next
    case False
    then have "snd (insert_audit l db) = ?db"
      unfolding insert_audit_def Let_def by (simp split: option.splits)
    with wf show ?thesis using assms(2) by simp
  qed
qed

lemma distinct_map_replace_row:
  assumes "distinct (map key rows)" "distinct (map col rows)"
    and "\<And>r. r \<in> set rows \<Longrightarrow> key r \<noteq> key new \<Longrightarrow> col r \<noteq> col new"
  shows "distinct (map col (replace_row key new rows))"
proof -
  have col: "map col xs = non_null (\<lambda>r. Some (col r)) xs" for xs
    by (induction xs) auto
  show ?thesis
    unfolding col using assms by (intro distinct_non_null_replace_row) (auto simp flip: col)
qed

lemma db_wf_flush_user [wf_intros]:
  assumes "db_wf db" "flush_user u db = Inr db'"
  shows "db_wf db'"
proof -
  have "db' = db\<lparr>users := replace_row u_id u (users db)\<rparr>" "users_wf (replace_row u_id u (users db))"
    using assms(2) db_wfD(1) [OF assms(1)]
    by (auto simp: flush_user_def users_wf_def split: if_splits
        intro!: list_all_replace_row distinct_map_replace_row [of u_id])
  then show ?thesis using assms(1) by (simp add: db_wf_set_users)
qed

lemma db_wf_flush_home [wf_intros]:
  assumes "db_wf db" "flush_home h db = Inr db'"
  shows "db_wf db'"
proof -
  have "db' = db\<lparr>homes := replace_row h_home_id h (homes db)\<rparr>" "homes_wf (replace_row h_home_id h (homes db))"
    using assms(2) db_wfD(2) [OF assms(1)]
    by (auto simp: flush_home_def homes_wf_def split: if_splits intro!: list_all_replace_row)
  then show ?thesis using assms(1) by (simp add: db_wf_set_homes)
qed

lemma db_wf_flush_community [wf_intros]:
  assumes "db_wf db" "flush_community c db = Inr db'"
  shows "db_wf db'"
proof -
  have "db' = db\<lparr>communities := replace_row c_community_id c (communities db)\<rparr>"
    "communities_wf (replace_row c_community_id c (communities db))"
    using assms(2) db_wfD(3) [OF assms(1)]
    by (auto simp: flush_community_def communities_wf_def split: if_splits intro!: list_all_replace_row)
  then show ?thesis using assms(1) by (simp add: db_wf_set_communities)
qed

lemma db_wf_flush_device [wf_intros]:
  assumes "db_wf db" "flush_device d db = Inr db'"
  shows "db_wf db'"
proof -
  have db': "db' = db\<lparr>devices := replace_row d_device_id d (devices db)\<rparr>"
    and ok: "device_ok d" "mac_free d db" "home_exists d db"
    using assms(2) by (auto simp: flush_device_def split: if_splits)
  have "distinct (non_null d_mac (replace_row d_device_id d (devices db)))"
    using db_wfD(4) [OF assms(1)] ok(2)
    by (intro distinct_non_null_replace_row) (auto simp: devices_wf_def mac_free_def)
  then have "devices_wf (replace_row d_device_id d (devices db)) (home_keys db)"
    using db_wfD(4) [OF assms(1)] ok(1,3)
    by (auto simp: devices_wf_def home_exists_def split: option.splits
        intro!: list_all_replace_row fk_opt_replace_row)
  then show ?thesis using assms(1) db' by (simp add: db_wf_set_devices)
qed

lemma db_wf_flush_event [wf_intros]:
  assumes "db_wf db" "flush_event e db = Inr db'"
  shows "db_wf db'"
proof -
  have "db' = db\<lparr>ota_events := replace_row e_id e (ota_events db)\<rparr>"
    "events_wf (replace_row e_id e (ota_events db)) (device_keys db) (seq_events (sequences db))"
    using assms(2) db_wfD(9) [OF assms(1)]
    by (auto simp: flush_event_def events_wf_def split: if_splits
        intro!: list_all_replace_row serial_wf_replace_row fk_replace_row)
  then show ?thesis using assms(1) by (simp add: db_wf_set_events)
qed

lemma db_wf_flush_job [wf_intros]:
  assumes "db_wf db" "flush_job j db = Inr db'"
  shows "db_wf db'"
proof -
  have "db' = db\<lparr>provision_jobs := replace_row j_id j (provision_jobs db)\<rparr>"
    "jobs_wf (replace_row j_id j (provision_jobs db))"
    using assms(2) db_wfD(10) [OF assms(1)]
    by (auto simp: flush_job_def jobs_wf_def split: if_splits intro!: list_all_replace_row)
  then show ?thesis using assms(1) by (simp add: db_wf_set_jobs)
qed

lemma db_wf_flush_group [wf_intros]:
  assumes "db_wf db" "flush_group g db = Inr db'"
  shows "db_wf db'"
proof -
  have "db' = db\<lparr>device_groups := replace_row g_id g (device_groups db)\<rparr>"
    "groups_wf (replace_row g_id g (device_groups db)) (user_keys db) (seq_groups (sequences db))"
    using assms(2) db_wfD(11) [OF assms(1)]
    by (auto simp: flush_group_def groups_wf_def split: if_splits option.splits
        intro!: list_all_replace_row serial_wf_replace_row fk_opt_replace_row distinct_map_replace_row [of g_id]
        dest: serial_wf_def [THEN iffD1, THEN conjunct1])
  then show ?thesis using assms(1) by (simp add: db_wf_set_groups)
qed

lemma db_wf_flush_rollout [wf_intros]:
  assumes "db_wf db" "flush_rollout r db = Inr db'"
  shows "db_wf db'"
proof -
  have "db' = db\<lparr>scheduled_rollouts := replace_row r_id r (scheduled_rollouts db)\<rparr>"
    "rollouts_wf (replace_row r_id r (scheduled_rollouts db)) (version_keys db) (user_keys db)
       (seq_rollouts (sequences db))"
    using assms(2) db_wfD(13) [OF assms(1)]
    by (auto simp: flush_rollout_def rollouts_wf_def split: if_splits option.splits
        intro!: list_all_replace_row serial_wf_replace_row fk_replace_row fk_opt_replace_row)
  then show ?thesis using assms(1) by (simp add: db_wf_set_rollouts)
qed

text \<open>The set-oriented UPDATE of columns that carry no key and no reference.\<close>

lemma db_wf_update_devices [wf_intros]:
  assumes "db_wf db"
    and "\<And>d. d_device_id (f d) = d_device_id d" "\<And>d. d_mac (f d) = d_mac d"
      "\<And>d. d_home_id (f d) = d_home_id d"
    and "\<And>d. d \<in> set (devices db) \<Longrightarrow> P d \<Longrightarrow> device_ok d \<Longrightarrow> device_ok (f d)"
  shows "db_wf (db\<lparr>devices := update_where P f (devices db)\<rparr>)"
proof -
  have "devices_wf (update_where P f (devices db)) (home_keys db)"
    using db_wfD(4) [OF assms(1)] assms(2-5)
    by (auto simp: devices_wf_def fk_opt_update_where intro: list_all_update_where)
  then show ?thesis
    using assms(1,2) by (simp add: db_wf_set_devices keys_update_where)
qed

lemma db_wf_update_events [wf_intros]:
  assumes "db_wf db"
    and "\<And>e. e_id (f e) = e_id e" "\<And>e. e_device_id (f e) = e_device_id e"
    and "\<And>e. e \<in> set (ota_events db) \<Longrightarrow> P e \<Longrightarrow> event_ok e \<Longrightarrow> event_ok (f e)"
  shows "db_wf (db\<lparr>ota_events := update_where P f (ota_events db)\<rparr>)"
proof -
  have "events_wf (update_where P f (ota_events db)) (device_keys db) (seq_events (sequences db))"
    using db_wfD(9) [OF assms(1)] assms(2-4)
    by (auto simp: events_wf_def serial_wf_update_where fk_update_where intro: list_all_update_where)
  then show ?thesis using assms(1) by (simp add: db_wf_set_events)
qed

lemma db_wf_rollback [wf_intros]:
  "db_wf old \<Longrightarrow> seqs_le (sequences old) (sequences new) \<Longrightarrow> db_wf (rollback old new)"
  by (simp add: rollback_def db_wf_sequences)

lemma db_wf_empty [simp]: "db_wf empty_db"
  by (simp add: empty_db_def db_wf_def table_wf_defs serial_wf_def fk_def fk_opt_def)

end
