(* ===== verification/Audit_Log.thy ===== *)
theory Audit_Log
  imports Db_Statements
begin

text \<open>
  \<^verbatim>\<open>services/audit.py\<close>: \<open>audit_service_log\<close> is \<^verbatim>\<open>AuditService.log\<close>, which writes one row of
  \<^verbatim>\<open>audit_log\<close> and commits; and \<^verbatim>\<open>middleware/error_handler.py\<close>: \<open>http_status\<close> is the status code a
  request that raised ends with. The lemmas show that an audit call appends one entry at most and
  touches no other table, which every handler that ends in one relies on.
\<close>

section \<open>The audit service\<close>

text \<open>\<open>k\<close> numbers the transaction of the enclosing call in which the entry is written.\<close>

definition audit_service_log ::
  "ext \<Rightarrow> nat \<Rightarrow> string option \<Rightarrow> string \<Rightarrow> string \<Rightarrow> json option \<Rightarrow> db \<Rightarrow> audit_entry db_res" where
  "audit_service_log E k user_id action resource details db =
     insert_audit
       \<lparr> l_id = 0, l_user_id = user_id, l_action = action, l_resource = resource,
         l_details = details, l_created_at = pg_now E k \<rparr> db"

text \<open>The tail of a handler that awaits \<open>audit.log\<close> and then returns \<open>x\<close>.\<close>

definition returning :: "'a \<Rightarrow> 'b db_res \<Rightarrow> 'a db_res" where
  "returning x r = (case fst r of Inl e \<Rightarrow> Inl e | Inr _ \<Rightarrow> Inr x, snd r)"

section \<open>Status codes\<close>

fun http_status :: "exn \<Rightarrow> nat" where
  "http_status (HTTPException code detail) = code"
| "http_status RequestInvalid = 422"
| "http_status IntegrityError = 409"
| "http_status OperationalError = 503"
| "http_status _ = 500"

text \<open>The status of a request, \<open>ok\<close> being the code the route declares for success.\<close>

definition response_status :: "nat \<Rightarrow> 'a res \<Rightarrow> nat" where
  "response_status ok r = (case r of Inl e \<Rightarrow> http_status e | Inr _ \<Rightarrow> ok)"

section \<open>What an audit call changes\<close>

lemma snd_returning [simp]: "snd (returning x r) = snd r"
  by (simp add: returning_def)

lemma fst_returning: "fst r = Inr y \<Longrightarrow> fst (returning x r) = Inr x"
  by (simp add: returning_def)

lemma fst_returning_Inr_iff: "fst (returning x r) = Inr z \<longleftrightarrow> z = x \<and> (\<exists>y. fst r = Inr y)"
  by (auto simp: returning_def split: sum.splits)

lemma insert_audit_frame [simp, db_frame]:
  "users (snd (insert_audit l db)) = users db"
  "homes (snd (insert_audit l db)) = homes db"
  "communities (snd (insert_audit l db)) = communities db"
  "home_community (snd (insert_audit l db)) = home_community db"
  "devices (snd (insert_audit l db)) = devices db"
  "broadcasts (snd (insert_audit l db)) = broadcasts db"
  "broadcast_acks (snd (insert_audit l db)) = broadcast_acks db"
  "firmware_versions (snd (insert_audit l db)) = firmware_versions db"
  "ota_events (snd (insert_audit l db)) = ota_events db"
  "provision_jobs (snd (insert_audit l db)) = provision_jobs db"
  "device_groups (snd (insert_audit l db)) = device_groups db"
  "device_group_members (snd (insert_audit l db)) = device_group_members db"
  "scheduled_rollouts (snd (insert_audit l db)) = scheduled_rollouts db"
  by (simp_all add: insert_audit_def Let_def)

lemma audit_service_log_frame [simp, db_frame]:
  "users (snd (audit_service_log E k u a r d db)) = users db"
  "homes (snd (audit_service_log E k u a r d db)) = homes db"
  "communities (snd (audit_service_log E k u a r d db)) = communities db"
  "home_community (snd (audit_service_log E k u a r d db)) = home_community db"
  "devices (snd (audit_service_log E k u a r d db)) = devices db"
  "broadcasts (snd (audit_service_log E k u a r d db)) = broadcasts db"
  "broadcast_acks (snd (audit_service_log E k u a r d db)) = broadcast_acks db"
  "firmware_versions (snd (audit_service_log E k u a r d db)) = firmware_versions db"
  "ota_events (snd (audit_service_log E k u a r d db)) = ota_events db"
  "provision_jobs (snd (audit_service_log E k u a r d db)) = provision_jobs db"
  "device_groups (snd (audit_service_log E k u a r d db)) = device_groups db"
  "device_group_members (snd (audit_service_log E k u a r d db)) = device_group_members db"
  "scheduled_rollouts (snd (audit_service_log E k u a r d db)) = scheduled_rollouts db"
  by (simp_all add: audit_service_log_def)

lemma db_wf_audit_service_log [wf_intros, simp]:
  "db_wf db \<Longrightarrow> db_wf (snd (audit_service_log E k u a r d db))"
  unfolding audit_service_log_def by (metis db_wf_insert_audit prod.collapse)

text \<open>An entry whose actor, action and resource fit their columns is always written.\<close>

definition new_audit_entry ::
  "ext \<Rightarrow> nat \<Rightarrow> string option \<Rightarrow> string \<Rightarrow> string \<Rightarrow> json option \<Rightarrow> db \<Rightarrow> audit_entry" where
  "new_audit_entry E k u a r d db =
     \<lparr> l_id = seq_audit (sequences db), l_user_id = u, l_action = a, l_resource = r, l_details = d,
       l_created_at = pg_now E k \<rparr>"

lemma audit_service_log_returns:
  assumes "fits_opt 64 u" "fits 32 a" "fits 32 r"
  shows "fst (audit_service_log E k u a r d db) = Inr (new_audit_entry E k u a r d db)"
    and "audit_log (snd (audit_service_log E k u a r d db)) = audit_log db @ [new_audit_entry E k u a r d db]"
  using assms by (simp_all add: audit_service_log_def insert_audit_def Let_def audit_ok_def new_audit_entry_def)

lemma audit_service_log_appends:
  "\<exists>ls. audit_log (snd (audit_service_log E k u a r d db)) = audit_log db @ ls"
  by (simp add: audit_service_log_def insert_audit_def Let_def)

lemma audit_service_log_seqs [simp]:
  "seqs_le (sequences db) (sequences (snd (audit_service_log E k u a r d db)))"
  by (simp add: audit_service_log_def insert_audit_def Let_def seqs_le_def)

section \<open>Refusals\<close>

text \<open>A call that answers with an HTTP error of its own leaves the database \<open>db\<close> as it found it.\<close>

definition refuses_cleanly :: "db \<Rightarrow> 'a db_res \<Rightarrow> bool" where
  "refuses_cleanly db r \<longleftrightarrow> (case fst r of Inl (HTTPException c m) \<Rightarrow> snd r = db | _ \<Rightarrow> True)"

lemma refuses_cleanlyD: "refuses_cleanly db r \<Longrightarrow> fst r = Inl (HTTPException c m) \<Longrightarrow> snd r = db"
  by (simp add: refuses_cleanly_def)

lemma refuses_cleanly_simps [simp]:
  "refuses_cleanly db (x, db)"
  "refuses_cleanly db (Inr y, db')"
  "refuses_cleanly db (returning z (audit_service_log E k u a r d db''))"
  by (auto simp: refuses_cleanly_def returning_def audit_service_log_def insert_audit_def Let_def
      split: sum.splits exn.splits)

end
