(* ===== verification/Sample_Fleet.thy ===== *)
theory Sample_Fleet
  imports Db_Statements
begin

text \<open>
  A small concrete database that satisfies the schema: two accounts, a community of one home, three
  devices, two firmware versions, an active OTA event, a device group and a pending rollout. The
  witnesses of the development evaluate the operations on it.
\<close>

definition sample_user :: "string \<Rightarrow> string \<Rightarrow> user" where
  "sample_user uid role =
     \<lparr> u_id = uid, u_email = uid @ ''@x.org'', u_hashed_password = ''hpassword1'', u_role = role,
       u_is_active = True, u_created_at = seconds 10 \<rparr>"

definition sample_device :: "string \<Rightarrow> string \<Rightarrow> string option \<Rightarrow> string \<Rightarrow> int \<Rightarrow> device" where
  "sample_device did mac home status seen =
     \<lparr> d_device_id = did, d_mac = Some mac, d_display_name = None, d_custom_id = None,
       d_firmware_version = Some ''1.0'', d_target_firmware_version = None,
       d_device_type = ''esp32_voice'', d_provision_token = None, d_role = ''follower'',
       d_status = status, d_last_seen = Some (seconds seen), d_home_id = home,
       d_rssi = Some (- 50), d_heap = Some 120000, d_uptime = Some 3600,
       d_created_at = seconds 20, d_updated_at = seconds 20 \<rparr>"

definition sample_firmware :: "int \<Rightarrow> string \<Rightarrow> firmware_version" where
  "sample_firmware i v =
     \<lparr> f_id = i, f_version = v, f_binary_path = ''/fw/'' @ v, f_checksum = ''abc'',
       f_release_notes = None, f_created_at = seconds i \<rparr>"

definition sample_event :: "int \<Rightarrow> string \<Rightarrow> string \<Rightarrow> int \<Rightarrow> ota_event" where
  "sample_event i did status started =
     \<lparr> e_id = i, e_device_id = did, e_from_version = ''1.0'', e_to_version = ''1.1'',
       e_status = status, e_started_at = seconds started, e_completed_at = None \<rparr>"

definition sample_rollout :: "int \<Rightarrow> int \<Rightarrow> scheduled_rollout" where
  "sample_rollout i fire =
     \<lparr> r_id = i, r_target_version = ''1.1'', r_strategy = ''full'', r_target_devices = [''dev1'', ''dev2''],
       r_canary_count = None, r_fire_at = seconds fire, r_status = ''pending'', r_created_by = Some ''admin'',
       r_created_at = seconds 100, r_fired_at = None, r_error = None \<rparr>"

definition sample_db :: db where
  "sample_db =
     \<lparr> users = [sample_user ''admin'' ''admin'', sample_user ''ops'' ''admin''],
       homes = [\<lparr> h_home_id = ''h1'', h_patient_name = ''Ann'', h_address = None, h_created_at = seconds 10 \<rparr>],
       communities = [\<lparr> c_community_id = ''c1'', c_name = ''North'', c_description = None, c_created_at = seconds 10 \<rparr>],
       home_community = [(''h1'', ''c1'')],
       devices = [sample_device ''dev1'' ''aa'' (Some ''h1'') ''alive'' 990,
                  sample_device ''dev2'' ''bb'' None ''alive'' 900,
                  sample_device ''dev3'' ''cc'' None ''dead'' 100],
       broadcasts = [], broadcast_acks = [],
       firmware_versions = [sample_firmware 1 ''1.0'', sample_firmware 2 ''1.1''],
       ota_events = [sample_event 1 ''dev3'' ''flashing'' 950],
       provision_jobs = [],
       device_groups = [\<lparr> g_id = 1, g_name = ''lab'', g_description = None, g_created_by = Some ''admin'',
                           g_created_at = seconds 10, g_updated_at = seconds 10 \<rparr>],
       device_group_members = [(1, ''dev1'')],
       scheduled_rollouts = [sample_rollout 1 999],
       audit_log = [],
       sequences = \<lparr> seq_broadcasts = 1, seq_acks = 1, seq_firmware = 3, seq_events = 2,
                      seq_groups = 2, seq_rollouts = 2, seq_audit = 1 \<rparr> \<rparr>"

lemmas sample_rows = sample_user_def sample_device_def sample_firmware_def sample_event_def sample_rollout_def

lemma db_wf_sample [simp]: "db_wf sample_db"
  by (simp add: sample_db_def sample_rows db_wf_def table_wf_defs serial_wf_def fk_def fk_opt_def
      user_ok_def home_ok_def community_ok_def device_ok_def firmware_ok_def event_ok_def group_ok_def
      rollout_ok_def fits_def fits_opt_def int4_opt_def int4_def)

lemma sample_user_simps [simp]:
  "u_id (sample_user uid role) = uid"
  "u_email (sample_user uid role) = uid @ ''@x.org''"
  "u_hashed_password (sample_user uid role) = ''hpassword1''"
  "u_role (sample_user uid role) = role"
  "u_is_active (sample_user uid role)"
  "u_created_at (sample_user uid role) = seconds 10"
  by (simp_all add: sample_user_def)

lemma sample_device_simps [simp]:
  "d_device_id (sample_device did mac home status seen) = did"
  "d_mac (sample_device did mac home status seen) = Some mac"
  "d_display_name (sample_device did mac home status seen) = None"
  "d_custom_id (sample_device did mac home status seen) = None"
  "d_firmware_version (sample_device did mac home status seen) = Some ''1.0''"
  "d_target_firmware_version (sample_device did mac home status seen) = None"
  "d_device_type (sample_device did mac home status seen) = ''esp32_voice''"
  "d_provision_token (sample_device did mac home status seen) = None"
  "d_role (sample_device did mac home status seen) = ''follower''"
  "d_status (sample_device did mac home status seen) = status"
  "d_last_seen (sample_device did mac home status seen) = Some (seconds seen)"
  "d_home_id (sample_device did mac home status seen) = home"
  "d_rssi (sample_device did mac home status seen) = Some (- 50)"
  "d_heap (sample_device did mac home status seen) = Some 120000"
  "d_uptime (sample_device did mac home status seen) = Some 3600"
  "d_created_at (sample_device did mac home status seen) = seconds 20"
  "d_updated_at (sample_device did mac home status seen) = seconds 20"
  by (simp_all add: sample_device_def)

lemma sample_firmware_simps [simp]:
  "f_id (sample_firmware i v) = i"
  "f_version (sample_firmware i v) = v"
  "f_binary_path (sample_firmware i v) = ''/fw/'' @ v"
  "f_checksum (sample_firmware i v) = ''abc''"
  "f_release_notes (sample_firmware i v) = None"
  "f_created_at (sample_firmware i v) = seconds i"
  by (simp_all add: sample_firmware_def)

lemma sample_event_simps [simp]:
  "e_id (sample_event i did status started) = i"
  "e_device_id (sample_event i did status started) = did"
  "e_from_version (sample_event i did status started) = ''1.0''"
  "e_to_version (sample_event i did status started) = ''1.1''"
  "e_status (sample_event i did status started) = status"
  "e_started_at (sample_event i did status started) = seconds started"
  "e_completed_at (sample_event i did status started) = None"
  by (simp_all add: sample_event_def)

lemma sample_rollout_simps [simp]:
  "r_id (sample_rollout i fire) = i"
  "r_target_version (sample_rollout i fire) = ''1.1''"
  "r_strategy (sample_rollout i fire) = ''full''"
  "r_target_devices (sample_rollout i fire) = [''dev1'', ''dev2'']"
  "r_canary_count (sample_rollout i fire) = None"
  "r_fire_at (sample_rollout i fire) = seconds fire"
  "r_status (sample_rollout i fire) = ''pending''"
  "r_created_by (sample_rollout i fire) = Some ''admin''"
  "r_created_at (sample_rollout i fire) = seconds 100"
  "r_fired_at (sample_rollout i fire) = None"
  "r_error (sample_rollout i fire) = None"
  by (simp_all add: sample_rollout_def)

lemma sample_db_simps [simp]:
  "users sample_db = [sample_user ''admin'' ''admin'', sample_user ''ops'' ''admin'']"
  "homes sample_db = [\<lparr> h_home_id = ''h1'', h_patient_name = ''Ann'', h_address = None, h_created_at = seconds 10 \<rparr>]"
  "communities sample_db = [\<lparr> c_community_id = ''c1'', c_name = ''North'', c_description = None, c_created_at = seconds 10 \<rparr>]"
  "home_community sample_db = [(''h1'', ''c1'')]"
  "devices sample_db = [sample_device ''dev1'' ''aa'' (Some ''h1'') ''alive'' 990,
                  sample_device ''dev2'' ''bb'' None ''alive'' 900,
                  sample_device ''dev3'' ''cc'' None ''dead'' 100]"
  "broadcasts sample_db = []"
  "broadcast_acks sample_db = []"
  "firmware_versions sample_db = [sample_firmware 1 ''1.0'', sample_firmware 2 ''1.1'']"
  "ota_events sample_db = [sample_event 1 ''dev3'' ''flashing'' 950]"
  "provision_jobs sample_db = []"
  "device_groups sample_db = [\<lparr> g_id = 1, g_name = ''lab'', g_description = None, g_created_by = Some ''admin'',
                           g_created_at = seconds 10, g_updated_at = seconds 10 \<rparr>]"
  "device_group_members sample_db = [(1, ''dev1'')]"
  "scheduled_rollouts sample_db = [sample_rollout 1 999]"
  "audit_log sample_db = []"
  "sequences sample_db = \<lparr> seq_broadcasts = 1, seq_acks = 1, seq_firmware = 3, seq_events = 2,
                      seq_groups = 2, seq_rollouts = 2, seq_audit = 1 \<rparr>"
  by (simp_all add: sample_db_def)

end
