(* ===== verification/Auth.thy ===== *)
theory Auth
  imports Audit_Log Sample_Fleet
begin

text \<open>
  \<^verbatim>\<open>services/auth.py\<close> and \<^verbatim>\<open>api/auth.py\<close>: password hashing and JWT handling over the bcrypt and JWT
  parameters of the environment, the dependencies that guard the routes (\<open>get_current_user\<close>,
  \<open>require_auth\<close>, \<open>require_role\<close>) and the account endpoints. An endpoint takes the environment, the
  request's token, its payload and the database and returns its result or exception with the
  committed database. The lemmas show what a guard admits, that a token is accepted until it
  expires, and which account rows each endpoint can change.
\<close>

section \<open>Constants\<close>

definition COOKIE_NAME :: string where "COOKIE_NAME = ''mdm_session''"
definition COOKIE_MAX_AGE :: int where "COOKIE_MAX_AGE = 60 * 60 * 24"
definition ACCESS_TOKEN_EXPIRE_MINUTES :: int where "ACCESS_TOKEN_EXPIRE_MINUTES = 480"
definition MIN_PASSWORD_LENGTH :: nat where "MIN_PASSWORD_LENGTH = 8"
definition VALID_ROLES :: "string list" where "VALID_ROLES = [''admin'', ''operator'', ''viewer'']"
definition PROTECTED_USER_IDS :: "string list" where "PROTECTED_USER_IDS = [''admin'']"

text \<open>\<^verbatim>\<open>f"Invalid role. Must be one of: {sorted(VALID_ROLES)}"\<close>\<close>

definition invalid_role :: string where
  "invalid_role = ''Invalid role. Must be one of: ['' @
     join_with '', '' (map (\<lambda>r. CHR 0x27 # r @ [CHR 0x27]) VALID_ROLES) @ '']''"

section \<open>Passwords and tokens\<close>

definition hash_password :: "ext \<Rightarrow> string \<Rightarrow> string" where
  "hash_password E password = hashpw E password (gensalt E)"

definition verify_password :: "ext \<Rightarrow> string \<Rightarrow> string \<Rightarrow> bool" where
  "verify_password E plain hashed = checkpw E plain hashed"

definition create_access_token :: "ext \<Rightarrow> string \<Rightarrow> string \<Rightarrow> string" where
  "create_access_token E uid role =
     jwt_encode E uid role (clock E 0 + minutes ACCESS_TOKEN_EXPIRE_MINUTES)"

definition decode_token :: "ext \<Rightarrow> string \<Rightarrow> (string \<times> json) list option" where
  "decode_token E token = jwt_decode E (clock E 0) token"

definition ascii_letters :: string where
  "ascii_letters = ''abcdefghijklmnopqrstuvwxyzABCDEFGHIJKLMNOPQRSTUVWXYZ''"

definition password_alphabet :: string where
  "password_alphabet = ascii_letters @ ''0123456789'' @ ''-_''"

definition generate_password :: "ext \<Rightarrow> nat \<Rightarrow> string" where
  "generate_password E n = map (\<lambda>k. rand_choice E k password_alphabet) [0..<n]"

section \<open>Guards\<close>

text \<open>The bearer credentials win; the cookie is used when there are none.\<close>

definition extract_token :: "string option \<Rightarrow> string option \<Rightarrow> string option" where
  "extract_token bearer cookie =
     (case bearer of Some cred \<Rightarrow> if cred \<noteq> [] then Some cred else cookie | None \<Rightarrow> cookie)"

definition claim :: "(string \<times> json) list \<Rightarrow> string \<Rightarrow> json" where
  "claim claims name = (case map_of claims name of None \<Rightarrow> JNull | Some j \<Rightarrow> j)"

definition select_user :: "ext \<Rightarrow> json \<Rightarrow> db \<Rightarrow> user option res" where
  "select_user E uid db =
     (case bind_text E uid of
        None \<Rightarrow> Inl DBAPIError
      | Some v \<Rightarrow> Inr (find (\<lambda>u. Some (u_id u) = v) (users db)))"

text \<open>\<^verbatim>\<open>if not token\<close> holds for a missing and for an empty token.\<close>

definition no_token :: "string option \<Rightarrow> bool" where
  "no_token token = (case token of None \<Rightarrow> True | Some t \<Rightarrow> t = [])"

definition get_current_user :: "ext \<Rightarrow> string option \<Rightarrow> db \<Rightarrow> user option res" where
  "get_current_user E token db =
     (if no_token token then Inr None
      else case decode_token E (the token) of
        None \<Rightarrow> Inl (HTTPException 401 ''Invalid or expired token'')
      | Some claims \<Rightarrow>
          if claims = [] then Inl (HTTPException 401 ''Invalid or expired token'')
          else case select_user E (claim claims ''sub'') db of
            Inl e \<Rightarrow> Inl e
          | Inr None \<Rightarrow> Inl (HTTPException 401 ''User not found or inactive'')
          | Inr (Some u) \<Rightarrow>
              if \<not> u_is_active u then Inl (HTTPException 401 ''User not found or inactive'')
              else Inr (Some u))"

definition require_auth :: "ext \<Rightarrow> string option \<Rightarrow> db \<Rightarrow> user res" where
  "require_auth E token db =
     (case get_current_user E token db of
        Inl e \<Rightarrow> Inl e
      | Inr None \<Rightarrow> Inl (HTTPException 401 ''Authentication required'')
      | Inr (Some u) \<Rightarrow> Inr u)"

text \<open>
  The role is the one the token carries; the account itself is only checked to be active. The
  detail of the 403 quotes the claim, whatever value it has, and the tuple of the roles required.
\<close>

definition quoted :: "string \<Rightarrow> string" where "quoted s = CHR 0x27 # s @ [CHR 0x27]"

fun claim_text :: "ext \<Rightarrow> json \<Rightarrow> string" where
  "claim_text E JNull = ''None''"
| "claim_text E (JBool b) = (if b then ''True'' else ''False'')"
| "claim_text E (JInt i) = str_int i"
| "claim_text E (JStr s) = s"
| "claim_text E j = json_repr E j"

definition tuple_text :: "string list \<Rightarrow> string" where
  "tuple_text roles =
     ''('' @ join_with '', '' (map quoted roles) @ (if length roles = 1 then '','' else []) @ '')''"

definition not_authorized :: "ext \<Rightarrow> json \<Rightarrow> string list \<Rightarrow> string" where
  "not_authorized E role roles =
     ''Role '' @ quoted (claim_text E role) @ '' not authorized. Required: '' @ tuple_text roles"

definition require_role :: "ext \<Rightarrow> string list \<Rightarrow> string option \<Rightarrow> db \<Rightarrow> user res" where
  "require_role E roles token db =
     (if no_token token then Inl (HTTPException 401 ''Authentication required'')
      else case decode_token E (the token) of
        None \<Rightarrow> Inl (HTTPException 401 ''Invalid or expired token'')
      | Some claims \<Rightarrow>
          if claims = [] then Inl (HTTPException 401 ''Invalid or expired token'')
          else if claim claims ''role'' \<notin> set (map JStr roles)
          then Inl (HTTPException 403 (not_authorized E (claim claims ''role'') roles))
          else case select_user E (claim claims ''sub'') db of
            Inl e \<Rightarrow> Inl e
          | Inr None \<Rightarrow> Inl (HTTPException 401 ''User not found or inactive'')
          | Inr (Some u) \<Rightarrow>
              if \<not> u_is_active u then Inl (HTTPException 401 ''User not found or inactive'')
              else Inr u)"

text \<open>The guard \<^verbatim>\<open>api/router.py\<close> puts before every resource router.\<close>

definition any_auth :: "ext \<Rightarrow> string option \<Rightarrow> db \<Rightarrow> user res" where
  "any_auth E token db = require_role E [''admin'', ''operator'', ''viewer''] token db"

text \<open>
  The dependencies of a route, in order: the router's guard, the route's own role guard (\<open>None\<close> when
  it has none), and \<open>get_current_user\<close>, whose result is the actor the audit log names.
\<close>

definition route_user :: "ext \<Rightarrow> string list option \<Rightarrow> string option \<Rightarrow> db \<Rightarrow> user option res" where
  "route_user E roles token db =
     (case any_auth E token db of
        Inl e \<Rightarrow> Inl e
      | Inr _ \<Rightarrow>
          (case (case roles of None \<Rightarrow> Inr () | Some rs \<Rightarrow> (case require_role E rs token db of Inl e \<Rightarrow> Inl e | Inr _ \<Rightarrow> Inr ())) of
             Inl e \<Rightarrow> Inl e
           | Inr _ \<Rightarrow> get_current_user E token db))"

definition check_not_protected :: "string \<Rightarrow> string \<Rightarrow> unit res" where
  "check_not_protected target_id actor_id =
     (if target_id \<in> set PROTECTED_USER_IDS \<and> target_id \<noteq> actor_id
      then Inl (HTTPException 403 (''User '' @ [CHR 0x27] @ target_id @ [CHR 0x27] @
             '' is protected; only the account owner can modify it.''))
      else Inr ())"

definition count_active_admins :: "db \<Rightarrow> nat" where
  "count_active_admins db = length (filter (\<lambda>u. u_role u = ''admin'' \<and> u_is_active u) (users db))"

section \<open>Endpoints\<close>

text \<open>A cookie with the attributes the server sets.\<close>

record cookie =
  ck_key :: string
  ck_value :: string
  ck_max_age :: int
  ck_httponly :: bool
  ck_secure :: bool
  ck_samesite :: string
  ck_path :: string

definition set_session_cookie :: "string \<Rightarrow> cookie" where
  "set_session_cookie token =
     \<lparr> ck_key = COOKIE_NAME, ck_value = token, ck_max_age = COOKIE_MAX_AGE, ck_httponly = True,
       ck_secure = True, ck_samesite = ''lax'', ck_path = ''/'' \<rparr>"

text \<open>The answer to a login, and the cookie that goes with it.\<close>

record login_response =
  access_token :: string
  token_type :: string
  token_role :: string
  token_user_id :: string
  login_cookie :: cookie

definition login :: "ext \<Rightarrow> string \<Rightarrow> string \<Rightarrow> db \<Rightarrow> login_response db_res" where
  "login E email password db =
     (let identifier = strip email in
      case filter (\<lambda>u. u_email u = identifier \<or> u_id u = identifier) (users db) of
        [] \<Rightarrow> (Inl (HTTPException 401 ''Invalid email or password''), db)
      | [u] \<Rightarrow>
          if \<not> verify_password E password (u_hashed_password u)
          then (Inl (HTTPException 401 ''Invalid email or password''), db)
          else if \<not> u_is_active u then (Inl (HTTPException 403 ''Account is disabled''), db)
          else
            let token = create_access_token E (u_id u) (u_role u) in
            returning \<lparr> access_token = token, token_type = ''bearer'', token_role = u_role u,
                        token_user_id = u_id u, login_cookie = set_session_cookie token \<rparr>
              (audit_service_log E 0 (Some (u_id u)) ''login'' ''user''
                 (Some (JObj [(''email'', JStr (u_email u))])) db)
      | _ \<Rightarrow> (Inl MultipleResultsFound, db))"

record user_create =
  uc_id :: string
  uc_email :: string
  uc_password :: string
  uc_role :: string

definition create_user :: "ext \<Rightarrow> string option \<Rightarrow> user_create \<Rightarrow> db \<Rightarrow> user db_res" where
  "create_user E token payload db =
     (case require_role E [''admin''] token db of
        Inl e \<Rightarrow> (Inl e, db)
      | Inr admin \<Rightarrow>
          if uc_email payload \<in> u_email ` set (users db)
          then (Inl (HTTPException 409 ''Email already registered''), db)
          else
            let u = \<lparr> u_id = uc_id payload, u_email = uc_email payload,
                       u_hashed_password = hash_password E (uc_password payload),
                       u_role = uc_role payload, u_is_active = True, u_created_at = pg_now E 0 \<rparr>
            in case insert_user u db of
                 Inl e \<Rightarrow> (Inl e, db)
               | Inr db1 \<Rightarrow>
                   returning u
                     (audit_service_log E 1 (Some (u_id admin)) ''create'' ''user''
                        (Some (JObj [(''new_user'', JStr (u_id u)), (''role'', JStr (u_role u))])) db1))"

definition change_my_password :: "ext \<Rightarrow> string option \<Rightarrow> string \<Rightarrow> string \<Rightarrow> db \<Rightarrow> unit db_res" where
  "change_my_password E token current_password new_password db =
     (case require_auth E token db of
        Inl e \<Rightarrow> (Inl e, db)
      | Inr u \<Rightarrow>
          if \<not> verify_password E current_password (u_hashed_password u)
          then (Inl (HTTPException 401 ''Current password is incorrect''), db)
          else if length new_password < MIN_PASSWORD_LENGTH
          then (Inl (HTTPException 400 ''New password must be at least 8 characters''), db)
          else if new_password = current_password
          then (Inl (HTTPException 400 ''New password must differ from current password''), db)
          else case flush_user (u\<lparr>u_hashed_password := hash_password E new_password\<rparr>) db of
            Inl e \<Rightarrow> (Inl e, db)
          | Inr db1 \<Rightarrow>
              returning ()
                (audit_service_log E 1 (Some (u_id u)) ''change_password'' ''user''
                   (Some (JObj [(''self'', JBool True)])) db1))"

text \<open>
  Logging out answers with a cookie that is empty and expired (\<^verbatim>\<open>delete_cookie\<close>, with the defaults of
  the framework), a header that tells the browser to forget the origin, and a body; no state of the
  server changes.
\<close>

definition logout :: "cookie \<times> (string \<times> string) list \<times> json" where
  "logout =
     (\<lparr> ck_key = COOKIE_NAME, ck_value = [], ck_max_age = 0, ck_httponly = False, ck_secure = False,
        ck_samesite = ''lax'', ck_path = ''/'' \<rparr>,
      [(''Clear-Site-Data'',
        [CHR 0x22] @ ''cookies'' @ [CHR 0x22] @ '', '' @ [CHR 0x22] @ ''storage'' @ [CHR 0x22] @ '', '' @
        [CHR 0x22] @ ''cache'' @ [CHR 0x22])],
      JObj [(''ok'', JBool True)])"

definition list_users :: "ext \<Rightarrow> string option \<Rightarrow> db \<Rightarrow> user list res" where
  "list_users E token db =
     (case require_role E [''admin''] token db of
        Inl e \<Rightarrow> Inl e
      | Inr _ \<Rightarrow> Inr (sort_key (\<lambda>u. - u_created_at u) (scan E (users db))))"

definition get_me :: "ext \<Rightarrow> string option \<Rightarrow> db \<Rightarrow> user res" where
  "get_me E token db = require_role E [''admin'', ''operator'', ''viewer''] token db"

text \<open>The nginx auth_request target: response headers and body.\<close>

definition verify :: "ext \<Rightarrow> string option \<Rightarrow> db \<Rightarrow> ((string \<times> string) list \<times> json) res" where
  "verify E token db =
     (case require_auth E token db of
        Inl e \<Rightarrow> Inl e
      | Inr u \<Rightarrow> Inr ([(''X-Auth-User'', u_email u), (''X-Auth-Role'', u_role u), (''X-Auth-Id'', u_id u)],
                       JObj [(''user'', JStr (u_id u)), (''role'', JStr (u_role u))]))"

record user_update =
  up_role :: "string option"
  up_is_active :: "bool option"

definition update_user_changes :: "user_update \<Rightarrow> user \<Rightarrow> (string \<times> json) list" where
  "update_user_changes payload target =
     (case up_role payload of
        Some r \<Rightarrow> if r \<noteq> u_role target
                  then [(''role'', JObj [(''from'', JStr (u_role target)), (''to'', JStr r)])] else []
      | None \<Rightarrow> []) @
     (case up_is_active payload of
        Some b \<Rightarrow> if b \<noteq> u_is_active target
                  then [(''is_active'', JObj [(''from'', JBool (u_is_active target)), (''to'', JBool b)])] else []
      | None \<Rightarrow> [])"

definition update_user ::
  "ext \<Rightarrow> string option \<Rightarrow> string \<Rightarrow> user_update \<Rightarrow> db \<Rightarrow> user db_res" where
  "update_user E token user_id payload db =
     (case require_role E [''admin''] token db of
        Inl e \<Rightarrow> (Inl e, db)
      | Inr admin \<Rightarrow>
          if up_role payload = None \<and> up_is_active payload = None
          then (Inl (HTTPException 400 ''Nothing to update''), db)
          else if (case up_role payload of None \<Rightarrow> False | Some r \<Rightarrow> r \<notin> set VALID_ROLES)
          then (Inl (HTTPException 400 invalid_role), db)
          else case lookup_key u_id user_id (users db) of
            None \<Rightarrow> (Inl (HTTPException 404 ''User not found''), db)
          | Some target \<Rightarrow>
              (case check_not_protected (u_id target) (u_id admin) of
                 Inl e \<Rightarrow> (Inl e, db)
               | Inr _ \<Rightarrow>
                   if u_id target = u_id admin
                   then (Inl (HTTPException 400 ''You cannot change your own role or active status''), db)
                   else
                     let new_role = (case up_role payload of Some r \<Rightarrow> r | None \<Rightarrow> u_role target);
                         new_active = (case up_is_active payload of Some b \<Rightarrow> b | None \<Rightarrow> u_is_active target);
                         would_lose_last_admin = (u_role target = ''admin'' \<and> u_is_active target \<and>
                                                  (new_role \<noteq> ''admin'' \<or> \<not> new_active))
                     in if would_lose_last_admin \<and> count_active_admins db \<le> 1
                        then (Inl (HTTPException 400 ''Cannot leave the system without at least one active admin''), db)
                        else
                          let changes = update_user_changes payload target;
                              target' = target\<lparr>u_role := new_role, u_is_active := new_active\<rparr>
                          in if changes = [] then (Inr target, db)
                             else case flush_user target' db of
                               Inl e \<Rightarrow> (Inl e, db)
                             | Inr db1 \<Rightarrow>
                                 returning target'
                                   (audit_service_log E 1 (Some (u_id admin)) ''update'' ''user''
                                      (Some (JObj ((''target_user'', JStr (u_id target)) # changes))) db1)))"

definition reset_user_password ::
  "ext \<Rightarrow> string option \<Rightarrow> string \<Rightarrow> db \<Rightarrow> (string \<times> string) db_res" where
  "reset_user_password E token user_id db =
     (case require_role E [''admin''] token db of
        Inl e \<Rightarrow> (Inl e, db)
      | Inr admin \<Rightarrow>
          (case lookup_key u_id user_id (users db) of
             None \<Rightarrow> (Inl (HTTPException 404 ''User not found''), db)
           | Some target \<Rightarrow>
               (case check_not_protected (u_id target) (u_id admin) of
                  Inl e \<Rightarrow> (Inl e, db)
                | Inr _ \<Rightarrow>
                    let new_pw = generate_password E 16 in
                    case flush_user (target\<lparr>u_hashed_password := hash_password E new_pw\<rparr>) db of
                      Inl e \<Rightarrow> (Inl e, db)
                    | Inr db1 \<Rightarrow>
                        returning (u_id target, new_pw)
                          (audit_service_log E 1 (Some (u_id admin)) ''reset_password'' ''user''
                             (Some (JObj [(''target_user'', JStr (u_id target))])) db1))))"

section \<open>What the guards admit\<close>

lemma select_user_InrD:
  assumes "select_user E j db = Inr (Some u)"
  shows "u \<in> set (users db)" and "bind_text E j = Some (Some (u_id u))"
proof -
  obtain v where v: "bind_text E j = Some v" "find (\<lambda>u. Some (u_id u) = v) (users db) = Some u"
    using assms by (auto simp: select_user_def split: option.splits)
  then have "u \<in> set (users db) \<and> Some (u_id u) = v"
    by (auto simp: find_Some_iff)
  with v show "u \<in> set (users db)" "bind_text E j = Some (Some (u_id u))" by auto
qed

lemma users_lookup: "db_wf db \<Longrightarrow> u \<in> set (users db) \<Longrightarrow> lookup_key u_id (u_id u) (users db) = Some u"
  using db_wfD(1) by (simp add: users_wf_def lookup_key_Some_iff)

lemma select_user_found:
  assumes "db_wf db" "u \<in> set (users db)" "bind_text E j = Some (Some (u_id u))"
  shows "select_user E j db = Inr (Some u)"
proof -
  show ?thesis
    using users_lookup [OF assms(1,2)] assms(3) by (simp add: select_user_def lookup_key_def)
qed

lemma require_auth_InrD:
  assumes "require_auth E token db = Inr u"
  shows "u \<in> set (users db)" and "u_is_active u"
  using assms
  by (auto simp: require_auth_def get_current_user_def dest: select_user_InrD
      split: if_splits option.splits sum.splits)

lemma require_role_InrD:
  assumes "require_role E roles token db = Inr u"
  shows "u \<in> set (users db)" and "u_is_active u"
  using assms
  by (auto simp: require_role_def dest: select_user_InrD split: if_splits option.splits sum.splits)

lemma require_role_Inr_claims:
  assumes "require_role E roles token db = Inr u"
  shows "\<exists>t claims r. token = Some t \<and> t \<noteq> [] \<and> decode_token E t = Some claims \<and>
           map_of claims ''role'' = Some (JStr r) \<and> r \<in> set roles \<and>
           bind_text E (claim claims ''sub'') = Some (Some (u_id u))"
proof -
  obtain t claims where t: "token = Some t" "t \<noteq> []" "decode_token E t = Some claims"
    and role: "claim claims ''role'' \<in> set (map JStr roles)"
    and sel: "select_user E (claim claims ''sub'') db = Inr (Some u)"
    using assms by (auto simp: require_role_def no_token_def split: if_splits option.splits sum.splits)
  then show ?thesis
    using select_user_InrD(2) [OF sel] by (auto simp: claim_def split: option.splits)
qed

text \<open>A decoded token of an active account passes every guard that lists its role.\<close>

lemma require_role_accepts:
  assumes "db_wf db" "u \<in> set (users db)" "u_is_active u"
    and "t \<noteq> []" "decode_token E t = Some claims" "map_of claims ''role'' = Some (JStr r)" "r \<in> set roles"
    and "map_of claims ''sub'' = Some (JStr (u_id u))" "bind_text E (JStr (u_id u)) = Some (Some (u_id u))"
  shows "require_role E roles (Some t) db = Inr u"
proof -
  have "claims \<noteq> []" using assms(6) by auto
  moreover have "select_user E (claim claims ''sub'') db = Inr (Some u)"
    using assms by (intro select_user_found) (simp_all add: claim_def)
  ultimately show ?thesis
    using assms by (simp add: require_role_def no_token_def claim_def image_iff)
qed

text \<open>Behind the router's guard the current user is the account the guard admitted.\<close>

lemma route_user_Inr:
  assumes "route_user E roles token db = Inr uo"
  obtains u where "uo = Some u" "u \<in> set (users db)" "u_is_active u" "any_auth E token db = Inr u"
proof -
  obtain u where u: "any_auth E token db = Inr u"
    using assms by (auto simp: route_user_def split: sum.splits)
  then obtain t claims where "token = Some t" "t \<noteq> []" "decode_token E t = Some claims" "claims \<noteq> []"
      "select_user E (claim claims ''sub'') db = Inr (Some u)" "u_is_active u"
    by (auto simp: any_auth_def require_role_def no_token_def split: if_splits option.splits sum.splits)
  then have "get_current_user E token db = Inr (Some u)"
    by (simp add: get_current_user_def no_token_def)
  moreover have "get_current_user E token db = Inr uo"
    using assms u by (simp add: route_user_def split: sum.splits)
  ultimately have "uo = Some u" by simp
  with u show ?thesis
    using that [of u] require_role_InrD [of E _ token db u] by (simp add: any_auth_def)
qed

section \<open>What the endpoints change\<close>

lemma db_wf_create_user [wf_intros]: "db_wf db \<Longrightarrow> db_wf (snd (create_user E token p db))"
  by (auto simp: create_user_def Let_def split: sum.split
      intro: db_wf_insert_user db_wf_audit_service_log)

lemma db_wf_change_my_password [wf_intros]: "db_wf db \<Longrightarrow> db_wf (snd (change_my_password E token cur new db))"
  by (auto simp: change_my_password_def split: sum.split
      intro: db_wf_flush_user db_wf_audit_service_log)

lemma db_wf_update_user [wf_intros]: "db_wf db \<Longrightarrow> db_wf (snd (update_user E token uid p db))"
  by (auto simp: update_user_def Let_def split: sum.split option.split
      intro: db_wf_flush_user db_wf_audit_service_log)

lemma db_wf_reset_user_password [wf_intros]: "db_wf db \<Longrightarrow> db_wf (snd (reset_user_password E token uid db))"
  by (auto simp: reset_user_password_def Let_def split: sum.split option.split
      intro: db_wf_flush_user db_wf_audit_service_log)

lemma db_wf_login [wf_intros]: "db_wf db \<Longrightarrow> db_wf (snd (login E email pw db))"
  by (simp add: login_def Let_def split: list.split)

lemma login_users [simp]: "users (snd (login E email pw db)) = users db"
  by (simp add: login_def Let_def split: list.split)

lemma flush_user_users: "flush_user u db = Inr db1 \<Longrightarrow> users db1 = replace_row u_id u (users db)"
  by (auto simp: flush_user_def split: if_splits)

text \<open>The only change an account update can make, and the guards it has passed by then.\<close>

definition admin_lost :: "user \<Rightarrow> user \<Rightarrow> bool" where
  "admin_lost u u' \<longleftrightarrow> u_role u = ''admin'' \<and> u_is_active u \<and> (u_role u' \<noteq> ''admin'' \<or> \<not> u_is_active u')"

lemma update_user_users:
  assumes "users (snd (update_user E token uid p db)) \<noteq> users db"
  obtains admin target target' where
    "require_role E [''admin''] token db = Inr admin"
    "lookup_key u_id uid (users db) = Some target" "u_id target \<noteq> u_id admin"
    "u_id target \<notin> set PROTECTED_USER_IDS" "u_id target' = u_id target"
    "admin_lost target target' \<longrightarrow> 2 \<le> count_active_admins db"
    "users (snd (update_user E token uid p db)) = replace_row u_id target' (users db)"
proof -
  obtain admin where admin: "require_role E [''admin''] token db = Inr admin"
    using assms by (cases "require_role E [''admin''] token db") (auto simp: update_user_def)
  obtain target where target: "lookup_key u_id uid (users db) = Some target"
    using assms admin
    by (cases "lookup_key u_id uid (users db)") (simp_all add: update_user_def split: if_split_asm)
  let ?t = "target\<lparr>u_role := (case up_role p of Some r \<Rightarrow> r | None \<Rightarrow> u_role target),
                   u_is_active := (case up_is_active p of Some b \<Rightarrow> b | None \<Rightarrow> u_is_active target)\<rparr>"
  have prot: "u_id target \<notin> set PROTECTED_USER_IDS" and ne: "u_id target \<noteq> u_id admin"
    using assms admin target
    by (auto simp: update_user_def check_not_protected_def split: if_splits)
  have lost: "admin_lost target ?t \<longrightarrow> 2 \<le> count_active_admins db"
    using assms admin target prot ne
    by (auto simp: update_user_def check_not_protected_def admin_lost_def Let_def split: if_splits)
  have "users (snd (update_user E token uid p db)) = replace_row u_id ?t (users db)"
    using assms admin target prot ne
    by (auto simp: update_user_def check_not_protected_def Let_def dest!: flush_user_users
        split: if_splits sum.splits)
  then show ?thesis using that [of admin target ?t] admin target prot ne lost by simp
qed

lemma count_active_admins_pos:
  "1 \<le> count_active_admins db \<longleftrightarrow> (\<exists>u \<in> set (users db). u_role u = ''admin'' \<and> u_is_active u)"
  by (simp add: count_active_admins_def Suc_le_eq filter_empty_conv)

lemma count_active_admins_two:
  assumes "db_wf db" "2 \<le> count_active_admins db"
  shows "\<exists>u \<in> set (users db). u_role u = ''admin'' \<and> u_is_active u \<and> u_id u \<noteq> k"
proof (rule ccontr)
  let ?as = "filter (\<lambda>u. u_role u = ''admin'' \<and> u_is_active u) (users db)"
  assume "\<not> ?thesis"
  then have "set (map u_id ?as) \<subseteq> {k}" by auto
  moreover have "distinct (map u_id ?as)"
    using db_wfD(1) [OF assms(1)] by (simp add: users_wf_def distinct_map_filter)
  ultimately have "length (map u_id ?as) \<le> card {k}"
    using card_mono [of "{k}" "set (map u_id ?as)"] distinct_card [of "map u_id ?as"] by simp
  with assms(2) show False by (simp add: count_active_admins_def)
qed

lemma active_admin_survives:
  assumes "u \<in> set (users db)" "u_role u = ''admin''" "u_is_active u" "u_id u \<noteq> u_id new"
  shows "\<exists>u \<in> set (replace_row u_id new (users db)). u_role u = ''admin'' \<and> u_is_active u"
  using assms by (auto simp: replace_row_def set_update_where)

section \<open>A concrete session\<close>

text \<open>The token the demonstration environment issues to the sample administrators.\<close>

definition sample_token :: "string \<Rightarrow> string option" where
  "sample_token uid = Some (create_access_token demo_ext uid ''admin'')"

lemma sample_token_decodes:
  "decode_token demo_ext (the (sample_token uid)) = Some [(''sub'', JStr uid), (''role'', JStr ''admin'')]"
  "the (sample_token uid) \<noteq> []"
proof -
  show "the (sample_token uid) \<noteq> []"
    by (simp add: sample_token_def create_access_token_def jwt_okD)
qed (simp add: sample_token_def create_access_token_def decode_token_def demo_ext_def demo_jwt_roundtrip
      minutes_def seconds_def ACCESS_TOKEN_EXPIRE_MINUTES_def)

lemma sample_token_accepted [simp]:
  assumes "u \<in> set (users db)" "u_is_active u" "u_id u = uid" "db_wf db"
  shows "''admin'' \<in> set roles \<Longrightarrow> require_role demo_ext roles (sample_token uid) db = Inr u"
    and "require_auth demo_ext (sample_token uid) db = Inr u"
proof -
  have t: "sample_token uid = Some (the (sample_token uid))" by (simp add: sample_token_def)
  have b: "bind_text demo_ext (JStr s) = Some (Some s)" for s by (simp add: demo_ext_def)
  show "require_role demo_ext roles (sample_token uid) db = Inr u" if "''admin'' \<in> set roles"
    by (subst t, rule require_role_accepts [OF assms(4,1,2) sample_token_decodes(2,1) _ that])
       (simp_all add: assms(3) b)
  have "select_user demo_ext (JStr uid) db = Inr (Some u)"
    using assms by (intro select_user_found) (simp_all add: b)
  then show "require_auth demo_ext (sample_token uid) db = Inr u"
    using sample_token_decodes [of uid] assms(2)
    by (subst t) (simp add: require_auth_def get_current_user_def no_token_def claim_def)
qed

lemma sample_token_routed [simp]:
  assumes "u \<in> set (users db)" "u_is_active u" "u_id u = uid" "db_wf db" "\<forall>rs \<in> set_option roles. ''admin'' \<in> set rs"
  shows "route_user demo_ext roles (sample_token uid) db = Inr (Some u)"
proof -
  note acc = sample_token_accepted [OF assms(1-4)]
  have any: "any_auth demo_ext (sample_token uid) db = Inr u" using acc(1) by (simp add: any_auth_def)
  have "get_current_user demo_ext (sample_token uid) db = Inr (Some u)"
    using acc(2) by (auto simp: require_auth_def split: sum.splits option.splits)
  then show ?thesis using any acc(1) assms(5) by (cases roles) (simp_all add: route_user_def)
qed

lemma sample_token_admin [simp]:
  "''admin'' \<in> set roles \<Longrightarrow> require_role demo_ext roles (sample_token ''admin'') sample_db = Inr (sample_user ''admin'' ''admin'')"
  "any_auth demo_ext (sample_token ''admin'') sample_db = Inr (sample_user ''admin'' ''admin'')"
  "\<forall>rs \<in> set_option ro. ''admin'' \<in> set rs \<Longrightarrow>
     route_user demo_ext ro (sample_token ''admin'') sample_db = Inr (Some (sample_user ''admin'' ''admin''))"
  by (simp_all add: any_auth_def)

section \<open>The last administrator\<close>

lemma update_user_admins:
  assumes "db_wf db" "1 \<le> count_active_admins db"
  shows "1 \<le> count_active_admins (snd (update_user E token uid p db))"
proof (cases "users (snd (update_user E token uid p db)) = users db")
  case True
  with assms(2) show ?thesis by (simp add: count_active_admins_def)
next
  case False
  then obtain target target' where t: "lookup_key u_id uid (users db) = Some target"
    "u_id target' = u_id target" "admin_lost target target' \<longrightarrow> 2 \<le> count_active_admins db"
    and us: "users (snd (update_user E token uid p db)) = replace_row u_id target' (users db)"
    by (rule update_user_users)
  have mem: "target \<in> set (users db)" using lookup_key_SomeD [OF t(1)] ..
  obtain u where u: "u \<in> set (users db)" "u_role u = ''admin''" "u_is_active u"
    using assms(2) unfolding count_active_admins_pos by auto
  have "\<exists>u \<in> set (replace_row u_id target' (users db)). u_role u = ''admin'' \<and> u_is_active u"
  proof (cases "admin_lost target target'")
    case True
    then obtain v where "v \<in> set (users db)" "u_role v = ''admin''" "u_is_active v" "u_id v \<noteq> u_id target'"
      using count_active_admins_two [OF assms(1)] t(3) by blast
    then show ?thesis by (rule active_admin_survives)
  next
    case kept: False
    show ?thesis
    proof (cases "u_id u = u_id target'")
      case True
      then have "u = target"
        using users_lookup [OF assms(1) u(1)] users_lookup [OF assms(1) mem] t(2)
        by (metis option.inject)
      with kept u have "u_role target' = ''admin''" "u_is_active target'"
        by (auto simp: admin_lost_def)
      moreover have "target' \<in> set (replace_row u_id target' (users db))"
        using u(1) True by (rule replace_row_mem)
      ultimately show ?thesis by blast
    qed (rule active_admin_survives [OF u])
  qed
  with us show ?thesis unfolding count_active_admins_pos by simp
qed

text \<open>
  C12: changing a role or deactivating an account never takes the last active administrator away:
  in a database that satisfies the schema, if one active administrator exists before the request,
  one exists after it, whoever asks and whatever the payload.
\<close>

theorem update_user_keeps_active_admin:
  assumes "db_wf db" "1 \<le> count_active_admins db"
  shows "1 \<le> count_active_admins (snd (update_user E token uid p db))"
  using assms by (rule update_user_admins)

theorem update_user_keeps_active_admin_witness:
  "1 \<le> count_active_admins (snd (update_user demo_ext (sample_token ''admin'') ''ops''
     \<lparr>up_role = Some ''viewer'', up_is_active = None\<rparr> sample_db))"
  by (rule update_user_keeps_active_admin) (simp_all add: count_active_admins_def)

section \<open>Logging in\<close>

text \<open>An identifier that names one active account, with a password that checks, logs in.\<close>

lemma login_accepts:
  assumes "db_wf db" "u \<in> set (users db)" "u_is_active u"
    and "verify_password E pw (u_hashed_password u)"
    and "strip ident = u_email u \<or> strip ident = u_id u"
    and "\<And>v. v \<in> set (users db) \<Longrightarrow> v \<noteq> u \<Longrightarrow> u_email v \<noteq> strip ident \<and> u_id v \<noteq> strip ident"
  shows "\<exists>resp. fst (login E ident pw db) = Inr resp \<and> token_user_id resp = u_id u \<and>
           token_role resp = u_role u \<and> access_token resp = create_access_token E (u_id u) (u_role u)"
proof -
  have us: "distinct (users db)" "user_ok u"
    using db_wfD(1) [OF assms(1)] assms(2) by (auto simp: users_wf_def distinct_map list_all_iff)
  have "filter (\<lambda>v. u_email v = strip ident \<or> u_id v = strip ident) (users db) = [u]"
    using us(1) assms(2,5,6) by (intro filter_unique) auto
  moreover have "\<exists>l. fst (audit_service_log E 0 (Some (u_id u)) ''login'' ''user'' d db) = Inr l" for d
    using us(2) by (simp add: audit_service_log_returns fits_opt_def user_ok_def fits_def)
  ultimately show ?thesis
    using assms(3,4) by (auto simp: login_def Let_def fst_returning_Inr_iff)
qed

lemma login_InrD:
  assumes "fst (login E ident pw db) = Inr resp"
  obtains u where "u \<in> set (users db)" "u_is_active u" "verify_password E pw (u_hashed_password u)"
    "u_email u = strip ident \<or> u_id u = strip ident"
    "token_user_id resp = u_id u" "token_role resp = u_role u"
    "access_token resp = create_access_token E (u_id u) (u_role u)"
proof -
  let ?found = "filter (\<lambda>v. u_email v = strip ident \<or> u_id v = strip ident) (users db)"
  obtain u where u: "?found = [u]"
    using assms by (auto simp: login_def Let_def split: list.splits)
  have "u \<in> set ?found" using u by simp
  moreover have "verify_password E pw (u_hashed_password u)" "u_is_active u"
    using assms u by (auto simp: login_def Let_def split: if_splits)
  moreover have "token_user_id resp = u_id u" "token_role resp = u_role u"
    "access_token resp = create_access_token E (u_id u) (u_role u)"
    using assms u calculation(2,3) by (auto simp: login_def Let_def fst_returning_Inr_iff)
  ultimately show ?thesis by (intro that) auto
qed

text \<open>
  C13: a session lasts as long as its token. The token a login hands out passes every guard that
  lists the account's role until 480 minutes after the login, as long as the account is active, and
  every guard refuses it with 401 from one second after that.
\<close>

theorem login_session_lifetime:
  assumes "db_wf db" "jwt_ok E" "bind_ok E" "fst (login E ident pw db) = Inr resp"
    and "u \<in> set (users db')" "u_id u = token_user_id resp" "u_is_active u" "db_wf db'"
    and "CHR 0x00 \<notin> set (u_id u)" "token_role resp \<in> set roles"
  shows "(now \<le> clock E 0 + minutes 480 \<longrightarrow>
            require_role (E\<lparr>clock := \<lambda>_. now\<rparr>) roles (Some (access_token resp)) db' = Inr u) \<and>
         (clock E 0 + minutes 480 + seconds 1 \<le> now \<longrightarrow>
            require_role (E\<lparr>clock := \<lambda>_. now\<rparr>) roles (Some (access_token resp)) db' =
              Inl (HTTPException 401 ''Invalid or expired token''))"
proof -
  let ?E = "E\<lparr>clock := \<lambda>_. now\<rparr>"
  let ?x = "clock E 0 + minutes 480"
  have tok: "access_token resp = jwt_encode E (u_id u) (token_role resp) ?x"
    using assms(4) by (rule login_InrD) (simp add: assms(6) create_access_token_def ACCESS_TOKEN_EXPIRE_MINUTES_def)
  have ne: "access_token resp \<noteq> []" using jwt_okD(1) [OF assms(2)] tok by simp
  have valid: "require_role ?E roles (Some (access_token resp)) db' = Inr u" if le: "now \<le> ?x"
  proof -
    obtain claims where "jwt_decode E now (access_token resp) = Some claims"
      "map_of claims ''sub'' = Some (JStr (u_id u))" "map_of claims ''role'' = Some (JStr (token_role resp))"
      using jwt_okD(2) [OF assms(2) le] tok by auto
    moreover have "bind_text E (JStr (u_id u)) = Some (Some (u_id u))"
      using assms(3,9) by (simp add: bind_ok_def)
    ultimately show ?thesis
      using assms(5,7,8,10) ne by (intro require_role_accepts) (simp_all add: decode_token_def)
  qed
  have "require_role ?E roles (Some (access_token resp)) db' = Inl (HTTPException 401 ''Invalid or expired token'')"
    if "?x + seconds 1 \<le> now"
    using jwt_okD(3) [OF assms(2) that] tok ne by (simp add: require_role_def decode_token_def no_token_def)
  with valid show ?thesis by blast
qed

theorem login_session_lifetime_witness:
  "require_role (demo_ext\<lparr>clock := \<lambda>_. seconds 1000 + minutes 480\<rparr>) [''admin'']
     (sample_token ''ops'') sample_db = Inr (sample_user ''ops'' ''admin'')"
proof -
  have clk: "clock demo_ext 0 = seconds 1000" by (simp add: demo_ext_def)
  obtain resp where "fst (login demo_ext ''ops@x.org'' ''password1'' sample_db) = Inr resp"
    "token_user_id resp = ''ops''" "token_role resp = ''admin''" "access_token resp = the (sample_token ''ops'')"
    using login_accepts [of sample_db "sample_user ''ops'' ''admin''" demo_ext "''password1''" "''ops@x.org''"]
    by (auto simp: verify_password_def demo_ext_def demo_checkpw_def demo_hashpw_def strip_def lstrip_by_def
        rstrip_by_def is_space_def sample_token_def)
  then show ?thesis
    using login_session_lifetime [of sample_db demo_ext "''ops@x.org''" "''password1''" resp
        "sample_user ''ops'' ''admin''" sample_db "[''admin'']" "seconds 1000 + minutes 480"]
    by (simp add: clk sample_token_def)
qed

section \<open>Passwords\<close>

lemma generate_password_alphabet:
  assumes "choice_ok E"
  shows "length (generate_password E n) = n" and "set (generate_password E n) \<subseteq> set password_alphabet"
proof -
  have "password_alphabet \<noteq> []" by (simp add: password_alphabet_def)
  then show "set (generate_password E n) \<subseteq> set password_alphabet"
    using assms unfolding generate_password_def choice_ok_def by fastforce
qed (simp add: generate_password_def)

lemma reset_user_password_InrD:
  assumes "fst (reset_user_password E token uid db) = Inr (i, pw)"
  obtains admin target where "require_role E [''admin''] token db = Inr admin"
    "lookup_key u_id uid (users db) = Some target" "i = u_id target" "pw = generate_password E 16"
    "check_not_protected (u_id target) (u_id admin) = Inr ()"
    "users (snd (reset_user_password E token uid db)) =
       replace_row u_id (target\<lparr>u_hashed_password := hash_password E pw\<rparr>) (users db)"
proof -
  obtain admin target where g: "require_role E [''admin''] token db = Inr admin"
    "lookup_key u_id uid (users db) = Some target" "check_not_protected (u_id target) (u_id admin) = Inr ()"
    using assms by (auto simp: reset_user_password_def split: sum.splits option.splits)
  obtain db1 where f: "flush_user (target\<lparr>u_hashed_password := hash_password E (generate_password E 16)\<rparr>) db = Inr db1"
    using assms g by (auto simp: reset_user_password_def Let_def split: sum.splits)
  show ?thesis
    using assms g f flush_user_users [OF f]
    by (intro that [OF g(1,2) _ _ g(3)]) (auto simp: reset_user_password_def Let_def fst_returning_Inr_iff)
qed

lemma change_my_password_InrD:
  assumes "fst (change_my_password E token cur new db) = Inr ()"
  obtains u where "require_auth E token db = Inr u" "verify_password E cur (u_hashed_password u)"
    "MIN_PASSWORD_LENGTH \<le> length new" "new \<noteq> cur"
    "users (snd (change_my_password E token cur new db)) =
       replace_row u_id (u\<lparr>u_hashed_password := hash_password E new\<rparr>) (users db)"
  using assms
  by (auto simp: change_my_password_def fst_returning_Inr_iff dest!: flush_user_users
      split: sum.splits if_splits)

text \<open>The identifiers of the other accounts, which a change of one account's password leaves alone.\<close>

lemma replace_row_others:
  assumes "v \<in> set (replace_row key new rows)" "v \<noteq> new"
  shows "v \<in> set rows \<and> key v \<noteq> key new"
  using assms by (auto simp: replace_row_def set_update_where split: if_splits)

lemma login_after_password_change:
  assumes "db_wf db" "bcrypt_ok E" "u \<in> set (users db)" "u_is_active u"
    and "\<forall>v \<in> set (users db). u_id v \<noteq> u_id u \<longrightarrow> u_id v \<noteq> u_email u"
    and "strip (u_email u) = u_email u"
    and "db_wf db'" "users db' = replace_row u_id (u\<lparr>u_hashed_password := hash_password E pw\<rparr>) (users db)"
  shows "\<exists>resp. fst (login E (u_email u) pw db') = Inr resp \<and> token_user_id resp = u_id u"
proof -
  let ?u = "u\<lparr>u_hashed_password := hash_password E pw\<rparr>"
  have mem: "?u \<in> set (users db')"
    unfolding assms(8) by (rule replace_row_mem [OF assms(3)]) simp
  have "u_email v \<noteq> u_email u \<and> u_id v \<noteq> u_email u" if "v \<in> set (users db')" "v \<noteq> ?u" for v
  proof -
    have v: "v \<in> set (users db)" "u_id v \<noteq> u_id u"
      using replace_row_others [of v u_id ?u "users db"] that assms(8) by auto
    moreover have "u_email v \<noteq> u_email u"
      using db_wfD(1) [OF assms(1)] v assms(3) by (auto simp: users_wf_def distinct_map inj_on_def)
    ultimately show ?thesis using assms(5) by blast
  qed
  moreover have "verify_password E pw (u_hashed_password ?u)"
    using assms(2) by (simp add: verify_password_def hash_password_def bcrypt_ok_def)
  ultimately have "\<exists>resp. fst (login E (u_email u) pw db') = Inr resp \<and> token_user_id resp = u_id ?u \<and>
      token_role resp = u_role ?u \<and> access_token resp = create_access_token E (u_id ?u) (u_role ?u)"
    using assms(4,6) by (intro login_accepts [OF assms(7) mem]) auto
  then show ?thesis by auto
qed

text \<open>
  A password change takes effect: after \<open>change_my_password\<close> succeeds, the new password (at least
  eight characters, other than the old one) logs the same account in by its email address, provided
  no other account has that address as its id.
\<close>

theorem change_my_password_login:
  assumes "db_wf db" "bcrypt_ok E" "require_auth E token db = Inr u"
    and "fst (change_my_password E token cur new db) = Inr ()"
    and "\<forall>v \<in> set (users db). u_id v \<noteq> u_id u \<longrightarrow> u_id v \<noteq> u_email u"
    and "strip (u_email u) = u_email u"
  shows "8 \<le> length new \<and> new \<noteq> cur \<and>
         (\<exists>resp. fst (login E (u_email u) new (snd (change_my_password E token cur new db))) = Inr resp \<and>
            token_user_id resp = u_id u)"
proof -
  from assms(4) obtain u' where u': "require_auth E token db = Inr u'"
    "MIN_PASSWORD_LENGTH \<le> length new" "new \<noteq> cur"
    "users (snd (change_my_password E token cur new db)) =
       replace_row u_id (u'\<lparr>u_hashed_password := hash_password E new\<rparr>) (users db)"
    by (rule change_my_password_InrD)
  moreover have "u' = u" using u'(1) assms(3) by simp
  ultimately show ?thesis
    using login_after_password_change [OF assms(1,2) require_auth_InrD [OF assms(3)] assms(5,6)]
      db_wf_change_my_password [OF assms(1)] by (auto simp: MIN_PASSWORD_LENGTH_def)
qed

theorem change_my_password_login_witness:
  "\<exists>resp. fst (login demo_ext ''ops@x.org'' ''password2''
      (snd (change_my_password demo_ext (sample_token ''ops'') ''password1'' ''password2'' sample_db))) = Inr resp \<and>
    token_user_id resp = ''ops''"
proof -
  have auth: "require_auth demo_ext (sample_token ''ops'') sample_db = Inr (sample_user ''ops'' ''admin'')"
    by simp
  have "fst (change_my_password demo_ext (sample_token ''ops'') ''password1'' ''password2'' sample_db) = Inr ()"
    by (simp add: change_my_password_def auth verify_password_def demo_checkpw_def demo_hashpw_def
        MIN_PASSWORD_LENGTH_def flush_user_def user_ok_def fits_def hash_password_def returning_def
        audit_service_log_returns fits_opt_def)
  from change_my_password_login [OF _ _ auth this] show ?thesis
    by (simp add: strip_def lstrip_by_def rstrip_by_def is_space_def)
qed



section \<open>Protection and refusal\<close>

lemma lookup_replace_other: "k \<noteq> key new \<Longrightarrow> lookup_key key k (replace_row key new rows) = lookup_key key k rows"
  by (simp add: lookup_key_replace_row)

lemma reset_user_password_users:
  assumes "users (snd (reset_user_password E token uid db)) \<noteq> users db"
  obtains admin target pw where "require_role E [''admin''] token db = Inr admin"
    "check_not_protected (u_id target) (u_id admin) = Inr ()"
    "users (snd (reset_user_password E token uid db)) =
       replace_row u_id (target\<lparr>u_hashed_password := pw\<rparr>) (users db)"
proof -
  obtain admin target where g: "require_role E [''admin''] token db = Inr admin"
    "lookup_key u_id uid (users db) = Some target" "check_not_protected (u_id target) (u_id admin) = Inr ()"
    using assms by (auto simp: reset_user_password_def split: sum.splits option.splits)
  obtain db1 where f: "flush_user (target\<lparr>u_hashed_password := hash_password E (generate_password E 16)\<rparr>) db = Inr db1"
    using assms g by (auto simp: reset_user_password_def Let_def split: sum.splits)
  show ?thesis
    using g f flush_user_users [OF f]
    by (intro that [OF g(1,3)]) (auto simp: reset_user_password_def Let_def)
qed

text \<open>
  The root account is out of reach of the other accounts: no role or status update changes the
  row of \<open>admin\<close>, its owner's included, and no password reset does unless \<open>admin\<close> itself asks.
\<close>

theorem protected_account_unchanged:
  "lookup_key u_id ''admin'' (users (snd (update_user E token uid p db))) = lookup_key u_id ''admin'' (users db) \<and>
   ((\<forall>a. require_role E [''admin''] token db = Inr a \<longrightarrow> u_id a \<noteq> ''admin'') \<longrightarrow>
      lookup_key u_id ''admin'' (users (snd (reset_user_password E token uid db))) = lookup_key u_id ''admin'' (users db))"
proof (intro conjI impI)
  show "lookup_key u_id ''admin'' (users (snd (update_user E token uid p db))) = lookup_key u_id ''admin'' (users db)"
  proof (cases "users (snd (update_user E token uid p db)) = users db")
    case False
    then show ?thesis
      by (rule update_user_users) (auto simp: PROTECTED_USER_IDS_def lookup_replace_other)
  qed simp
  assume other: "\<forall>a. require_role E [''admin''] token db = Inr a \<longrightarrow> u_id a \<noteq> ''admin''"
  show "lookup_key u_id ''admin'' (users (snd (reset_user_password E token uid db))) = lookup_key u_id ''admin'' (users db)"
  proof (cases "users (snd (reset_user_password E token uid db)) = users db")
    case False
    then show ?thesis
      by (rule reset_user_password_users)
         (use other in \<open>auto simp: check_not_protected_def PROTECTED_USER_IDS_def lookup_replace_other split: if_splits\<close>)
  qed simp
qed

theorem protected_account_unchanged_witness:
  "lookup_key u_id ''admin'' (users (snd (reset_user_password demo_ext (sample_token ''ops'') ''admin'' sample_db))) =
     Some (sample_user ''admin'' ''admin'')"
proof -
  have guard: "require_role demo_ext [''admin''] (sample_token ''ops'') sample_db = Inr (sample_user ''ops'' ''admin'')"
    by simp
  have "lookup_key u_id ''admin'' (users (snd (reset_user_password demo_ext (sample_token ''ops'') ''admin'' sample_db))) =
      lookup_key u_id ''admin'' (users sample_db)"
    by (rule protected_account_unchanged [THEN conjunct2, THEN mp]) (simp add: guard)
  also have "\<dots> = Some (sample_user ''admin'' ''admin'')" by (simp add: lookup_key_def)
  finally show ?thesis .
qed

lemma account_refuses_cleanly:
  "refuses_cleanly db (login E ident pw db)"
  "refuses_cleanly db (create_user E token uc db)"
  "refuses_cleanly db (change_my_password E token cur new db)"
  "refuses_cleanly db (update_user E token uid p db)"
  "refuses_cleanly db (reset_user_password E token uid db)"
  by (simp_all add: login_def create_user_def change_my_password_def update_user_def
      reset_user_password_def Let_def split: list.split sum.split option.split)

text \<open>
  A request of the account endpoints that is answered with an HTTP error of their own (bad
  credentials, missing rights, unknown user, duplicate email, weak password, last administrator)
  has changed nothing in the database.
\<close>

theorem account_refusal_changes_nothing:
  "(fst (login E ident pw db) = Inl (HTTPException c m) \<longrightarrow> snd (login E ident pw db) = db) \<and>
   (fst (create_user E token uc db) = Inl (HTTPException c m) \<longrightarrow> snd (create_user E token uc db) = db) \<and>
   (fst (change_my_password E token cur new db) = Inl (HTTPException c m) \<longrightarrow>
      snd (change_my_password E token cur new db) = db) \<and>
   (fst (update_user E token uid p db) = Inl (HTTPException c m) \<longrightarrow> snd (update_user E token uid p db) = db) \<and>
   (fst (reset_user_password E token uid db) = Inl (HTTPException c m) \<longrightarrow>
      snd (reset_user_password E token uid db) = db)"
  by (intro conjI impI) (erule refuses_cleanlyD [OF account_refuses_cleanly(1)]
    refuses_cleanlyD [OF account_refuses_cleanly(2)] refuses_cleanlyD [OF account_refuses_cleanly(3)]
    refuses_cleanlyD [OF account_refuses_cleanly(4)] refuses_cleanlyD [OF account_refuses_cleanly(5)])+

theorem account_refusal_changes_nothing_witness:
  "snd (update_user demo_ext None ''ops'' \<lparr>up_role = Some ''viewer'', up_is_active = None\<rparr> sample_db) = sample_db"
  by (rule account_refusal_changes_nothing [THEN conjunct2, THEN conjunct2, THEN conjunct2, THEN conjunct1, THEN mp])
     (simp add: update_user_def require_role_def no_token_def)

text \<open>
  What it takes to pass \<open>require_role\<close>: a token that decodes now, whose role claim is one of the
  listed roles and whose subject names an existing, active account, which is the one the guard returns.
\<close>

theorem require_role_sound:
  assumes "bind_ok E" "require_role E roles token db = Inr u"
  shows "u \<in> set (users db) \<and> u_is_active u \<and>
         (\<exists>t claims r. token = Some t \<and> decode_token E t = Some claims \<and>
            map_of claims ''role'' = Some (JStr r) \<and> r \<in> set roles \<and>
            map_of claims ''sub'' = Some (JStr (u_id u)))"
proof -
  obtain t claims r where t: "token = Some t" "decode_token E t = Some claims"
    "map_of claims ''role'' = Some (JStr r)" "r \<in> set roles"
    and sub: "bind_text E (claim claims ''sub'') = Some (Some (u_id u))"
    using require_role_Inr_claims [OF assms(2)] by blast
  have "map_of claims ''sub'' = Some (JStr (u_id u))"
    using bind_text_eq(1) [OF assms(1) sub] by (auto simp: claim_def split: option.splits)
  with t require_role_InrD [OF assms(2)] show ?thesis by blast
qed

theorem require_role_sound_witness:
  "\<exists>t claims r. sample_token ''ops'' = Some t \<and> decode_token demo_ext t = Some claims \<and>
     map_of claims ''role'' = Some (JStr r) \<and> r \<in> set [''admin''] \<and> map_of claims ''sub'' = Some (JStr ''ops'')"
  using require_role_sound [of demo_ext "[''admin'']" "sample_token ''ops''" sample_db "sample_user ''ops'' ''admin''"]
  by simp

end
