(* ===== verification/Py_Hashlib.thy ===== *)
theory Py_Hashlib
  imports Py_Base "HOL-Library.Word"
begin

unbundle bit_operations_syntax

text \<open>
  The one thing the server uses of the \<^verbatim>\<open>hashlib\<close> module: the SHA-256 digest of the bytes of a
  firmware image, in hexadecimal, as FIPS 180-4 defines it: on 32-bit words that wrap around, over
  blocks of 64 bytes, the message padded with a one bit, zeros and its length in bits. A byte is a
  character below 256. The lemmas give the length of the digest and of the
  padded message.
\<close>

type_synonym w32 = "32 word"

section \<open>Padding\<close>

definition byte_word :: "int \<Rightarrow> w32" where
  "byte_word n = word_of_int n"

text \<open>\<open>n\<close> as \<open>k\<close> bytes, the most significant first.\<close>

fun big_endian :: "nat \<Rightarrow> int \<Rightarrow> int list" where
  "big_endian 0 n = []"
| "big_endian (Suc k) n = big_endian k (n div 256) @ [n mod 256]"

definition sha_padding :: "nat \<Rightarrow> int list" where
  "sha_padding len = 128 # replicate ((119 - len mod 64) mod 64) 0 @ big_endian 8 (8 * int len)"

definition message_bytes :: "string \<Rightarrow> int list" where
  "message_bytes s = map of_char s @ sha_padding (length s)"

text \<open>The bytes as words of four.\<close>

fun to_words :: "int list \<Rightarrow> w32 list" where
  "to_words (a # b # c # d # bs) =
     (push_bit 24 (byte_word a) OR push_bit 16 (byte_word b) OR push_bit 8 (byte_word c) OR byte_word d) # to_words bs"
| "to_words _ = []"

section \<open>One block\<close>

text \<open>
  The standard takes its constants from the first primes: the first 32 bits behind the point of
  their square roots for the initial hash, of their cube roots for the rounds. \<open>root_bits k m x b r\<close>
  finds the greatest \<open>k\<close>-th root not above \<open>x\<close>, bit by bit, from an approximation \<open>r\<close> that is less
  than \<open>2 ^ b\<close> too low.
\<close>

fun root_bits :: "nat \<Rightarrow> int \<Rightarrow> nat \<Rightarrow> int \<Rightarrow> int" where
  "root_bits k x 0 r = r"
| "root_bits k x (Suc b) r = root_bits k x b (if (r + 2 ^ b) ^ k \<le> x then r + 2 ^ b else r)"

lemma root_bits_correct:
  assumes "r ^ k \<le> x" "x < (r + 2 ^ b) ^ k"
  shows "root_bits k x b r ^ k \<le> x \<and> x < (root_bits k x b r + 1) ^ k"
  using assms
proof (induction b arbitrary: r)
  case (Suc b)
  have "r + 2 ^ b + 2 ^ b = r + 2 ^ Suc b" by simp
  then have "x < (r + 2 ^ b + 2 ^ b) ^ k" using Suc.prems(2) by (simp only:)
  then have "x < ((if (r + 2 ^ b) ^ k \<le> x then r + 2 ^ b else r) + 2 ^ b) ^ k" by simp
  moreover have "(if (r + 2 ^ b) ^ k \<le> x then r + 2 ^ b else r) ^ k \<le> x" using Suc.prems(1) by simp
  ultimately show ?case unfolding root_bits.simps by (rule Suc.IH [rotated])
qed simp

definition root_fraction :: "nat \<Rightarrow> int \<Rightarrow> w32" where
  "root_fraction k p = word_of_int (root_bits k (p * 2 ^ (32 * k)) 40 0)"

lemma root_fraction_floor:
  assumes "1 < k" "0 \<le> p" "p < 2 ^ 9"
  shows "\<exists>r. r ^ k \<le> p * 2 ^ (32 * k) \<and> p * 2 ^ (32 * k) < (r + 1) ^ k \<and> root_fraction k p = word_of_int r"
proof -
  have "p * 2 ^ (32 * k) < 2 ^ 9 * 2 ^ (32 * k)" using assms(3) by simp
  also have "\<dots> \<le> 2 ^ (8 * k) * 2 ^ (32 * k)" using assms(1) by (intro mult_right_mono power_increasing) simp_all
  also have "\<dots> = (2 ^ 40) ^ k" by (simp only: power_mult [symmetric] power_add [symmetric]) simp
  finally have "p * 2 ^ (32 * k) < (0 + 2 ^ 40) ^ k" by simp
  moreover have "0 ^ k \<le> p * 2 ^ (32 * k)" using assms(1,2) by (simp add: zero_power)
  ultimately show ?thesis
    unfolding root_fraction_def using root_bits_correct [of 0 k "p * 2 ^ (32 * k)" 40] by blast
qed

definition small_primes :: "int list" where
  "small_primes = filter (\<lambda>n. \<forall>d \<in> set [2..18]. d < n \<longrightarrow> n mod d \<noteq> 0) [2..311]"

lemma length_small_primes: "length small_primes = 64"
  by code_simp

definition initial_hash :: "w32 list" where
  "initial_hash = map (root_fraction 2) (take 8 small_primes)"

definition round_constants :: "w32 list" where
  "round_constants = map (root_fraction 3) small_primes"

definition rotate_right :: "nat \<Rightarrow> w32 \<Rightarrow> w32" where
  "rotate_right n x = drop_bit n x OR push_bit (32 - n) x"

definition small_sigma0 :: "w32 \<Rightarrow> w32" where
  "small_sigma0 x = rotate_right 7 x XOR rotate_right 18 x XOR drop_bit 3 x"

definition small_sigma1 :: "w32 \<Rightarrow> w32" where
  "small_sigma1 x = rotate_right 17 x XOR rotate_right 19 x XOR drop_bit 10 x"

definition big_sigma0 :: "w32 \<Rightarrow> w32" where
  "big_sigma0 x = rotate_right 2 x XOR rotate_right 13 x XOR rotate_right 22 x"

definition big_sigma1 :: "w32 \<Rightarrow> w32" where
  "big_sigma1 x = rotate_right 6 x XOR rotate_right 11 x XOR rotate_right 25 x"

definition choose_bits :: "w32 \<Rightarrow> w32 \<Rightarrow> w32 \<Rightarrow> w32" where
  "choose_bits x y z = (x AND y) XOR (NOT x AND z)"

definition majority_bits :: "w32 \<Rightarrow> w32 \<Rightarrow> w32 \<Rightarrow> w32" where
  "majority_bits x y z = (x AND y) XOR (x AND z) XOR (y AND z)"

text \<open>The sixteen words of a block are a window that each round moves on by one word.\<close>

definition next_window :: "w32 list \<Rightarrow> w32 list" where
  "next_window w = tl w @ [small_sigma1 (w ! 14) + w ! 9 + small_sigma0 (w ! 1) + w ! 0]"

fun sha_rounds :: "w32 list \<Rightarrow> w32 list \<Rightarrow> w32 list \<Rightarrow> w32 list" where
  "sha_rounds (k # ks) w [a, b, c, d, e, f, g, h] =
     (let t1 = h + big_sigma1 e + choose_bits e f g + k + w ! 0;
          t2 = big_sigma0 a + majority_bits a b c
      in sha_rounds ks (next_window w) [t1 + t2, a, b, c, d + t1, e, f, g])"
| "sha_rounds _ w hash = hash"

definition sha_block :: "w32 list \<Rightarrow> w32 list \<Rightarrow> w32 list" where
  "sha_block hash w = map2 (+) hash (sha_rounds round_constants w hash)"

fun sha_blocks :: "nat \<Rightarrow> w32 list \<Rightarrow> w32 list \<Rightarrow> w32 list" where
  "sha_blocks 0 hash ws = hash"
| "sha_blocks (Suc n) hash ws = sha_blocks n (sha_block hash (take 16 ws)) (drop 16 ws)"

section \<open>The digest\<close>

definition hex_char :: "int \<Rightarrow> char" where
  "hex_char n = ''0123456789abcdef'' ! nat (n mod 16)"

definition hex_byte :: "int \<Rightarrow> string" where
  "hex_byte n = [hex_char (n div 16), hex_char n]"

definition hex_word :: "w32 \<Rightarrow> string" where
  "hex_word w = concat (map hex_byte (big_endian 4 (uint w)))"

definition sha256 :: "string \<Rightarrow> string" where
  "sha256 content =
     (let ws = to_words (message_bytes content)
      in concat (map hex_word (sha_blocks (length ws div 16) initial_hash ws)))"

section \<open>The length of the digest\<close>

lemma length_big_endian: "length (big_endian k n) = k"
  by (induction k n rule: big_endian.induct) simp_all

lemma length_hex_word: "length (hex_word w) = 8"
proof -
  have "length (concat (map hex_byte ns)) = 2 * length ns" for ns
    by (induction ns) (simp_all add: hex_byte_def)
  then show ?thesis by (simp add: hex_word_def length_big_endian)
qed

lemma length_sha_rounds: "length (sha_rounds ks w hash) = length hash"
  by (induction ks w hash rule: sha_rounds.induct) (simp_all add: Let_def)

lemma length_sha_blocks: "length (sha_blocks n hash ws) = length hash"
  by (induction n hash ws rule: sha_blocks.induct) (simp_all add: sha_block_def length_sha_rounds)

lemma length_sha256: "length (sha256 content) = 64"
proof -
  have "length (concat (map hex_word hs)) = 8 * length hs" for hs
    by (induction hs) (simp_all add: length_hex_word)
  then show ?thesis by (simp add: sha256_def Let_def length_sha_blocks initial_hash_def length_small_primes)
qed

text \<open>The padded message is a whole number of blocks.\<close>

lemma length_message_bytes: "length (message_bytes s) mod 64 = 0"
proof -
  obtain q r where n: "length s = 64 * q + r" and r: "r < 64"
    by (metis mod_less_divisor mult_div_mod_eq zero_less_numeral)
  have "(119 - r) mod 64 = (if r \<le> 55 then 55 - r else 119 - r)"
    using r by (auto simp: mod_if)
  then have "length (message_bytes s) = 64 * (q + (if r \<le> 55 then 1 else 2))"
    using r n by (simp add: message_bytes_def sha_padding_def length_big_endian)
  then show ?thesis by (metis mod_mult_self1_is_0)
qed

end
