(* ===== verification/Firmware.thy ===== *)
theory Firmware
  imports Auth Py_Hashlib
begin

text \<open>
  \<^verbatim>\<open>services/firmware.py\<close> and \<^verbatim>\<open>api/firmware.py\<close>: uploading a binary, which writes a file and then a
  row with its checksum, and the lookups. Besides the database the operations pass the store of
  written files along, a map from path texts to contents. The lemmas show that the file of every row has the
  row's checksum as long as versions are plain names, and that two version strings that name the
  same directory break this.
\<close>

type_synonym files = "string \<Rightarrow> string option"

section \<open>The service\<close>

text \<open>\<^verbatim>\<open>Path(settings.FIRMWARE_STORAGE_PATH) / version / "firmware.bin"\<close>\<close>

definition binary_path :: "ext \<Rightarrow> string \<Rightarrow> string" where
  "binary_path E version =
     path_str (path_join (path_join (FIRMWARE_STORAGE_PATH (cfg E)) version) ''firmware.bin'')"

definition get_by_version :: "string \<Rightarrow> db \<Rightarrow> firmware_version option" where
  "get_by_version version db = lookup_key f_version version (firmware_versions db)"

definition get_all_firmware :: "ext \<Rightarrow> db \<Rightarrow> firmware_version list" where
  "get_all_firmware E db = sort_key (\<lambda>f. - f_created_at f) (scan E (firmware_versions db))"

definition upload ::
  "ext \<Rightarrow> string \<Rightarrow> string \<Rightarrow> string \<Rightarrow> db \<Rightarrow> files \<Rightarrow> firmware_version res \<times> db \<times> files" where
  "upload E version content release_notes db fs =
     (let path = binary_path E version in
      if write_raises E path then (Inl FileError, db, fs)
      else
        let fs1 = fs(path \<mapsto> content);
            (r, db1) = insert_firmware
              \<lparr> f_id = 0, f_version = version, f_binary_path = path, f_checksum = sha256 content,
                f_release_notes = Some release_notes, f_created_at = pg_now E 0 \<rparr> db
        in (r, db1, fs1))"

section \<open>The endpoints\<close>

definition upload_firmware ::
  "ext \<Rightarrow> string option \<Rightarrow> string \<Rightarrow> string \<Rightarrow> string \<Rightarrow> db \<Rightarrow> files \<Rightarrow> firmware_version res \<times> db \<times> files" where
  "upload_firmware E token version release_notes content db fs =
     (case route_user E (Some [''admin'', ''operator'']) token db of
        Inl e \<Rightarrow> (Inl e, db, fs)
      | Inr user \<Rightarrow>
          if get_by_version version db \<noteq> None
          then (Inl (HTTPException 409 ''Version already exists''), db, fs)
          else if content = [] then (Inl (HTTPException 400 ''Empty file''), db, fs)
          else
            (case upload E version content release_notes db fs of
               (Inl e, db1, fs1) \<Rightarrow> (Inl e, db1, fs1)
             | (Inr fw, db1, fs1) \<Rightarrow>
                 let r = returning fw
                   (audit_service_log E 1 (map_option u_id user) ''upload'' ''firmware''
                      (Some (JObj [(''version'', JStr version), (''size_bytes'', JInt (int (length content))),
                                   (''checksum'', JStr (f_checksum fw))])) db1)
                 in (fst r, snd r, fs1)))"

definition list_firmware :: "ext \<Rightarrow> string option \<Rightarrow> db \<Rightarrow> firmware_version list res" where
  "list_firmware E token db =
     (case any_auth E token db of Inl e \<Rightarrow> Inl e | Inr _ \<Rightarrow> Inr (get_all_firmware E db))"

definition get_firmware :: "ext \<Rightarrow> string option \<Rightarrow> string \<Rightarrow> db \<Rightarrow> firmware_version res" where
  "get_firmware E token version db =
     (case any_auth E token db of
        Inl e \<Rightarrow> Inl e
      | Inr _ \<Rightarrow>
          (case get_by_version version db of
             None \<Rightarrow> Inl (HTTPException 404 ''Version not found'')
           | Some fw \<Rightarrow> Inr fw))"

section \<open>Paths of binaries\<close>

lemma firmware_bin_plain [simp]: "plain_name ''firmware.bin''"
  by (simp add: plain_name_def)

lemma binary_path_inject:
  assumes "plain_name v" "plain_name w" "binary_path E v = binary_path E w"
  shows "v = w"
proof -
  let ?p = "\<lambda>v. path_join (path_join (FIRMWARE_STORAGE_PATH (cfg E)) v) ''firmware.bin''"
  have parts: "path_parts (?p v) = path_parts (FIRMWARE_STORAGE_PATH (cfg E)) @ [v, ''firmware.bin'']"
    if "plain_name v" for v
    using that by (simp add: path_parts_join)
  have "path_parts (?p v) = path_parts (?p w)"
    using assms by (intro path_str_inject) (simp_all add: binary_path_def path_root_join parts)
  then show ?thesis by (simp add: parts assms(1,2))
qed

section \<open>Rows and files\<close>

text \<open>The file a row points to exists and has the row's checksum.\<close>

definition binary_matches :: "files \<Rightarrow> firmware_version \<Rightarrow> bool" where
  "binary_matches fs f \<longleftrightarrow> (\<exists>content. fs (f_binary_path f) = Some content \<and> sha256 content = f_checksum f)"

definition plain_row :: "ext \<Rightarrow> firmware_version \<Rightarrow> bool" where
  "plain_row E f \<longleftrightarrow> plain_name (f_version f) \<and> f_binary_path f = binary_path E (f_version f)"

definition storage_consistent :: "ext \<Rightarrow> db \<Rightarrow> files \<Rightarrow> bool" where
  "storage_consistent E db fs \<longleftrightarrow> (\<forall>f \<in> set (firmware_versions db). plain_row E f \<and> binary_matches fs f)"

lemma upload_cases:
  obtains (raises) "upload E v c n db fs = (Inl FileError, db, fs)"
  | (refused) e db1 where "upload E v c n db fs = (Inl e, db1, fs(binary_path E v \<mapsto> c))"
      "firmware_versions db1 = firmware_versions db"
  | (stored) fw db1 where "upload E v c n db fs = (Inr fw, db1, fs(binary_path E v \<mapsto> c))"
      "firmware_versions db1 = firmware_versions db @ [fw]" "f_version fw = v"
      "f_binary_path fw = binary_path E v" "f_checksum fw = sha256 c"
proof (cases "write_raises E (binary_path E v)")
  case True
  then show ?thesis by (intro raises) (simp add: upload_def)
next
  case False
  let ?row = "\<lparr> f_id = 0, f_version = v, f_binary_path = binary_path E v, f_checksum = sha256 c,
                f_release_notes = Some n, f_created_at = pg_now E 0 \<rparr>"
  have up: "upload E v c n db fs =
      (fst (insert_firmware ?row db), snd (insert_firmware ?row db), fs(binary_path E v \<mapsto> c))"
    using False by (simp add: upload_def Let_def split: prod.split)
  show ?thesis
  proof (cases "fst (insert_firmware ?row db)")
    case (Inl e)
    moreover have "firmware_versions (snd (insert_firmware ?row db)) = firmware_versions db"
      using Inl by (auto simp: insert_firmware_def Let_def split: if_splits)
    ultimately show ?thesis using up by (intro refused [of e "snd (insert_firmware ?row db)"]) simp_all
  next
    case (Inr fw)
    moreover have "fw = ?row\<lparr>f_id := seq_firmware (sequences db)\<rparr>"
      "firmware_versions (snd (insert_firmware ?row db)) = firmware_versions db @ [fw]"
      using Inr by (auto simp: insert_firmware_def Let_def split: if_splits)
    ultimately show ?thesis using up by (intro stored [of fw]) simp_all
  qed
qed

lemma upload_files:
  "\<not> write_raises E (binary_path E v) \<Longrightarrow> snd (snd (upload E v c n db fs)) = fs(binary_path E v \<mapsto> c)"
  by (simp add: upload_def Let_def split: prod.split)

lemma upload_consistent:
  assumes "storage_consistent E db fs" "plain_name v" "v \<notin> version_keys db"
  shows "storage_consistent E (fst (snd (upload E v c n db fs))) (snd (snd (upload E v c n db fs)))"
proof -
  have keep: "plain_row E f \<and> binary_matches (fs(binary_path E v \<mapsto> c)) f" if "f \<in> set (firmware_versions db)" for f
  proof -
    have f: "plain_row E f" "binary_matches fs f"
      using assms(1) that by (auto simp: storage_consistent_def)
    have "f_version f \<noteq> v" using that assms(3) by auto
    then have "f_binary_path f \<noteq> binary_path E v"
      using f(1) assms(2) binary_path_inject by (auto simp: plain_row_def)
    with f show ?thesis by (simp add: binary_matches_def)
  qed
  show ?thesis
  proof (cases rule: upload_cases [of E v c n db fs])
    case raises
    then show ?thesis using assms(1) by simp
  next
    case refused
    then show ?thesis using keep by (simp add: storage_consistent_def)
  next
    case (stored fw db1)
    then have "plain_row E fw \<and> binary_matches (fs(binary_path E v \<mapsto> c)) fw"
      using assms(2) by (simp add: plain_row_def binary_matches_def)
    with stored(1,2) keep show ?thesis by (auto simp: storage_consistent_def)
  qed
qed

lemma upload_firmware_effect:
  "fst (snd (upload_firmware E token v n c db fs)) = db \<and> snd (snd (upload_firmware E token v n c db fs)) = fs \<or>
   v \<notin> version_keys db \<and>
   firmware_versions (fst (snd (upload_firmware E token v n c db fs))) = firmware_versions (fst (snd (upload E v c n db fs))) \<and>
   snd (snd (upload_firmware E token v n c db fs)) = snd (snd (upload E v c n db fs))"
  by (auto simp: upload_firmware_def get_by_version_def lookup_key_None_iff Let_def split: sum.split prod.split)

text \<open>
  C18: an upload keeps rows and files together: if every stored version is a plain name (one path
  component) whose file has the row's checksum, then after uploading a plain version, whatever the
  outcome, this still holds, the new row included.
\<close>

theorem upload_firmware_consistent:
  assumes "storage_consistent E db fs" "plain_name version"
  shows "storage_consistent E (fst (snd (upload_firmware E token version rn content db fs)))
                              (snd (snd (upload_firmware E token version rn content db fs)))"
  using upload_firmware_effect [of E token version rn content db fs]
    upload_consistent [OF assms, of content rn] assms(1)
  by (auto simp: storage_consistent_def)

theorem upload_firmware_consistent_witness:
  "storage_consistent demo_ext
     (fst (snd (upload_firmware demo_ext (sample_token ''admin'') ''2.0'' [] ''bin'' (sample_db\<lparr>firmware_versions := []\<rparr>) Map.empty)))
     (snd (snd (upload_firmware demo_ext (sample_token ''admin'') ''2.0'' [] ''bin'' (sample_db\<lparr>firmware_versions := []\<rparr>) Map.empty)))"
  by (rule upload_firmware_consistent) (simp_all add: storage_consistent_def plain_name_def)

text \<open>
  A version string is used as a path without a check, so two versions the database tells apart
  can share a file: uploading \<open>1.0/\<close> replaces the binary of \<open>1.0\<close>, whose row keeps the old checksum.
\<close>

theorem upload_alias_overwrites:
  assumes "FIRMWARE_STORAGE_PATH (cfg E) = ''/data/firmware''" "\<not> write_raises E (binary_path E ''1.0'')"
    and "f_version f = ''1.0''" "plain_row E f" "sha256 content \<noteq> f_checksum f"
  shows "\<not> binary_matches (snd (snd (upload E ''1.0/'' content rn db fs))) f"
proof -
  have "binary_path E ''1.0/'' = ''/data/firmware/1.0/firmware.bin''"
    "binary_path E ''1.0'' = ''/data/firmware/1.0/firmware.bin''"
    by (simp_all add: binary_path_def assms(1) path_join_def path_str_def path_root_def path_parts_def
        startswith_def endswith_def)
  then show ?thesis
    using upload_files [of E "''1.0/''" content rn db fs] assms(2-5)
    by (simp add: binary_matches_def plain_row_def)
qed

theorem upload_alias_overwrites_witness:
  "\<not> binary_matches
     (snd (snd (upload (demo_ext\<lparr>cfg := default_settings\<lparr>FIRMWARE_STORAGE_PATH := ''/data/firmware''\<rparr>\<rparr>)
        ''1.0/'' ''new'' [] empty_db Map.empty)))
     ((sample_firmware 1 ''1.0'')\<lparr>f_binary_path := ''/data/firmware/1.0/firmware.bin''\<rparr>)"
proof -
  have "length (sha256 ''new'') \<noteq> length ''abc''" by (simp add: length_sha256)
  then have "sha256 ''new'' \<noteq> ''abc''" by metis
  then show ?thesis
  by (intro upload_alias_overwrites)
     (simp_all add: sample_firmware_def plain_row_def plain_name_def binary_path_def path_join_def path_str_def
       path_root_def path_parts_def startswith_def endswith_def)
qed

lemma db_wf_upload: "db_wf db \<Longrightarrow> db_wf (fst (snd (upload E v c n db fs)))"
  by (auto simp: upload_def Let_def split: prod.split dest: db_wf_insert_firmware)

lemma db_wf_upload_firmware [wf_intros]:
  assumes "db_wf db"
  shows "db_wf (fst (snd (upload_firmware E token v n c db fs)))"
  using db_wf_upload [OF assms, of E v c n fs] assms
  by (auto simp: upload_firmware_def Let_def split: sum.split prod.split)

end
