(* ===== verification/Row_History.thy ===== *)
theory Row_History
  imports Audit_Log
begin

text \<open>
  How the rows of a table may evolve. The tables that record what happened (audit entries, OTA
  events, scheduled rollouts, provisioning jobs) are never deleted from: a later state has the
  earlier rows, in place, each changed only as its own step relation allows, and new rows behind
  them. The locale states what such a step relation must satisfy and derives the laws of the
  history once; each component interprets it with the step relation of its rows.
\<close>

definition history :: "('r \<Rightarrow> 'r \<Rightarrow> bool) \<Rightarrow> 'r list \<Rightarrow> 'r list \<Rightarrow> bool" where
  "history step rows rows' \<longleftrightarrow> (\<exists>old new. rows' = old @ new \<and> list_all2 step rows old)"

locale row_history =
  fixes step :: "'r \<Rightarrow> 'r \<Rightarrow> bool"
  assumes step_refl: "step r r"
    and step_trans: "step r s \<Longrightarrow> step s t \<Longrightarrow> step r t"
begin

lemma refl [simp]: "history step rows rows"
  unfolding history_def by (intro exI [of _ rows] exI [of _ "[]"]) (simp add: list_all2_refl step_refl)

lemma trans:
  assumes "history step rows rows'" "history step rows' rows''"
  shows "history step rows rows''"
proof -
  obtain old new where 1: "rows' = old @ new" "list_all2 step rows old"
    using assms(1) by (auto simp: history_def)
  obtain old' new' where 2: "rows'' = old' @ new'" "list_all2 step (old @ new) old'"
    using assms(2) 1 by (auto simp: history_def)
  then obtain a b where 3: "old' = a @ b" "list_all2 step old a"
    by (auto simp: list_all2_append1)
  have "list_all2 step rows a"
    using step_trans 1(2) 3(2) by (rule list_all2_trans)
  then show ?thesis using 2(1) 3(1) by (auto simp: history_def)
qed

lemma append: "history step rows (rows @ new)"
  unfolding history_def by (intro exI [of _ rows] exI [of _ new]) (simp add: list_all2_refl step_refl)

lemma update_where:
  assumes "\<And>r. r \<in> set rows \<Longrightarrow> P r \<Longrightarrow> step r (f r)"
  shows "history step rows (update_where P f rows)"
  unfolding history_def using assms
  by (intro exI [of _ "update_where P f rows"] exI [of _ "[]"])
     (auto simp: update_where_def list_all2_map2 list_all2_same step_refl)

lemma replace_row:
  assumes "distinct (map key rows)" "r \<in> set rows" "key r = key new" "step r new"
  shows "history step rows (replace_row key new rows)"
  unfolding replace_row_def
proof (rule update_where)
  fix r' assume "r' \<in> set rows" "key r' = key new"
  then have "r' = r"
    using assms(1-3) by (metis distinct_map inj_onD)
  then show "step r' new" using assms(4) by simp
qed

lemma preserves:
  assumes "history step rows rows'" "r \<in> set rows"
  shows "\<exists>r' \<in> set rows'. step r r'"
proof -
  obtain old new i where "rows' = old @ new" "list_all2 step rows old" "i < length rows" "rows ! i = r"
    using assms by (auto simp: history_def in_set_conv_nth)
  then show ?thesis
    by (metis UnI1 list_all2_lengthD list_all2_nthD nth_mem set_append)
qed

end

text \<open>The audit log: an entry, once written, stays as it is.\<close>

interpretation audit_history: row_history "(=)"
  by unfold_locales auto

end
