(* ===== verification/Ota_Events.thy ===== *)
theory Ota_Events
  imports Row_History
begin

text \<open>
  The life of an OTA event (\<^verbatim>\<open>models/ota_event.py\<close>): it is active while its status is pending,
  downloading or flashing, and final afterwards. \<open>event_step\<close> is what any operation may do to the
  row of an event: its id, device, versions and start never change, and a final event not at all.
  The device handlers, the OTA service and the scheduler all change events through the statements
  below.
\<close>

definition active_statuses :: "string list" where
  "active_statuses = [''pending'', ''downloading'', ''flashing'']"

definition event_active :: "ota_event \<Rightarrow> bool" where
  "event_active e \<longleftrightarrow> e_status e \<in> set active_statuses"

definition event_step :: "ota_event \<Rightarrow> ota_event \<Rightarrow> bool" where
  "event_step e e' \<longleftrightarrow>
     e_id e' = e_id e \<and> e_device_id e' = e_device_id e \<and> e_from_version e' = e_from_version e \<and>
     e_to_version e' = e_to_version e \<and> e_started_at e' = e_started_at e \<and> (\<not> event_active e \<longrightarrow> e' = e)"

interpretation event_history: row_history event_step
  by unfold_locales (auto simp: event_step_def)

abbreviation events_evolve :: "db \<Rightarrow> db \<Rightarrow> bool" where
  "events_evolve db db' \<equiv> history event_step (ota_events db) (ota_events db')"

text \<open>\<^verbatim>\<open>update(Device).where(device_id == did).values(firmware_version=v)\<close> in a transaction that started at \<open>t\<close>.\<close>

definition update_firmware :: "datetime \<Rightarrow> string \<Rightarrow> string \<Rightarrow> db \<Rightarrow> db res" where
  "update_firmware t did v db =
     (if \<not> fits 32 v then Inl DBAPIError
      else Inr (db\<lparr>devices := update_where (\<lambda>d. d_device_id d = did)
                    (\<lambda>d. d\<lparr>d_firmware_version := Some v, d_updated_at := t\<rparr>) (devices db)\<rparr>))"

lemma db_wf_update_firmware [wf_intros]:
  assumes "db_wf db" "update_firmware t did v db = Inr db'"
  shows "db_wf db'"
proof -
  have "fits 32 v" and db': "db' = db\<lparr>devices := update_where (\<lambda>d. d_device_id d = did)
          (\<lambda>d. d\<lparr>d_firmware_version := Some v, d_updated_at := t\<rparr>) (devices db)\<rparr>"
    using assms(2) by (auto simp: update_firmware_def split: if_splits)
  then show ?thesis
    unfolding db' by (intro db_wf_update_devices [OF assms(1)]) (auto simp: device_ok_def fits_opt_def)
qed

lemma update_firmware_returns [simp]:
  "fits 32 v \<Longrightarrow> update_firmware t did v db =
     Inr (db\<lparr>devices := update_where (\<lambda>d. d_device_id d = did)
            (\<lambda>d. d\<lparr>d_firmware_version := Some v, d_updated_at := t\<rparr>) (devices db)\<rparr>)"
  by (simp add: update_firmware_def)

lemma events_rows:
  assumes "db_wf db"
  shows "distinct (map e_id (ota_events db))"
    and "e \<in> set (ota_events db) \<Longrightarrow> event_ok e \<and> e_device_id e \<in> device_keys db"
  using db_wfD(9) [OF assms] by (auto simp: events_wf_def serial_wf_def list_all_iff fk_def)

text \<open>Writing a new status into an active event succeeds and is a step of its history.\<close>

lemma flush_event_returns:
  assumes "db_wf db" "event \<in> set (ota_events db)" "fits 16 s"
  shows "flush_event (event\<lparr>e_status := s, e_completed_at := c\<rparr>) db =
           Inr (db\<lparr>ota_events := replace_row e_id (event\<lparr>e_status := s, e_completed_at := c\<rparr>) (ota_events db)\<rparr>)"
  using events_rows(2) [OF assms(1,2)] assms(3) by (simp add: flush_event_def event_ok_def)

lemma events_evolve_replace:
  assumes "db_wf db" "event \<in> set (ota_events db)" "event_active event"
  shows "history event_step (ota_events db)
           (replace_row e_id (event\<lparr>e_status := s, e_completed_at := c\<rparr>) (ota_events db))"
  by (rule event_history.replace_row [OF events_rows(1) [OF assms(1)] assms(2)])
     (use assms(3) in \<open>simp_all add: event_step_def\<close>)

end
