(* ===== verification/Ota.thy ===== *)
theory Ota
  imports Firmware Ota_Events
begin

text \<open>
  \<^verbatim>\<open>services/ota.py\<close> and \<^verbatim>\<open>api/ota.py\<close>: selecting the devices of a rollout, creating one event per
  device and publishing one command per device, the dry run, the campaign history, and the abort.
  The lemmas show that the selection is exactly the documented set, that a rollout in a database
  that satisfies the schema always records its events, that preview and rollout agree, and that the
  abort cancels exactly the active events of its version.
\<close>

section \<open>Selecting devices\<close>

text \<open>
  The WHERE clause on a device row. \<^verbatim>\<open>firmware_version != target\<close> is not true of NULL, so a device
  that has never reported a version is left out.
\<close>

definition eligible :: "string \<Rightarrow> device \<Rightarrow> bool" where
  "eligible target_version d \<longleftrightarrow>
     d_status d \<in> {''alive'', ''unknown''} \<and>
     (case d_firmware_version d of None \<Rightarrow> False | Some v \<Rightarrow> v \<noteq> target_version)"

text \<open>The rows of the two joins, one for each matching home and membership.\<close>

definition join_community :: "string \<Rightarrow> db \<Rightarrow> device list \<Rightarrow> device list" where
  "join_community community db ds =
     concat (map (\<lambda>d. concat (map (\<lambda>h. map (\<lambda>_. d) (filter (\<lambda>(hid, cid). hid = h_home_id h \<and> cid = community) (home_community db)))
                               (filter (\<lambda>h. d_home_id d = Some (h_home_id h)) (homes db)))) ds)"

text \<open>\<^verbatim>\<open>LIMIT n\<close>: the driver refuses a number that is not a 32-bit integer, the database a negative one.\<close>

definition limit_rows :: "int \<Rightarrow> 'r list \<Rightarrow> 'r list res" where
  "limit_rows n rows = (if int4 n \<and> 0 \<le> n then Inr (take (nat n) rows) else Inl DBAPIError)"

definition select_devices ::
  "ext \<Rightarrow> string \<Rightarrow> int \<Rightarrow> string list option \<Rightarrow> string option \<Rightarrow> string \<Rightarrow> db \<Rightarrow> device list res" where
  "select_devices E strategy canary_count target_devices target_community target_version db =
     (let base = filter (eligible target_version) (devices db);
          rows = (case target_devices of
                    Some (i # is) \<Rightarrow> filter (\<lambda>d. d_device_id d \<in> set (i # is)) base
                  | _ \<Rightarrow> (case target_community of
                            Some (c # cs) \<Rightarrow> join_community (c # cs) db base
                          | _ \<Rightarrow> base))
      in if strategy = ''canary'' then limit_rows canary_count (scan E rows) else Inr (scan E rows))"

section \<open>Starting a rollout\<close>

fun create_events :: "ext \<Rightarrow> nat \<Rightarrow> string \<Rightarrow> device list \<Rightarrow> db \<Rightarrow> ota_event list db_res" where
  "create_events E k version [] db = (Inr [], db)"
| "create_events E k version (d # ds) db =
     (case d_firmware_version d of
        None \<Rightarrow> (Inl IntegrityError, db)
      | Some v \<Rightarrow>
          (case insert_event
                  \<lparr> e_id = 0, e_device_id = d_device_id d, e_from_version = v, e_to_version = version,
                    e_status = ''pending'', e_started_at = pg_now E k, e_completed_at = None \<rparr> db of
             (Inl x, db1) \<Rightarrow> (Inl x, db1)
           | (Inr e, db1) \<Rightarrow>
               (case create_events E k version ds db1 of
                  (Inl x, db2) \<Rightarrow> (Inl x, db2)
                | (Inr es, db2) \<Rightarrow> (Inr (e # es), db2))))"

definition ota_topic :: "string \<Rightarrow> string" where
  "ota_topic device_id = ''fleet/'' @ device_id @ ''/ota/cmd''"

definition ota_command :: "ext \<Rightarrow> string \<Rightarrow> string \<Rightarrow> string" where
  "ota_command E version checksum =
     dumps_obj [(''version'', version),
                (''url'', rstrip_by (\<lambda>c. c = CHR ''/'') (SERVER_URL (cfg E)) @ ''/firmware/'' @ version @ ''/firmware.bin''),
                (''checksum'', checksum)]"

text \<open>The messages published, up to the first that raises.\<close>

fun publish_commands :: "ext \<Rightarrow> string \<Rightarrow> string \<Rightarrow> device list \<Rightarrow> unit res \<times> (string \<times> string) list" where
  "publish_commands E version checksum [] = (Inr (), [])"
| "publish_commands E version checksum (d # ds) =
     (let topic = ota_topic (d_device_id d) in
      if publish_raises E topic then (Inl MqttError, [])
      else case publish_commands E version checksum ds of
             (r, ms) \<Rightarrow> (r, (topic, ota_command E version checksum) # ms))"

record rollout_request =
  q_target_version :: string
  q_strategy :: string
  q_canary_count :: int
  q_target_devices :: "string list option"
  q_target_community :: "string option"

definition request_devices :: "ext \<Rightarrow> rollout_request \<Rightarrow> db \<Rightarrow> device list res" where
  "request_devices E q db =
     select_devices E (q_strategy q) (q_canary_count q) (q_target_devices q) (q_target_community q)
       (q_target_version q) db"

text \<open>
  \<open>k\<close> numbers the transaction of the enclosing call. The result carries the messages published; the
  events are committed before the first of them.
\<close>

definition start_rollout ::
  "ext \<Rightarrow> nat \<Rightarrow> rollout_request \<Rightarrow> db \<Rightarrow> ota_event list res \<times> db \<times> (string \<times> string) list" where
  "start_rollout E k q db =
     (case get_by_version (q_target_version q) db of
        None \<Rightarrow> (Inl (ValueError (''Firmware version '' @ q_target_version q @ '' not found'')), db, [])
      | Some firmware \<Rightarrow>
          (case request_devices E q db of
             Inl e \<Rightarrow> (Inl e, db, [])
           | Inr [] \<Rightarrow> (Inr [], db, [])
           | Inr (d # ds) \<Rightarrow>
               (case create_events E k (q_target_version q) (d # ds) db of
                  (Inl e, db1) \<Rightarrow> (Inl e, rollback db db1, [])
                | (Inr events, db1) \<Rightarrow>
                    (case publish_commands E (q_target_version q) (f_checksum firmware) (d # ds) of
                       (Inl e, ms) \<Rightarrow> (Inl e, db1, ms)
                     | (Inr _, ms) \<Rightarrow> (Inr events, db1, ms)))))"

section \<open>Preview, history, abort\<close>

fun bump :: "string \<Rightarrow> (string \<times> nat) list \<Rightarrow> (string \<times> nat) list" where
  "bump k [] = [(k, 1)]"
| "bump k ((k', n) # kvs) = (if k = k' then (k', n + 1) # kvs else (k', n) # bump k kvs)"

definition or_default :: "string option \<Rightarrow> string \<Rightarrow> string" where
  "or_default so dflt = (case so of Some (c # cs) \<Rightarrow> c # cs | _ \<Rightarrow> dflt)"

definition tally :: "(device \<Rightarrow> string) \<Rightarrow> device list \<Rightarrow> (string \<times> nat) list" where
  "tally f ds = foldl (\<lambda>acc d. bump (f d) acc) [] ds"

record rollout_preview =
  pv_target_version :: string
  pv_strategy :: string
  pv_total :: nat
  pv_by_status :: "(string \<times> nat) list"
  pv_by_current_version :: "(string \<times> nat) list"
  pv_by_home :: "(string \<times> nat) list"
  pv_device_ids :: "string list"

definition preview_rollout :: "ext \<Rightarrow> rollout_request \<Rightarrow> db \<Rightarrow> rollout_preview res" where
  "preview_rollout E q db =
     (case get_by_version (q_target_version q) db of
        None \<Rightarrow> Inl (ValueError (''Firmware version '' @ q_target_version q @ '' not found''))
      | Some firmware \<Rightarrow>
          (case request_devices E q db of
             Inl e \<Rightarrow> Inl e
           | Inr ds \<Rightarrow>
               Inr \<lparr> pv_target_version = q_target_version q, pv_strategy = q_strategy q, pv_total = length ds,
                     pv_by_status = tally (\<lambda>d. or_default (Some (d_status d)) ''unknown'') ds,
                     pv_by_current_version = tally (\<lambda>d. or_default (d_firmware_version d) ''unknown'') ds,
                     pv_by_home = tally (\<lambda>d. or_default (d_home_id d) ''(unassigned)'') ds,
                     pv_device_ids = map d_device_id ds \<rparr>))"

record campaign =
  cp_to_version :: string
  cp_started_at :: datetime
  cp_total :: nat
  cp_success :: nat
  cp_failed :: nat
  cp_in_flight :: nat

definition minute_bucket :: "datetime \<Rightarrow> datetime" where
  "minute_bucket t = t - t mod minutes 1"

definition campaign_key :: "ota_event \<Rightarrow> string \<times> datetime" where
  "campaign_key e = (e_to_version e, minute_bucket (e_started_at e))"

definition campaign_of :: "ota_event list \<Rightarrow> string \<times> datetime \<Rightarrow> campaign" where
  "campaign_of es key =
     (let g = filter (\<lambda>e. campaign_key e = key) es in
      \<lparr> cp_to_version = fst key, cp_started_at = snd key, cp_total = length g,
        cp_success = length (filter (\<lambda>e. e_status e = ''success'') g),
        cp_failed = length (filter (\<lambda>e. e_status e = ''failed'') g),
        cp_in_flight = length (filter event_active g) \<rparr>)"

definition get_campaigns :: "ext \<Rightarrow> int \<Rightarrow> db \<Rightarrow> campaign list res" where
  "get_campaigns E limit db =
     limit_rows limit
       (sort_key (\<lambda>c. - cp_started_at c)
         (scan E (map (campaign_of (ota_events db)) (remdups (map campaign_key (ota_events db))))))"

definition get_events :: "ext \<Rightarrow> string option \<Rightarrow> db \<Rightarrow> ota_event list" where
  "get_events E target_version db =
     sort_key (\<lambda>e. - e_started_at e)
       (scan E (case target_version of
                  Some (c # cs) \<Rightarrow> filter (\<lambda>e. e_to_version e = c # cs) (ota_events db)
                | _ \<Rightarrow> ota_events db))"

definition abort_rollout :: "string \<Rightarrow> db \<Rightarrow> nat \<times> db" where
  "abort_rollout target_version db =
     (let hit = (\<lambda>e. e_to_version e = target_version \<and> event_active e) in
      (length (filter hit (ota_events db)),
       db\<lparr>ota_events := update_where hit (\<lambda>e. e\<lparr>e_status := ''cancelled''\<rparr>) (ota_events db)\<rparr>))"

section \<open>The endpoints\<close>

record rollout_response =
  rr_target_version :: string
  rr_strategy :: string
  rr_total_devices :: nat
  rr_events :: "ota_event list"

text \<open>A \<^verbatim>\<open>ValueError\<close> of the service becomes a 400.\<close>

definition bad_request :: "exn \<Rightarrow> exn" where
  "bad_request e = (case e of ValueError m \<Rightarrow> HTTPException 400 m | _ \<Rightarrow> e)"

definition api_start_rollout ::
  "ext \<Rightarrow> string option \<Rightarrow> rollout_request \<Rightarrow> db \<Rightarrow> rollout_response res \<times> db \<times> (string \<times> string) list" where
  "api_start_rollout E token q db =
     (case route_user E None token db of
        Inl e \<Rightarrow> (Inl e, db, [])
      | Inr user \<Rightarrow>
          (case start_rollout E 0 q db of
             (Inl e, db1, ms) \<Rightarrow> (Inl (bad_request e), db1, ms)
           | (Inr events, db1, ms) \<Rightarrow>
               let r = returning
                 \<lparr> rr_target_version = q_target_version q, rr_strategy = q_strategy q,
                   rr_total_devices = length events, rr_events = events \<rparr>
                 (audit_service_log E (if events = [] then 0 else 1) (map_option u_id user) ''ota_start'' ''rollout''
                    (Some (JObj [(''target_version'', JStr (q_target_version q)), (''strategy'', JStr (q_strategy q)),
                                 (''total_devices'', JInt (int (length events))),
                                 (''device_ids'', json_strings (map e_device_id events))])) db1)
               in (fst r, snd r, ms)))"

definition api_preview_rollout :: "ext \<Rightarrow> string option \<Rightarrow> rollout_request \<Rightarrow> db \<Rightarrow> rollout_preview res" where
  "api_preview_rollout E token q db =
     (case any_auth E token db of
        Inl e \<Rightarrow> Inl e
      | Inr _ \<Rightarrow> (case preview_rollout E q db of Inl e \<Rightarrow> Inl (bad_request e) | Inr p \<Rightarrow> Inr p))"

definition api_list_events :: "ext \<Rightarrow> string option \<Rightarrow> string option \<Rightarrow> db \<Rightarrow> ota_event list res" where
  "api_list_events E token target_version db =
     (case any_auth E token db of Inl e \<Rightarrow> Inl e | Inr _ \<Rightarrow> Inr (get_events E target_version db))"

definition api_list_campaigns :: "ext \<Rightarrow> string option \<Rightarrow> int \<Rightarrow> db \<Rightarrow> campaign list res" where
  "api_list_campaigns E token limit db =
     (case any_auth E token db of Inl e \<Rightarrow> Inl e | Inr _ \<Rightarrow> get_campaigns E limit db)"

definition api_abort_rollout :: "ext \<Rightarrow> string option \<Rightarrow> string \<Rightarrow> db \<Rightarrow> (nat \<times> string) db_res" where
  "api_abort_rollout E token target_version db =
     (case any_auth E token db of
        Inl e \<Rightarrow> (Inl e, db)
      | Inr _ \<Rightarrow> (let (n, db1) = abort_rollout target_version db in (Inr (n, target_version), db1)))"

section \<open>The selection\<close>

text \<open>The devices a request is aimed at, before the strategy limits their number.\<close>

definition targeted :: "rollout_request \<Rightarrow> db \<Rightarrow> device \<Rightarrow> bool" where
  "targeted q db d \<longleftrightarrow>
     (case q_target_devices q of
        Some (i # is) \<Rightarrow> d_device_id d \<in> set (i # is)
      | _ \<Rightarrow> (case q_target_community q of
                Some (c # cs) \<Rightarrow> (\<exists>h. d_home_id d = Some h \<and> (h, c # cs) \<in> set (home_community db))
              | _ \<Rightarrow> True))"

lemma join_row:
  assumes "db_wf db" "d \<in> set (devices db)"
  shows "concat (map (\<lambda>h. map (\<lambda>_. d) (filter (\<lambda>(hid, cid). hid = h_home_id h \<and> cid = c) (home_community db)))
           (filter (\<lambda>h. d_home_id d = Some (h_home_id h)) (homes db))) =
         (if \<exists>h. d_home_id d = Some h \<and> (h, c) \<in> set (home_community db) then [d] else [])"
proof (cases "d_home_id d")
  case (Some k)
  then obtain h where h: "h \<in> set (homes db)" "h_home_id h = k"
    using db_wfD(4) [OF assms(1)] assms(2) by (auto simp: devices_wf_def fk_opt_def set_non_null)
  have "distinct (map h_home_id (homes db))"
    using db_wfD(2) [OF assms(1)] by (simp add: homes_wf_def)
  then have hs: "filter (\<lambda>h'. d_home_id d = Some (h_home_id h')) (homes db) = [h]"
    using h Some by (intro filter_unique) (auto simp: distinct_map inj_on_def)
  have "distinct (home_community db)"
    using db_wfD(5) [OF assms(1)] by (simp add: home_community_wf_def)
  then have "filter (\<lambda>(hid, cid). hid = k \<and> cid = c) (home_community db) =
      (if (k, c) \<in> set (home_community db) then [(k, c)] else [])"
    using filter_unique [of "home_community db" "(k, c)" "\<lambda>(hid, cid). hid = k \<and> cid = c"]
    by (auto simp: filter_empty_conv)
  then show ?thesis using hs h(2) Some by simp
qed simp

lemma join_community_filter:
  assumes "db_wf db" "set ds \<subseteq> set (devices db)"
  shows "join_community c db ds =
           filter (\<lambda>d. \<exists>h. d_home_id d = Some h \<and> (h, c) \<in> set (home_community db)) ds"
proof -
  have "join_community c db ds =
      concat (map (\<lambda>d. if \<exists>h. d_home_id d = Some h \<and> (h, c) \<in> set (home_community db) then [d] else []) ds)"
    unfolding join_community_def
    by (intro arg_cong [of _ _ concat] map_cong refl join_row [OF assms(1)]) (use assms(2) in auto)
  also have "\<dots> = filter (\<lambda>d. \<exists>h. d_home_id d = Some h \<and> (h, c) \<in> set (home_community db)) ds"
    by (induction ds) auto
  finally show ?thesis .
qed

lemma request_devices_eq:
  assumes "db_wf db"
  shows "request_devices E q db =
     (let rows = scan E (filter (\<lambda>d. eligible (q_target_version q) d \<and> targeted q db d) (devices db)) in
      if q_strategy q = ''canary'' then limit_rows (q_canary_count q) rows else Inr rows)"
proof -
  have "filter (\<lambda>d. d_device_id d \<in> set is) (filter (eligible v) ds) =
      filter (\<lambda>d. eligible v d \<and> d_device_id d \<in> set is) ds" for "is" v ds
    by (auto intro: filter_cong)
  moreover have "join_community c db (filter (eligible v) (devices db)) =
      filter (\<lambda>d. eligible v d \<and> (\<exists>h. d_home_id d = Some h \<and> (h, c) \<in> set (home_community db))) (devices db)" for c v
    using join_community_filter [OF assms, of "filter (eligible v) (devices db)" c] by (auto intro: filter_cong)
  ultimately show ?thesis
    unfolding request_devices_def select_devices_def targeted_def Let_def
    by (simp split: option.split list.split)
qed

definition canary_ok :: "rollout_request \<Rightarrow> bool" where
  "canary_ok q \<longleftrightarrow> q_strategy q = ''canary'' \<longrightarrow> 0 \<le> q_canary_count q \<and> int4 (q_canary_count q)"

lemma request_devices_Inr:
  assumes "db_wf db" "scan_ok E" "request_devices E q db = Inr ds"
  shows "set ds \<subseteq> {d \<in> set (devices db). eligible (q_target_version q) d \<and> targeted q db d}"
    and "distinct (map d_device_id ds)"
    and "q_strategy q \<noteq> ''canary'' \<Longrightarrow> set ds = {d \<in> set (devices db). eligible (q_target_version q) d \<and> targeted q db d}"
    and "q_strategy q = ''canary'' \<Longrightarrow> length ds =
           min (nat (q_canary_count q)) (length (filter (\<lambda>d. eligible (q_target_version q) d \<and> targeted q db d) (devices db)))"
proof -
  let ?rows = "filter (\<lambda>d. eligible (q_target_version q) d \<and> targeted q db d) (devices db)"
  have ds: "ds = (if q_strategy q = ''canary'' then take (nat (q_canary_count q)) (scan E ?rows) else scan E ?rows)"
    using assms(3) unfolding request_devices_eq [OF assms(1)]
    by (auto simp: Let_def limit_rows_def split: if_splits)
  have dist: "distinct (map d_device_id (scan E ?rows))"
    using db_wfD(4) [OF assms(1)] by (simp add: distinct_scan_map [OF assms(2)] devices_wf_def distinct_map_filter)
  then show "distinct (map d_device_id ds)" by (simp add: ds take_map distinct_take flip: take_map)
  have "set ds \<subseteq> set ?rows" using assms(2) by (auto simp: ds dest: in_set_takeD)
  then show "set ds \<subseteq> {d \<in> set (devices db). eligible (q_target_version q) d \<and> targeted q db d}" by auto
  show "set ds = {d \<in> set (devices db). eligible (q_target_version q) d \<and> targeted q db d}"
    if "q_strategy q \<noteq> ''canary''"
    using that assms(2) by (simp add: ds)
  show "length ds = min (nat (q_canary_count q)) (length ?rows)" if "q_strategy q = ''canary''"
    using that assms(2) by (simp add: ds min.commute)
qed

section \<open>The events and the commands\<close>

text \<open>The reference for what a rollout records: one pending event per device, numbered from \<open>n\<close> on.\<close>

definition planned_event :: "ext \<Rightarrow> nat \<Rightarrow> string \<Rightarrow> int \<Rightarrow> device \<Rightarrow> ota_event" where
  "planned_event E k version n d =
     \<lparr> e_id = n, e_device_id = d_device_id d, e_from_version = the (d_firmware_version d),
       e_to_version = version, e_status = ''pending'', e_started_at = pg_now E k, e_completed_at = None \<rparr>"

fun planned_events :: "ext \<Rightarrow> nat \<Rightarrow> string \<Rightarrow> int \<Rightarrow> device list \<Rightarrow> ota_event list" where
  "planned_events E k version n [] = []"
| "planned_events E k version n (d # ds) =
     planned_event E k version n d # planned_events E k version (n + 1) ds"

definition with_events :: "ota_event list \<Rightarrow> db \<Rightarrow> db" where
  "with_events es db =
     db\<lparr>ota_events := ota_events db @ es,
        sequences := (sequences db)\<lparr>seq_events := seq_events (sequences db) + int (length es)\<rparr>\<rparr>"

lemma planned_events_simps [simp]:
  "length (planned_events E k version n ds) = length ds"
  "map e_device_id (planned_events E k version n ds) = map d_device_id ds"
  "planned_events E k version n ds = [] \<longleftrightarrow> ds = []"
  by (induction ds arbitrary: n) (auto simp: planned_event_def)

lemma planned_events_pending:
  "e \<in> set (planned_events E k version n ds) \<Longrightarrow>
     e_status e = ''pending'' \<and> e_to_version e = version \<and> e_started_at e = pg_now E k \<and> e_completed_at e = None"
  by (induction ds arbitrary: n) (auto simp: planned_event_def)

text \<open>In a database that satisfies the schema the inserts of a rollout cannot fail.\<close>

lemma create_events_returns:
  assumes "\<forall>d \<in> set ds. device_ok d \<and> d_device_id d \<in> device_keys db \<and> d_firmware_version d \<noteq> None" "fits 32 version"
  shows "create_events E k version ds db =
           (Inr (planned_events E k version (seq_events (sequences db)) ds),
            with_events (planned_events E k version (seq_events (sequences db)) ds) db)"
  using assms(1)
proof (induction ds arbitrary: db)
  case Nil
  then show ?case by (simp add: with_events_def)
next
  case (Cons d ds)
  let ?n = "seq_events (sequences db)"
  let ?e = "planned_event E k version ?n d"
  let ?db = "db\<lparr>sequences := (sequences db)\<lparr>seq_events := ?n + 1\<rparr>, ota_events := ota_events db @ [?e]\<rparr>"
  obtain v where v: "d_firmware_version d = Some v" using Cons.prems by auto
  have "event_ok ?e"
    using Cons.prems v assms(2) by (simp add: event_ok_def planned_event_def device_ok_def fits_opt_def) (simp add: fits_def)
  then have "insert_event \<lparr> e_id = 0, e_device_id = d_device_id d, e_from_version = v, e_to_version = version,
        e_status = ''pending'', e_started_at = pg_now E k, e_completed_at = None \<rparr> db = (Inr ?e, ?db)"
    using Cons.prems v by (simp add: insert_event_def Let_def planned_event_def)
  moreover have "create_events E k version ds ?db =
      (Inr (planned_events E k version (?n + 1) ds), with_events (planned_events E k version (?n + 1) ds) ?db)"
    using Cons.IH [of ?db] Cons.prems by simp
  ultimately show ?case using v by (simp add: with_events_def)
qed

lemma publish_commands_all:
  assumes "\<forall>d \<in> set ds. \<not> publish_raises E (ota_topic (d_device_id d))"
  shows "publish_commands E v c ds = (Inr (), map (\<lambda>d. (ota_topic (d_device_id d), ota_command E v c)) ds)"
  using assms by (induction ds) (auto simp: Let_def)

lemma publish_commands_prefix:
  "\<exists>n. snd (publish_commands E v c ds) = take n (map (\<lambda>d. (ota_topic (d_device_id d), ota_command E v c)) ds)"
proof (induction ds)
  case (Cons d ds)
  then obtain n where "snd (publish_commands E v c ds) =
      take n (map (\<lambda>d. (ota_topic (d_device_id d), ota_command E v c)) ds)" ..
  then show ?case
    by (cases "publish_raises E (ota_topic (d_device_id d))")
       (auto simp: Let_def split: prod.split intro: exI [of _ 0] exI [of _ "Suc n"])
qed simp

lemma publish_commands_raises:
  "fst (publish_commands E v c ds) = (if \<exists>d \<in> set ds. publish_raises E (ota_topic (d_device_id d)) then Inl MqttError else Inr ())"
  by (induction ds) (auto simp: Let_def split: prod.split)

lemma firmware_found:
  assumes "db_wf db" "get_by_version v db = Some f"
  shows "f \<in> set (firmware_versions db)" "f_version f = v" "fits 32 v"
proof -
  show f: "f \<in> set (firmware_versions db)" "f_version f = v"
    using lookup_key_SomeD [of f_version v "firmware_versions db" f] assms(2) by (auto simp: get_by_version_def)
  then show "fits 32 v"
    using db_wfD(8) [OF assms(1)] by (auto simp: firmware_wf_def list_all_iff firmware_ok_def)
qed

lemma eligible_deployable: "eligible v d \<Longrightarrow> d_firmware_version d \<noteq> None"
  by (auto simp: eligible_def split: option.splits)

text \<open>What a rollout does once its firmware and its devices are found.\<close>

lemma start_rollout_run:
  fixes k :: nat
  assumes "db_wf db" "scan_ok E" "get_by_version (q_target_version q) db = Some f"
    and "request_devices E q db = Inr ds"
  defines "es \<equiv> planned_events E k (q_target_version q) (seq_events (sequences db)) ds"
  shows "start_rollout E k q db =
     (if \<exists>d \<in> set ds. publish_raises E (ota_topic (d_device_id d)) then Inl MqttError else Inr es,
      if ds = [] then db else with_events es db,
      snd (publish_commands E (q_target_version q) (f_checksum f) ds))"
proof -
  have "device_ok d \<and> d_device_id d \<in> device_keys db \<and> d_firmware_version d \<noteq> None" if "d \<in> set ds" for d
    using request_devices_Inr(1) [OF assms(1,2,4)] that db_wfD(4) [OF assms(1)] eligible_deployable
    by (auto simp: devices_wf_def list_all_iff)
  then have ce: "create_events E k (q_target_version q) ds db = (Inr es, with_events es db)"
    unfolding es_def using firmware_found(3) [OF assms(1,3)] by (intro create_events_returns) auto
  show ?thesis
  proof (cases ds)
    case Nil
    then show ?thesis by (simp add: start_rollout_def assms(3,4) es_def)
  next
    case (Cons d ds')
    obtain r ms where pc: "publish_commands E (q_target_version q) (f_checksum f) ds = (r, ms)"
      by (cases "publish_commands E (q_target_version q) (f_checksum f) ds")
    have r: "r = (if \<exists>d \<in> set ds. publish_raises E (ota_topic (d_device_id d)) then Inl MqttError else Inr ())"
      using publish_commands_raises [of E "q_target_version q" "f_checksum f" ds] pc by simp
    show ?thesis
      unfolding start_rollout_def assms(3,4) Cons option.case sum.case list.case ce [unfolded Cons] prod.case
        pc [unfolded Cons]
      using r Cons by simp
  qed
qed

section \<open>Properties of rollouts\<close>

text \<open>A rollout of the newer sample version to every home of the sample community, for the witnesses.\<close>

definition sample_request :: rollout_request where
  "sample_request = \<lparr> q_target_version = ''1.1'', q_strategy = ''full'', q_canary_count = 2,
     q_target_devices = None, q_target_community = Some ''c1'' \<rparr>"

lemma sample_firmware_found: "get_by_version ''1.1'' sample_db = Some (sample_firmware 2 ''1.1'')"
  by (simp add: get_by_version_def lookup_key_def)

lemma sample_selection: "request_devices demo_ext sample_request sample_db = Inr [sample_device ''dev1'' ''aa'' (Some ''h1'') ''alive'' 990]"
  unfolding request_devices_eq [OF db_wf_sample] by (simp add: sample_request_def eligible_def targeted_def)


lemma canary_ok_returns:
  assumes "db_wf db" "canary_ok q"
  shows "\<exists>ds. request_devices E q db = Inr ds"
  using assms(2) by (auto simp: request_devices_eq [OF assms(1)] Let_def canary_ok_def limit_rows_def)

text \<open>
  C19: a rollout of a known version records and commands exactly its devices. In a database that
  satisfies the schema, with a broker that accepts the messages: the devices are alive or unknown,
  run another version and are the targeted ones (all of them, or for a canary at most the requested
  number), each once; one pending event per device is committed, in order; and each device is sent
  one command with the version, its download address and its checksum.
\<close>

theorem start_rollout_complete:
  assumes "db_wf db" "scan_ok E" "get_by_version (q_target_version q) db = Some f" "canary_ok q"
    and "\<forall>topic. \<not> publish_raises E topic"
  shows "\<exists>ds. distinct (map d_device_id ds) \<and>
           set ds \<subseteq> {d \<in> set (devices db). eligible (q_target_version q) d \<and> targeted q db d} \<and>
           (if q_strategy q = ''canary''
            then length ds = min (nat (q_canary_count q))
                   (length (filter (\<lambda>d. eligible (q_target_version q) d \<and> targeted q db d) (devices db)))
            else set ds = {d \<in> set (devices db). eligible (q_target_version q) d \<and> targeted q db d}) \<and>
           start_rollout E k q db =
             (Inr (planned_events E k (q_target_version q) (seq_events (sequences db)) ds),
              if ds = [] then db
              else with_events (planned_events E k (q_target_version q) (seq_events (sequences db)) ds) db,
              map (\<lambda>d. (ota_topic (d_device_id d), ota_command E (q_target_version q) (f_checksum f))) ds)"
proof -
  obtain ds where ds: "request_devices E q db = Inr ds"
    using canary_ok_returns [OF assms(1,4)] by blast
  have "start_rollout E k q db =
     (Inr (planned_events E k (q_target_version q) (seq_events (sequences db)) ds),
      if ds = [] then db else with_events (planned_events E k (q_target_version q) (seq_events (sequences db)) ds) db,
      map (\<lambda>d. (ota_topic (d_device_id d), ota_command E (q_target_version q) (f_checksum f))) ds)"
    unfolding start_rollout_run [OF assms(1-3) ds]
    using assms(5) publish_commands_all [of ds E "q_target_version q" "f_checksum f"] by simp
  then show ?thesis
    using request_devices_Inr [OF assms(1,2) ds] by (intro exI [of _ ds]) auto
qed

theorem start_rollout_complete_witness:
  "\<exists>ds. set ds = {d \<in> set (devices sample_db). eligible ''1.1'' d \<and> targeted sample_request sample_db d} \<and>
     snd (snd (start_rollout demo_ext 0 sample_request sample_db)) =
       map (\<lambda>d. (ota_topic (d_device_id d), ota_command demo_ext ''1.1'' ''abc'')) ds"
proof -
  have q: "q_target_version sample_request = ''1.1''" "q_strategy sample_request = ''full''"
    by (simp_all add: sample_request_def)
  have "get_by_version (q_target_version sample_request) sample_db = Some (sample_firmware 2 ''1.1'')"
    using sample_firmware_found q by simp
  then obtain ds where "set ds = {d \<in> set (devices sample_db). eligible ''1.1'' d \<and> targeted sample_request sample_db d}"
    "snd (snd (start_rollout demo_ext 0 sample_request sample_db)) =
       map (\<lambda>d. (ota_topic (d_device_id d), ota_command demo_ext ''1.1'' ''abc'')) ds"
    using start_rollout_complete [OF db_wf_sample demo_ext_ok(1), of sample_request _ 0]
    by (fastforce simp: q canary_ok_def simp del: sample_db_simps)
  then show ?thesis by blast
qed

text \<open>
  When the broker fails on one of the messages, the rollout raises the broker's error, the
  events of all its devices stay recorded, and exactly the messages before the failure were sent.
\<close>

theorem start_rollout_broker_failure:
  assumes "db_wf db" "scan_ok E" "get_by_version (q_target_version q) db = Some f"
    and "request_devices E q db = Inr (ds @ d # ds')"
    and "\<forall>d \<in> set ds. \<not> publish_raises E (ota_topic (d_device_id d))" "publish_raises E (ota_topic (d_device_id d))"
  shows "start_rollout E k q db =
           (Inl MqttError,
            with_events (planned_events E k (q_target_version q) (seq_events (sequences db)) (ds @ d # ds')) db,
            map (\<lambda>d. (ota_topic (d_device_id d), ota_command E (q_target_version q) (f_checksum f))) ds)"
proof -
  have "snd (publish_commands E v c (ds @ d # ds')) = map (\<lambda>d. (ota_topic (d_device_id d), ota_command E v c)) ds" for v c
    using assms(5,6) by (induction ds) (auto simp: Let_def split: prod.split)
  then show ?thesis
    unfolding start_rollout_run [OF assms(1-4)] using assms(6) by simp
qed

theorem start_rollout_broker_failure_witness:
  "fst (start_rollout (demo_ext\<lparr>publish_raises := \<lambda>_. True\<rparr>) 0 sample_request sample_db) = Inl MqttError"
proof -
  let ?E = "demo_ext\<lparr>publish_raises := \<lambda>_. True\<rparr>"
  have "get_by_version (q_target_version sample_request) sample_db = Some (sample_firmware 2 ''1.1'')"
    using sample_firmware_found by (simp add: sample_request_def)
  moreover have "request_devices ?E sample_request sample_db = Inr ([] @ sample_device ''dev1'' ''aa'' (Some ''h1'') ''alive'' 990 # [])"
    unfolding request_devices_eq [OF db_wf_sample] by (simp add: sample_request_def eligible_def targeted_def)
  ultimately show ?thesis
    using start_rollout_broker_failure [of sample_db ?E sample_request _ "[]" _ "[]" 0] by simp
qed

text \<open>
  The decoder of the standard library takes a command back to the version, the address of the
  binary and the checksum, whatever characters they hold.
\<close>

definition command_fields :: "ext \<Rightarrow> string \<Rightarrow> string \<Rightarrow> (string \<times> json) list" where
  "command_fields E version checksum =
     [(''version'', JStr version),
      (''url'', JStr (rstrip_by (\<lambda>c. c = CHR ''/'') (SERVER_URL (cfg E)) @ ''/firmware/'' @ version @ ''/firmware.bin'')),
      (''checksum'', JStr checksum)]"

lemma ota_command_decodes: "json_loads E' (ota_command E version checksum) = Some (JObj (command_fields E version checksum))"
  by (simp add: ota_command_def command_fields_def json_loads_dumps)

lemma published_by_rollout:
  assumes "(topic, payload) \<in> set (snd (snd (start_rollout E k q db)))"
  shows "\<exists>f d ds. get_by_version (q_target_version q) db = Some f \<and> request_devices E q db = Inr ds \<and> d \<in> set ds \<and>
           topic = ota_topic (d_device_id d) \<and> payload = ota_command E (q_target_version q) (f_checksum f)"
proof -
  obtain f ds where f: "get_by_version (q_target_version q) db = Some f" and ds: "request_devices E q db = Inr ds"
    and mem: "(topic, payload) \<in> set (snd (publish_commands E (q_target_version q) (f_checksum f) ds))"
    using assms by (fastforce simp: start_rollout_def split: option.splits sum.splits list.splits prod.splits)
  obtain n where "snd (publish_commands E (q_target_version q) (f_checksum f) ds) =
      take n (map (\<lambda>d. (ota_topic (d_device_id d), ota_command E (q_target_version q) (f_checksum f))) ds)"
    using publish_commands_prefix by blast
  with mem have "(topic, payload) \<in> set (map (\<lambda>d. (ota_topic (d_device_id d), ota_command E (q_target_version q) (f_checksum f))) ds)"
    using set_take_subset by fastforce
  with f ds show ?thesis by auto
qed

text \<open>
  C20: no rollout, complete or cut short by the broker, sends anything but readable commands to devices
  that may take them: every message goes to the command topic of an existing device that is eligible
  for the version and targeted by the request, and decodes to the version, the address of its binary
  on this server, and the checksum recorded for that version.
\<close>

theorem rollout_messages_decode:
  assumes "db_wf db" "scan_ok E" "(topic, payload) \<in> set (snd (snd (start_rollout E k q db)))"
  shows "\<exists>f d. f \<in> set (firmware_versions db) \<and> f_version f = q_target_version q \<and>
           d \<in> set (devices db) \<and> eligible (q_target_version q) d \<and> targeted q db d \<and>
           topic = ota_topic (d_device_id d) \<and>
           json_loads E' payload = Some (JObj (command_fields E (q_target_version q) (f_checksum f)))"
proof -
  obtain f d ds where "get_by_version (q_target_version q) db = Some f" "request_devices E q db = Inr ds" "d \<in> set ds"
    "topic = ota_topic (d_device_id d)" "payload = ota_command E (q_target_version q) (f_checksum f)"
    using published_by_rollout [OF assms(3)] by blast
  then show ?thesis
    using firmware_found [OF assms(1)] request_devices_Inr(1) [OF assms(1,2)] ota_command_decodes by blast
qed

theorem rollout_messages_decode_witness:
  "\<exists>f. f \<in> set (firmware_versions sample_db) \<and>
     json_loads demo_ext (ota_command demo_ext ''1.1'' ''abc'') = Some (JObj (command_fields demo_ext ''1.1'' (f_checksum f)))"
proof -
  have m: "snd (snd (start_rollout demo_ext 0 sample_request sample_db)) = [(ota_topic ''dev1'', ota_command demo_ext ''1.1'' ''abc'')]"
    using start_rollout_run [of sample_db demo_ext sample_request _ _ 0, OF db_wf_sample demo_ext_ok(1) _ sample_selection]
      sample_firmware_found by (simp add: sample_request_def sample_device_def sample_firmware_def)
  have "q_target_version sample_request = ''1.1''" by (simp add: sample_request_def)
  then show ?thesis
    using rollout_messages_decode [OF db_wf_sample demo_ext_ok(1), of "ota_topic ''dev1''"
        "ota_command demo_ext ''1.1'' ''abc''" 0 sample_request demo_ext] m by auto
qed

lemma tally_total: "sum_list (map snd (tally f ds)) = length ds"
proof -
  have bump: "sum_list (map snd (bump k kvs)) = Suc (sum_list (map snd kvs))" for k kvs
    by (induction kvs) auto
  have "sum_list (map snd (foldl (\<lambda>acc d. bump (f d) acc) kvs ds)) = sum_list (map snd kvs) + length ds" for kvs
    by (induction ds arbitrary: kvs) (auto simp: bump)
  then show ?thesis by (simp add: tally_def)
qed



text \<open>
  Aborting a version cancels exactly its active events: it reports how many there were, none is
  active afterwards, the events of other versions and the finished ones are as before, and a second
  abort finds nothing left to do.
\<close>

theorem abort_rollout_exact:
  "fst (abort_rollout v db) = length (filter (\<lambda>e. e_to_version e = v \<and> event_active e) (ota_events db)) \<and>
   filter (\<lambda>e. e_to_version e = v \<and> event_active e) (ota_events (snd (abort_rollout v db))) = [] \<and>
   length (filter (\<lambda>e. e_to_version e = v \<and> e_status e = ''cancelled'') (ota_events (snd (abort_rollout v db)))) =
     length (filter (\<lambda>e. e_to_version e = v \<and> e_status e = ''cancelled'') (ota_events db)) + fst (abort_rollout v db) \<and>
   filter (\<lambda>e. e_to_version e \<noteq> v) (ota_events (snd (abort_rollout v db))) = filter (\<lambda>e. e_to_version e \<noteq> v) (ota_events db) \<and>
   abort_rollout v (snd (abort_rollout v db)) = (0, snd (abort_rollout v db))"
proof -
  let ?hit = "\<lambda>e. e_to_version e = v \<and> event_active e"
  let ?f = "\<lambda>e. e\<lparr>e_status := ''cancelled''\<rparr>"
  have off: "\<not> event_active (?f e)" for e by (simp add: event_active_def active_statuses_def)
  have not_c: "event_active e \<Longrightarrow> e_status e \<noteq> ''cancelled''" for e
    by (auto simp: event_active_def active_statuses_def)
  have none: "\<not> ?hit e" if "e \<in> set (update_where ?hit ?f es)" for e es
    using that off by (auto simp: set_update_where)
  have idem: "update_where ?hit ?f (update_where ?hit ?f es) = update_where ?hit ?f es" for es
    using off by (auto simp: update_where_def)
  have "length (filter (\<lambda>e. e_to_version e = v \<and> e_status e = ''cancelled'') (update_where ?hit ?f es)) =
      length (filter (\<lambda>e. e_to_version e = v \<and> e_status e = ''cancelled'') es) + length (filter ?hit es)" for es
    by (induction es) (auto simp: update_where_def not_c)
  moreover have "filter (\<lambda>e. e_to_version e \<noteq> v) (update_where ?hit ?f es) = filter (\<lambda>e. e_to_version e \<noteq> v) es" for es
    by (induction es) (auto simp: update_where_def)
  moreover have "filter ?hit (update_where ?hit ?f es) = []" for es
    using none by (auto simp: filter_empty_conv)
  ultimately show ?thesis
    by (simp add: abort_rollout_def Let_def idem)
qed

section \<open>The campaign history\<close>

lemma sum_length_groups:
  "finite S \<Longrightarrow> f ` set es \<subseteq> S \<Longrightarrow> (\<Sum>k \<in> S. length (filter (\<lambda>e. f e = k) es)) = length es"
proof (induction es)
  case (Cons e es)
  have "(\<Sum>k \<in> S. length (filter (\<lambda>e. f e = k) (e # es))) =
      (\<Sum>k \<in> S. (if f e = k then 1 else 0) + length (filter (\<lambda>e. f e = k) es))"
    by (intro sum.cong) auto
  also have "\<dots> = 1 + length es"
    using Cons by (simp add: sum.distrib)
  finally show ?case by simp
qed simp

lemma campaign_totals:
  "sum_list (map cp_total (map (campaign_of es) (remdups (map campaign_key es)))) = length es"
proof -
  have "sum_list (map cp_total (map (campaign_of es) (remdups (map campaign_key es)))) =
      sum_list (map (\<lambda>key. length (filter (\<lambda>e. campaign_key e = key) es)) (remdups (map campaign_key es)))"
    by (simp add: comp_def campaign_of_def Let_def)
  also have "\<dots> = (\<Sum>key \<in> campaign_key ` set es. length (filter (\<lambda>e. campaign_key e = key) es))"
    by (subst sum_list_distinct_conv_sum_set) auto
  also have "\<dots> = length es" by (rule sum_length_groups) auto
  finally show ?thesis .
qed

lemma status_partition:
  "length (filter (\<lambda>e. e_status e = ''success'') g) + length (filter (\<lambda>e. e_status e = ''failed'') g) +
   length (filter event_active g) \<le> length g"
  by (induction g) (auto simp: event_active_def active_statuses_def)

text \<open>
  The campaign history accounts for every event: with a limit that is not exceeded, the totals of
  the campaigns add up to the number of events, newest campaign first, and in each campaign the
  succeeded, failed and in-flight events are at most its total.
\<close>

theorem campaigns_account_for_events:
  assumes "scan_ok E" "get_campaigns E limit db = Inr cs" "length (ota_events db) \<le> nat limit"
  shows "sum_list (map cp_total cs) = length (ota_events db) \<and>
         sorted (map (\<lambda>c. - cp_started_at c) cs) \<and>
         (\<forall>c \<in> set cs. cp_success c + cp_failed c + cp_in_flight c \<le> cp_total c)"
proof -
  let ?es = "ota_events db"
  let ?groups = "map (campaign_of ?es) (remdups (map campaign_key ?es))"
  let ?sorted = "sort_key (\<lambda>c. - cp_started_at c) (scan E ?groups)"
  have "length (remdups (map campaign_key ?es)) \<le> length ?es"
    using length_remdups_leq [of "map campaign_key ?es"] by simp
  then have cs: "cs = ?sorted"
    using assms by (auto simp: get_campaigns_def limit_rows_def split: if_splits)
  have ms: "mset cs = mset ?groups" unfolding cs by (simp add: mset_scan [OF assms(1)])
  have "sum_list (map cp_total cs) = sum_list (map cp_total ?groups)"
    by (metis ms mset_map sum_mset_sum_list)
  then have "sum_list (map cp_total cs) = length ?es"
    unfolding campaign_totals .
  moreover have "cp_success c + cp_failed c + cp_in_flight c \<le> cp_total c" if "c \<in> set cs" for c
  proof -
    have "c \<in> set ?groups" using that mset_eq_setD [OF ms] by simp
    then obtain key where "c = campaign_of ?es key" by (auto simp del: set_remdups)
    then show ?thesis
      using status_partition [of "filter (\<lambda>e. campaign_key e = key) ?es"]
      by (simp add: campaign_of_def Let_def del: filter_filter)
  qed
  moreover have "sorted (map (\<lambda>c. - cp_started_at c) cs)" unfolding cs by (rule sorted_sort_key)
  ultimately show ?thesis by blast
qed

theorem campaigns_account_for_events_witness:
  "\<exists>cs. get_campaigns demo_ext 20 sample_db = Inr cs \<and> sum_list (map cp_total cs) = 1"
proof -
  obtain cs where "get_campaigns demo_ext 20 sample_db = Inr cs"
    by (simp add: get_campaigns_def limit_rows_def int4_def)
  with campaigns_account_for_events [OF demo_ext_ok(1), of 20 sample_db cs] show ?thesis
    by simp
qed

section \<open>Frames and the schema invariant\<close>

lemma db_wf_create_events:
  "db_wf db \<Longrightarrow> db_wf (snd (create_events E k v ds db)) \<and>
     seqs_le (sequences db) (sequences (snd (create_events E k v ds db)))"
proof (induction ds arbitrary: db)
  case (Cons d ds)
  show ?case
  proof (cases "d_firmware_version d")
    case (Some fv)
    let ?e = "\<lparr> e_id = 0, e_device_id = d_device_id d, e_from_version = fv, e_to_version = v,
                e_status = ''pending'', e_started_at = pg_now E k, e_completed_at = None \<rparr>"
    obtain r db1 where ins: "insert_event ?e db = (r, db1)" by (cases "insert_event ?e db")
    have wf1: "db_wf db1" using Cons.prems ins by (rule db_wf_insert_event)
    have sq: "seqs_le (sequences db) (sequences db1)"
      using ins by (auto simp: insert_event_def Let_def seqs_le_def split: if_splits)
    show ?thesis
    proof (cases r)
      case (Inr e)
      have "snd (create_events E k v (d # ds) db) = snd (create_events E k v ds db1)"
        using Some ins Inr by (simp split: prod.split sum.split)
      then show ?thesis using Cons.IH [OF wf1] sq seqs_le_trans by auto
    qed (use Some ins wf1 sq in simp)
  qed (use Cons.prems in simp)
qed simp

lemma db_wf_start_rollout [wf_intros]:
  assumes "db_wf db"
  shows "db_wf (fst (snd (start_rollout E k q db)))"
proof -
  have ce: "db_wf db1" "db_wf (rollback db db1)"
    if "create_events E k (q_target_version q) ds db = (r, db1)" for ds r db1
    using db_wf_create_events [OF assms, of E k "q_target_version q" ds] that db_wf_rollback [OF assms] by auto
  show ?thesis
    using assms ce
    by (auto simp: start_rollout_def simp del: create_events.simps publish_commands.simps
        split: option.split sum.split list.split prod.split)
qed

lemma db_wf_api_start_rollout [wf_intros]: "db_wf db \<Longrightarrow> db_wf (fst (snd (api_start_rollout E token q db)))"
  using db_wf_start_rollout [of db E 0 q]
  by (auto simp: api_start_rollout_def Let_def split: sum.split prod.split)

lemma db_wf_abort_rollout [wf_intros]: "db_wf db \<Longrightarrow> db_wf (snd (abort_rollout v db))"
  unfolding abort_rollout_def Let_def snd_conv
  by (rule db_wf_update_events) (auto simp: event_ok_def fits_def)

lemma db_wf_api_abort_rollout [wf_intros]: "db_wf db \<Longrightarrow> db_wf (snd (api_abort_rollout E token v db))"
  using db_wf_abort_rollout [of db v] by (auto simp: api_abort_rollout_def split: sum.split prod.split)

end
