(* ===== verification/Scheduler.thy ===== *)
theory Scheduler
  imports Ota
begin

text \<open>
  \<^verbatim>\<open>tasks/scheduler.py\<close>, \<^verbatim>\<open>services/alerting.py\<close> and \<^verbatim>\<open>api/scheduled_rollouts.py\<close>: the sweep that marks
  silent devices dead and alerts, the job that fires due rollouts, and the endpoints that schedule
  and cancel them. The lemmas show which devices a sweep marks, that a due rollout leaves the
  pending state exactly once, and what a row that the database refuses does to the job.
\<close>

section \<open>Alerting\<close>

datatype channel = ConsoleChannel | SlackChannel | EmailChannel

text \<open>\<^verbatim>\<open>AlertService.__init__\<close>: the configured channels.\<close>

definition channels :: "ext \<Rightarrow> channel list" where
  "channels E =
     [ConsoleChannel] @
     (if SLACK_WEBHOOK_URL (cfg E) \<noteq> [] then [SlackChannel] else []) @
     (if SENDGRID_API_KEY (cfg E) \<noteq> [] then [EmailChannel] else [])"

definition SENDGRID_URL :: string where "SENDGRID_URL = ''https://api.sendgrid.com/v3/mail/send''"

text \<open>\<^verbatim>\<open>send\<close> of the three channels; an exception of the HTTP client counts as a failure.\<close>

fun send :: "ext \<Rightarrow> channel \<Rightarrow> string \<Rightarrow> string \<Rightarrow> bool" where
  "send E ConsoleChannel subject message = True"
| "send E SlackChannel subject message =
     (SLACK_WEBHOOK_URL (cfg E) \<noteq> [] \<and> http_post E (SLACK_WEBHOOK_URL (cfg E)) = Some 200)"
| "send E EmailChannel subject message =
     (SENDGRID_API_KEY (cfg E) \<noteq> [] \<and> http_post E SENDGRID_URL \<in> {Some 200, Some 202})"

text \<open>The bullet of the message is U+2022, given by its UTF-8 bytes.\<close>

definition dead_subject :: "string list \<Rightarrow> string" where
  "dead_subject device_ids = ''Fleet Alert: '' @ str_nat (length device_ids) @ '' device(s) went offline''"

definition dead_message :: "string list \<Rightarrow> string" where
  "dead_message device_ids =
     str_nat (length device_ids) @ '' device(s) have not sent a heartbeat in 90+ seconds:'' @ [CHR 0x0A] @
     join_with [CHR 0x0A] (map (\<lambda>did. ''  '' @ [CHR 0xE2, CHR 0x80, CHR 0xA2] @ '' '' @ did) device_ids)"

text \<open>The alerts sent, each with its channel, subject, message and success.\<close>

definition device_dead :: "ext \<Rightarrow> string list \<Rightarrow> (channel \<times> string \<times> string \<times> bool) list" where
  "device_dead E device_ids =
     (if device_ids = [] then []
      else map (\<lambda>ch. (ch, dead_subject device_ids, dead_message device_ids,
                        send E ch (dead_subject device_ids) (dead_message device_ids))) (channels E))"

section \<open>The dead-device sweep\<close>

definition DEAD_THRESHOLD_SECONDS :: int where "DEAD_THRESHOLD_SECONDS = 60"
definition CHECK_INTERVAL_SECONDS :: int where "CHECK_INTERVAL_SECONDS = 30"

text \<open>\<^verbatim>\<open>status == "alive"\<close> and \<^verbatim>\<open>last_seen < threshold\<close>, which is not true of NULL.\<close>

definition silent :: "datetime \<Rightarrow> device \<Rightarrow> bool" where
  "silent threshold d \<longleftrightarrow>
     d_status d = ''alive'' \<and> (case d_last_seen d of None \<Rightarrow> False | Some t \<Rightarrow> t < threshold)"

definition check_dead_devices ::
  "ext \<Rightarrow> db \<Rightarrow> string list \<times> db \<times> (channel \<times> string \<times> string \<times> bool) list" where
  "check_dead_devices E db =
     (let threshold = clock E 0 - seconds DEAD_THRESHOLD_SECONDS;
          dead_ids = scan E (map d_device_id (filter (silent threshold) (devices db)));
          db1 = db\<lparr>devices := update_where (silent threshold)
                    (\<lambda>d. d\<lparr>d_status := ''dead'', d_updated_at := pg_now E 0\<rparr>) (devices db)\<rparr>
      in (dead_ids, db1, device_dead E dead_ids))"

section \<open>Firing due rollouts\<close>

definition due :: "datetime \<Rightarrow> scheduled_rollout \<Rightarrow> bool" where
  "due now r \<longleftrightarrow> r_status r = ''pending'' \<and> r_fire_at r \<le> now"

definition request_of :: "scheduled_rollout \<Rightarrow> rollout_request" where
  "request_of r =
     \<lparr> q_target_version = r_target_version r, q_strategy = r_strategy r,
       q_canary_count = (case r_canary_count r of None \<Rightarrow> 2 | Some n \<Rightarrow> if n = 0 then 2 else n),
       q_target_devices = Some (r_target_devices r), q_target_community = None \<rparr>"

text \<open>
  The session while the loop runs: the database as last committed, the database as the session sees
  it (with flushed or pending changes of rows), the ids fired, the number of the current transaction
  and of the next clock reading, and the messages published.
\<close>

record sweep =
  sw_committed :: db
  sw_working :: db
  sw_fired :: "int list"
  sw_txn :: nat
  sw_clk :: nat
  sw_sent :: "(string \<times> string) list"

text \<open>The body of the \<^verbatim>\<open>except\<close> clause; the change of the row is pending until the next commit.\<close>

definition fail_row :: "scheduled_rollout \<Rightarrow> string \<Rightarrow> sweep \<Rightarrow> exn option \<times> sweep" where
  "fail_row row err s =
     (case flush_rollout (row\<lparr>r_status := ''failed'', r_error := Some (take 1000 err)\<rparr>) (sw_working s) of
        Inl e \<Rightarrow> (Some e, s)
      | Inr db1 \<Rightarrow> (None, s\<lparr>sw_working := db1\<rparr>))"

text \<open>
  One turn of the loop. An error the database reported leaves the session unusable: every later
  statement of it fails, and so does the final commit, so the job ends with an exception
  (\<open>Some e\<close>) and what was last committed. The errors the loop does survive are the ones raised
  outside the database: an unknown version and a broker failure.
\<close>

definition fire_row :: "ext \<Rightarrow> scheduled_rollout \<Rightarrow> sweep \<Rightarrow> exn option \<times> sweep" where
  "fire_row E row s =
     (case start_rollout E (sw_txn s) (request_of row) (sw_working s) of
        (Inr events, db1, ms) \<Rightarrow>
          let s1 = (if events = [] then s else s\<lparr>sw_committed := db1, sw_working := db1, sw_txn := sw_txn s + 1\<rparr>)
                     \<lparr>sw_sent := sw_sent s @ ms\<rparr>;
              row' = row\<lparr>r_status := ''fired'', r_fired_at := Some (clock E (sw_clk s))\<rparr>
          in (case flush_rollout row' (sw_working s1) of
                Inl e \<Rightarrow> (Some e, s1)
              | Inr db2 \<Rightarrow>
                  (case audit_service_log E (sw_txn s1) None ''schedule_fired'' ''rollout''
                          (Some (JObj [(''id'', JInt (r_id row)), (''target_version'', JStr (r_target_version row)),
                                       (''total_devices'', JInt (int (length (r_target_devices row))))])) db2 of
                     (Inl e, db3) \<Rightarrow> (Some e, s1\<lparr>sw_working := db3\<rparr>)
                   | (Inr _, db3) \<Rightarrow>
                       (None, s1\<lparr>sw_committed := db3, sw_working := db3, sw_fired := sw_fired s @ [r_id row],
                                 sw_txn := sw_txn s1 + 1, sw_clk := sw_clk s + 1\<rparr>)))
      | (Inl (ValueError m), db1, ms) \<Rightarrow> fail_row row m s
      | (Inl MqttError, db1, ms) \<Rightarrow>
          fail_row row (exn_text E MqttError)
            (s\<lparr>sw_committed := db1, sw_working := db1, sw_txn := sw_txn s + 1, sw_sent := sw_sent s @ ms\<rparr>)
      | (Inl e, db1, ms) \<Rightarrow> (Some e, s\<lparr>sw_working := db1\<rparr>))"

fun fire_rows :: "ext \<Rightarrow> scheduled_rollout list \<Rightarrow> sweep \<Rightarrow> exn option \<times> sweep" where
  "fire_rows E [] s = (None, s)"
| "fire_rows E (row # rows) s =
     (case fire_row E row s of
        (Some e, s1) \<Rightarrow> (Some e, s1)
      | (None, s1) \<Rightarrow> fire_rows E rows s1)"

definition start_sweep :: "db \<Rightarrow> sweep" where
  "start_sweep db = \<lparr> sw_committed = db, sw_working = db, sw_fired = [], sw_txn = 0, sw_clk = 1, sw_sent = [] \<rparr>"

definition fire_due_scheduled_rollouts :: "ext \<Rightarrow> db \<Rightarrow> int list res \<times> db \<times> (string \<times> string) list" where
  "fire_due_scheduled_rollouts E db =
     (case fire_rows E (scan E (filter (due (clock E 0)) (scheduled_rollouts db))) (start_sweep db) of
        (Some e, s) \<Rightarrow> (Inl e, rollback (sw_committed s) (sw_working s), sw_sent s)
      | (None, s) \<Rightarrow> (Inr (sw_fired s), sw_working s, sw_sent s))"

text \<open>The jobs registered at import, each with its interval in seconds.\<close>

definition registered_jobs :: "(string \<times> int) list" where
  "registered_jobs =
     [(''check_dead_devices'', CHECK_INTERVAL_SECONDS), (''fire_due_scheduled_rollouts'', 60)]"

section \<open>The endpoints\<close>

record scheduled_create =
  sc_target_version :: string
  sc_strategy :: string
  sc_target_devices :: "string list"
  sc_canary_count :: "int option"
  sc_fire_at :: datetime

text \<open>\<^verbatim>\<open>^(full|canary|staged)$\<close>; a time without a zone is read as UTC.\<close>

definition create_scheduled :: "ext \<Rightarrow> string option \<Rightarrow> scheduled_create \<Rightarrow> db \<Rightarrow> scheduled_rollout db_res" where
  "create_scheduled E token payload db =
     (case route_user E (Some [''admin'', ''operator'']) token db of
        Inl e \<Rightarrow> (Inl e, db)
      | Inr user \<Rightarrow>
          if sc_strategy payload \<notin> {''full'', ''canary'', ''staged''} then (Inl RequestInvalid, db)
          else if sc_fire_at payload < clock E 0
          then (Inl (HTTPException 400 ''fire_at must be in the future''), db)
          else if sc_target_devices payload = []
          then (Inl (HTTPException 400 ''target_devices must not be empty''), db)
          else
            (case insert_rollout
                    \<lparr> r_id = 0, r_target_version = sc_target_version payload, r_strategy = sc_strategy payload,
                      r_target_devices = sc_target_devices payload, r_canary_count = sc_canary_count payload,
                      r_fire_at = sc_fire_at payload, r_status = ''pending'', r_created_by = map_option u_id user,
                      r_created_at = pg_now E 0, r_fired_at = None, r_error = None \<rparr> db of
               (Inl e, db1) \<Rightarrow> (Inl e, rollback db db1)
             | (Inr row, db1) \<Rightarrow>
                 returning row
                   (audit_service_log E 1 (map_option u_id user) ''schedule'' ''rollout''
                      (Some (JObj [(''id'', JInt (r_id row)), (''target_version'', JStr (r_target_version row)),
                                   (''fire_at'', JStr (isoformat (r_fire_at row))),
                                   (''total_devices'', JInt (int (length (r_target_devices row))))])) db1)))"

definition cancel_scheduled :: "ext \<Rightarrow> string option \<Rightarrow> int \<Rightarrow> db \<Rightarrow> scheduled_rollout db_res" where
  "cancel_scheduled E token scheduled_id db =
     (case route_user E (Some [''admin'', ''operator'']) token db of
        Inl e \<Rightarrow> (Inl e, db)
      | Inr user \<Rightarrow>
          if \<not> int4 scheduled_id then (Inl DBAPIError, db)
          else (case lookup_key r_id scheduled_id (scheduled_rollouts db) of
             None \<Rightarrow> (Inl (HTTPException 404 ''Not found''), db)
           | Some row \<Rightarrow>
               if r_status row \<noteq> ''pending''
               then (Inl (HTTPException 409 (''Cannot cancel a rollout in status='' @ r_status row)), db)
               else
                 (case flush_rollout (row\<lparr>r_status := ''cancelled''\<rparr>) db of
                    Inl e \<Rightarrow> (Inl e, db)
                  | Inr db1 \<Rightarrow>
                      returning (row\<lparr>r_status := ''cancelled''\<rparr>)
                        (audit_service_log E 1 (map_option u_id user) ''cancel'' ''rollout''
                           (Some (JObj [(''id'', JInt (r_id row)), (''target_version'', JStr (r_target_version row))])) db1))))"

definition list_scheduled :: "ext \<Rightarrow> string option \<Rightarrow> db \<Rightarrow> scheduled_rollout list res" where
  "list_scheduled E token db =
     (case any_auth E token db of
        Inl e \<Rightarrow> Inl e
      | Inr _ \<Rightarrow> Inr (sort_key r_fire_at (scan E (scheduled_rollouts db))))"

section \<open>The life of a scheduled rollout\<close>

text \<open>
  What any operation may do to the row: a pending rollout may be fired, cancelled or failed, with
  everything its creator set unchanged; any other rollout never changes again.
\<close>

definition rollout_step :: "scheduled_rollout \<Rightarrow> scheduled_rollout \<Rightarrow> bool" where
  "rollout_step r r' \<longleftrightarrow> r' = r \<or>
     r_status r = ''pending'' \<and> r_status r' \<in> {''fired'', ''cancelled'', ''failed''} \<and>
     r_id r' = r_id r \<and> r_target_version r' = r_target_version r \<and> r_strategy r' = r_strategy r \<and>
     r_target_devices r' = r_target_devices r \<and> r_canary_count r' = r_canary_count r \<and>
     r_fire_at r' = r_fire_at r \<and> r_created_by r' = r_created_by r \<and> r_created_at r' = r_created_at r"

interpretation rollout_history: row_history rollout_step
  by unfold_locales (auto simp: rollout_step_def)

abbreviation rollouts_evolve :: "db \<Rightarrow> db \<Rightarrow> bool" where
  "rollouts_evolve db db' \<equiv> history rollout_step (scheduled_rollouts db) (scheduled_rollouts db')"

lemma rollout_rows:
  assumes "db_wf db"
  shows "distinct (map r_id (scheduled_rollouts db))"
    and "r \<in> set (scheduled_rollouts db) \<Longrightarrow> rollout_ok r"
    and "r \<in> set (scheduled_rollouts db) \<Longrightarrow> r_target_version r \<in> version_keys db"
    and "r \<in> set (scheduled_rollouts db) \<Longrightarrow> r_created_by r = Some u \<Longrightarrow> u \<in> user_keys db"
  using db_wfD(13) [OF assms]
  by (auto simp: rollouts_wf_def serial_wf_def list_all_iff fk_def fk_opt_def set_non_null)

text \<open>Ending a pending rollout in a database that satisfies the schema succeeds.\<close>

definition ended :: "string \<Rightarrow> datetime option \<Rightarrow> string option \<Rightarrow> scheduled_rollout \<Rightarrow> scheduled_rollout" where
  "ended status fired err r = r\<lparr>r_status := status, r_fired_at := fired, r_error := err\<rparr>"

lemma ended_forms:
  "r\<lparr>r_status := st, r_fired_at := f\<rparr> = ended st f (r_error r) r"
  "r\<lparr>r_status := st, r_error := e\<rparr> = ended st (r_fired_at r) e r"
  "r\<lparr>r_status := st\<rparr> = ended st (r_fired_at r) (r_error r) r"
  by (simp_all add: ended_def)

lemma ended_sel [simp]:
  "r_id (ended st f e r) = r_id r" "r_status (ended st f e r) = st"
  "r_target_version (ended st f e r) = r_target_version r"
  by (simp_all add: ended_def)

lemma flush_ended:
  assumes "db_wf db" "r \<in> set (scheduled_rollouts db)" "fits 16 st"
  shows "flush_rollout (ended st f e r) db =
           Inr (db\<lparr>scheduled_rollouts := replace_row r_id (ended st f e r) (scheduled_rollouts db)\<rparr>)"
  using rollout_rows(2-4) [OF assms(1,2)] assms(3)
  by (auto simp: flush_rollout_def rollout_ok_def ended_def split: option.splits)

lemma rollouts_evolve_replace:
  assumes "db_wf db" "r \<in> set (scheduled_rollouts db)" "r_status r = ''pending''" "st \<in> {''fired'', ''cancelled'', ''failed''}"
  shows "history rollout_step (scheduled_rollouts db) (replace_row r_id (ended st f e r) (scheduled_rollouts db))"
  by (rule rollout_history.replace_row [OF rollout_rows(1) [OF assms(1)] assms(2)])
     (use assms(3,4) in \<open>auto simp: rollout_step_def ended_def\<close>)

section \<open>What a sweep marks\<close>

text \<open>
  C22: the sweep marks dead exactly the alive devices whose last heartbeat is more than 60 seconds
  old, and reports exactly those; every other device, and every column of a device but its status
  and update time, stays as it was. A device never seen is not marked, and a second sweep at the
  same time finds nothing.
\<close>

theorem check_dead_devices_exact:
  assumes "scan_ok E"
  shows "set (fst (check_dead_devices E db)) =
           {d_device_id d | d. d \<in> set (devices db) \<and> d_status d = ''alive'' \<and>
              (\<exists>t. d_last_seen d = Some t \<and> t + seconds 60 < clock E 0)} \<and>
         devices (fst (snd (check_dead_devices E db))) =
           map (\<lambda>d. if d_status d = ''alive'' \<and> (\<exists>t. d_last_seen d = Some t \<and> t + seconds 60 < clock E 0)
                    then d\<lparr>d_status := ''dead'', d_updated_at := pg_now E 0\<rparr> else d) (devices db) \<and>
         fst (check_dead_devices E (fst (snd (check_dead_devices E db)))) = []"
proof -
  let ?t = "clock E 0 - seconds DEAD_THRESHOLD_SECONDS"
  have sil: "silent ?t d \<longleftrightarrow> d_status d = ''alive'' \<and> (\<exists>t. d_last_seen d = Some t \<and> t + seconds 60 < clock E 0)" for d
    by (auto simp: silent_def DEAD_THRESHOLD_SECONDS_def split: option.splits)
  have "filter (silent ?t) (update_where (silent ?t) (\<lambda>d. d\<lparr>d_status := ''dead'', d_updated_at := x\<rparr>) ds) = []" for ds x
    by (auto simp: filter_empty_conv set_update_where) (auto simp: silent_def)
  then show ?thesis
    using assms by (auto simp: check_dead_devices_def Let_def sil update_where_def)
qed

theorem check_dead_devices_exact_witness:
  "scan_ok demo_ext \<and> fst (check_dead_devices demo_ext sample_db) = [''dev2''] \<and>
   fst (check_dead_devices demo_ext (fst (snd (check_dead_devices demo_ext sample_db)))) = []"
proof -
  have "fst (check_dead_devices demo_ext sample_db) = [''dev2'']"
    by (simp add: check_dead_devices_def Let_def silent_def DEAD_THRESHOLD_SECONDS_def seconds_def)
  then show ?thesis using check_dead_devices_exact [of demo_ext sample_db] by (simp only: demo_ext_ok)
qed

text \<open>
  When a sweep marks devices, one alert goes to every configured channel, the console always
  among them, and its text names every device marked; a sweep that marks none sends none.
\<close>

theorem sweep_alerts:
  "map fst (snd (snd (check_dead_devices E db))) =
     (if fst (check_dead_devices E db) = [] then [] else channels E) \<and>
   ConsoleChannel \<in> set (channels E) \<and>
   (\<forall>(ch, subject, message, ok) \<in> set (snd (snd (check_dead_devices E db))).
      \<forall>did \<in> set (fst (check_dead_devices E db)). \<exists>a b. message = a @ did @ b)"
proof -
  have join: "x \<in> set xs \<Longrightarrow> \<exists>a b. join_with sep xs = a @ x @ b" for sep x xs
  proof (induction sep xs rule: join_with.induct)
    case (2 sep w)
    then show ?case by (intro exI [of _ "[]"]) simp
  next
    case (3 sep w v ws)
    then show ?case
    proof (cases "x = w")
      case False
      then obtain a b where "join_with sep (v # ws) = a @ x @ b" using 3 by auto
      then show ?thesis by (metis append.assoc join_with.simps(3))
    qed auto
  qed auto
  have "\<exists>a b. dead_message ids = a @ did @ b" if mem: "did \<in> set ids" for ids did
  proof -
    let ?line = "\<lambda>did. ''  '' @ [CHR 0xE2, CHR 0x80, CHR 0xA2] @ '' '' @ did"
    obtain a b where "join_with [CHR 0x0A] (map ?line ids) = a @ ?line did @ b"
      using join [OF imageI [OF mem, of ?line, folded set_map], of "[CHR 0x0A]"] by blast
    then have "dead_message ids = (str_nat (length ids) @ '' device(s) have not sent a heartbeat in 90+ seconds:'' @ [CHR 0x0A] @
        a @ ''  '' @ [CHR 0xE2, CHR 0x80, CHR 0xA2] @ '' '') @ did @ b"
      by (simp add: dead_message_def)
    then show ?thesis by blast
  qed
  then show ?thesis
    by (auto simp: check_dead_devices_def Let_def device_dead_def channels_def)
qed

theorem sweep_alerts_witness:
  "fst (check_dead_devices demo_ext sample_db) = [''dev2''] \<and>
   (\<exists>subject message ok. snd (snd (check_dead_devices demo_ext sample_db)) = [(ConsoleChannel, subject, message, ok)] \<and>
      (\<exists>a b. message = a @ ''dev2'' @ b))"
proof -
  have ids: "fst (check_dead_devices demo_ext sample_db) = [''dev2'']"
    by (simp add: check_dead_devices_def Let_def silent_def DEAD_THRESHOLD_SECONDS_def seconds_def)
  have "channels demo_ext = [ConsoleChannel]" by (simp add: channels_def default_settings_def)
  then show ?thesis using sweep_alerts [of demo_ext sample_db] unfolding ids
    by (cases "snd (snd (check_dead_devices demo_ext sample_db))") (auto, blast)
qed

section \<open>What the job fires\<close>

lemma with_events_frame [simp]:
  "users (with_events es db) = users db" "devices (with_events es db) = devices db"
  "firmware_versions (with_events es db) = firmware_versions db"
  "scheduled_rollouts (with_events es db) = scheduled_rollouts db" "audit_log (with_events es db) = audit_log db"
  by (simp_all add: with_events_def)

lemma version_known: "v \<in> version_keys db \<Longrightarrow> \<exists>f. get_by_version v db = Some f"
  by (cases "get_by_version v db") (auto simp: get_by_version_def lookup_key_None_iff)

text \<open>
  A rollout row in a database that satisfies the schema: its version exists, so starting it either
  runs to the end or is stopped by the broker after its events are recorded.
\<close>

lemma start_rollout_of_row:
  assumes "db_wf db" "scan_ok E" "row \<in> set (scheduled_rollouts db)" "canary_ok (request_of row)"
  obtains (ran) es ms where "start_rollout E k (request_of row) db = (Inr es, if es = [] then db else with_events es db, ms)"
  | (stopped) es ms where "start_rollout E k (request_of row) db = (Inl MqttError, with_events es db, ms)" "es \<noteq> []"
      "\<exists>topic. publish_raises E topic"
proof -
  have "q_target_version (request_of row) = r_target_version row" by (simp add: request_of_def)
  then obtain f where f: "get_by_version (q_target_version (request_of row)) db = Some f"
    using version_known rollout_rows(3) [OF assms(1,3)] by metis
  obtain ds where ds: "request_devices E (request_of row) db = Inr ds"
    using canary_ok_returns [OF assms(1,4)] by blast
  note run = start_rollout_run [OF assms(1,2) f ds, of k]
  show ?thesis
  proof (cases "\<exists>d \<in> set ds. publish_raises E (ota_topic (d_device_id d))")
    case True
    then have "ds \<noteq> []" by auto
    with True run show ?thesis by (intro stopped) auto
  next
    case False
    with run show ?thesis
      by (intro ran [of "planned_events E k (q_target_version (request_of row)) (seq_events (sequences db)) ds"]) simp
  qed
qed

definition sweep_wf :: "sweep \<Rightarrow> bool" where
  "sweep_wf s \<longleftrightarrow> db_wf (sw_working s) \<and> db_wf (sw_committed s) \<and>
     seqs_le (sequences (sw_committed s)) (sequences (sw_working s))"

lemma db_wf_with_events:
  "db_wf db \<Longrightarrow> start_rollout E k q db = (r, db', ms) \<Longrightarrow> db_wf db'"
  using db_wf_start_rollout [of db E k q] by simp

lemma sweep_wf_refl [simp]: "db_wf db \<Longrightarrow> sw_committed s = db \<Longrightarrow> sw_working s = db \<Longrightarrow> sweep_wf s"
  by (simp add: sweep_wf_def)

text \<open>One turn of the loop on a pending row.\<close>

lemma fire_row_step:
  assumes "sweep_wf s" "scan_ok E" "row \<in> set (scheduled_rollouts (sw_working s))" "canary_ok (request_of row)"
  obtains st f e s' where "fire_row E row s = (None, s')" "sweep_wf s'" "st \<in> {''fired'', ''failed''}"
    "scheduled_rollouts (sw_working s') = replace_row r_id (ended st f e row) (scheduled_rollouts (sw_working s))"
    "sw_fired s' = sw_fired s @ (if st = ''fired'' then [r_id row] else [])"
    "st = ''failed'' \<Longrightarrow> \<exists>topic. publish_raises E topic"
    "st = ''fired'' \<Longrightarrow> sw_committed s' = sw_working s'"
proof -
  let ?w = "sw_working s"
  have wf: "db_wf ?w" using assms(1) by (simp add: sweep_wf_def)
  show ?thesis
  proof (cases rule: start_rollout_of_row [OF wf assms(2-4), of "sw_txn s"])
    case ran: (1 es ms)
    let ?db1 = "if es = [] then ?w else with_events es ?w"
    let ?s1 = "(if es = [] then s else s\<lparr>sw_committed := ?db1, sw_working := ?db1, sw_txn := sw_txn s + 1\<rparr>)
                     \<lparr>sw_sent := sw_sent s @ ms\<rparr>"
    let ?row = "ended ''fired'' (Some (clock E (sw_clk s))) (r_error row) row"
    let ?db2 = "?db1\<lparr>scheduled_rollouts := replace_row r_id ?row (scheduled_rollouts ?w)\<rparr>"
    have wf1: "db_wf ?db1" using db_wf_with_events [OF wf ran] .
    have w1: "sw_working ?s1 = ?db1" by simp
    have fl: "flush_rollout ?row ?db1 = Inr ?db2"
      using flush_ended [OF wf1, of row "''fired''" "Some (clock E (sw_clk s))" "r_error row"] assms(3)
      by (auto simp: fits_def split: if_splits)
    have wf2: "db_wf ?db2" using wf1 fl by (rule db_wf_flush_rollout)
    let ?d = "Some (JObj [(''id'', JInt (r_id row)), (''target_version'', JStr (r_target_version row)),
                 (''total_devices'', JInt (int (length (r_target_devices row))))])"
    obtain db3 l where log: "audit_service_log E (sw_txn ?s1) None ''schedule_fired'' ''rollout'' ?d ?db2 = (Inr l, db3)"
      using audit_service_log_returns(1) [of None "''schedule_fired''" "''rollout''" E "sw_txn ?s1" ?d ?db2]
      by (cases "audit_service_log E (sw_txn ?s1) None ''schedule_fired'' ''rollout'' ?d ?db2")
         (auto simp: fits_def fits_opt_def)
    have db3: "db_wf db3" "scheduled_rollouts db3 = replace_row r_id ?row (scheduled_rollouts ?w)"
      using db_wf_audit_service_log [OF wf2, of E "sw_txn ?s1" None "''schedule_fired''" "''rollout''" ?d]
        audit_service_log_frame(13) [of E "sw_txn ?s1" None "''schedule_fired''" "''rollout''" ?d ?db2]
      unfolding log by simp_all
    have "fire_row E row s = (None, ?s1\<lparr>sw_committed := db3, sw_working := db3, sw_fired := sw_fired s @ [r_id row],
                                 sw_txn := sw_txn ?s1 + 1, sw_clk := sw_clk s + 1\<rparr>)"
      unfolding fire_row_def ran prod.case sum.case Let_def ended_forms(1) w1 fl log by simp
    then show ?thesis
      by (rule that [of _ "''fired''" "Some (clock E (sw_clk s))" "r_error row"]) (simp_all add: db3 sweep_wf_def)
  next
    case stopped: (2 es ms)
    let ?s1 = "s\<lparr>sw_committed := with_events es ?w, sw_working := with_events es ?w, sw_txn := sw_txn s + 1,
                sw_sent := sw_sent s @ ms\<rparr>"
    let ?row = "ended ''failed'' (r_fired_at row) (Some (take 1000 (exn_text E MqttError))) row"
    let ?db2 = "(with_events es ?w)\<lparr>scheduled_rollouts := replace_row r_id ?row (scheduled_rollouts ?w)\<rparr>"
    have wf1: "db_wf (with_events es ?w)" using db_wf_with_events [OF wf stopped(1)] .
    have fl: "flush_rollout ?row (with_events es ?w) = Inr ?db2"
      using flush_ended [OF wf1, of row "''failed''" "r_fired_at row" "Some (take 1000 (exn_text E MqttError))"] assms(3)
      by (simp add: fits_def)
    have wf2: "db_wf ?db2" using wf1 fl by (rule db_wf_flush_rollout)
    have "fire_row E row s = (None, ?s1\<lparr>sw_working := ?db2\<rparr>)"
      by (simp add: fire_row_def stopped fail_row_def ended_forms(2) fl)
    then show ?thesis
      by (rule that [of _ "''failed''" "r_fired_at row" "Some (take 1000 (exn_text E MqttError))"])
         (simp_all add: sweep_wf_def wf1 wf2 stopped(3))
  qed
qed

text \<open>The turn does not read the status of the row in memory, only writes it.\<close>

lemma fire_row_status:
  assumes "row' = row\<lparr>r_status := st\<rparr>"
  shows "fire_row E row' s = fire_row E row s"
proof -
  have same: "request_of row' = request_of row" "r_id row' = r_id row" "r_target_version row' = r_target_version row"
    "r_target_devices row' = r_target_devices row"
    "\<And>x y. row'\<lparr>r_status := x, r_fired_at := y\<rparr> = row\<lparr>r_status := x, r_fired_at := y\<rparr>"
    "\<And>x y. row'\<lparr>r_status := x, r_error := y\<rparr> = row\<lparr>r_status := x, r_error := y\<rparr>"
    by (simp_all add: assms request_of_def)
  show ?thesis unfolding fire_row_def fail_row_def same ..
qed

lemma replace_row_keeps: "r \<in> set rows \<Longrightarrow> key r \<noteq> key new \<Longrightarrow> r \<in> set (replace_row key new rows)"
  by (auto simp: replace_row_def set_update_where)

text \<open>The whole loop: every row is settled, every other row is left alone.\<close>

lemma fire_rows_settles:
  assumes "sweep_wf s" "scan_ok E" "distinct (map r_id rows)"
    and "\<forall>row \<in> set rows. row \<in> set (scheduled_rollouts (sw_working s)) \<and> canary_ok (request_of row)"
  shows "\<exists>s'. fire_rows E rows s = (None, s') \<and> sweep_wf s' \<and>
    (\<forall>row \<in> set rows. \<exists>st f e. st \<in> {''fired'', ''failed''} \<and> (st = ''failed'' \<longrightarrow> (\<exists>topic. publish_raises E topic)) \<and>
       lookup_key r_id (r_id row) (scheduled_rollouts (sw_working s')) = Some (ended st f e row)) \<and>
    (\<forall>k. k \<notin> r_id ` set rows \<longrightarrow> lookup_key r_id k (scheduled_rollouts (sw_working s')) =
                                   lookup_key r_id k (scheduled_rollouts (sw_working s))) \<and>
    ((\<forall>topic. \<not> publish_raises E topic) \<longrightarrow> sw_fired s' = sw_fired s @ map r_id rows)"
  using assms(1,3,4)
proof (induction rows arbitrary: s)
  case Nil
  then show ?case by simp
next
  case (Cons row rows)
  have row: "row \<in> set (scheduled_rollouts (sw_working s))" "canary_ok (request_of row)"
    using Cons.prems(3) by auto
  obtain st f e s1 where s1: "fire_row E row s = (None, s1)" "sweep_wf s1" "st \<in> {''fired'', ''failed''}"
    "scheduled_rollouts (sw_working s1) = replace_row r_id (ended st f e row) (scheduled_rollouts (sw_working s))"
    "sw_fired s1 = sw_fired s @ (if st = ''fired'' then [r_id row] else [])"
    "st = ''failed'' \<longrightarrow> (\<exists>topic. publish_raises E topic)"
    using fire_row_step [OF Cons.prems(1) assms(2) row] by metis
  have rest: "\<forall>row' \<in> set rows. row' \<in> set (scheduled_rollouts (sw_working s1)) \<and> canary_ok (request_of row')"
    using Cons.prems(2,3) s1(4) by (auto intro!: replace_row_keeps simp: rev_image_eqI)
  obtain s' where s': "fire_rows E rows s1 = (None, s')" "sweep_wf s'"
    "\<forall>row \<in> set rows. \<exists>st f e. st \<in> {''fired'', ''failed''} \<and> (st = ''failed'' \<longrightarrow> (\<exists>topic. publish_raises E topic)) \<and>
       lookup_key r_id (r_id row) (scheduled_rollouts (sw_working s')) = Some (ended st f e row)"
    "\<forall>k. k \<notin> r_id ` set rows \<longrightarrow> lookup_key r_id k (scheduled_rollouts (sw_working s')) =
                                  lookup_key r_id k (scheduled_rollouts (sw_working s1))"
    "(\<forall>topic. \<not> publish_raises E topic) \<longrightarrow> sw_fired s' = sw_fired s1 @ map r_id rows"
    using Cons.IH [OF s1(2) _ rest] Cons.prems(2) by auto
  have lk1: "lookup_key r_id k (scheduled_rollouts (sw_working s1)) =
      (if k = r_id row then Some (ended st f e row) else lookup_key r_id k (scheduled_rollouts (sw_working s)))" for k
  proof -
    have "lookup_key r_id (r_id row) (scheduled_rollouts (sw_working s)) \<noteq> None"
      using row(1) by (simp only: lookup_key_None_iff) blast
    then show ?thesis by (simp add: s1(4) lookup_key_replace_row)
  qed
  have "r_id row \<notin> r_id ` set rows" using Cons.prems(2) by simp
  then have head: "lookup_key r_id (r_id row) (scheduled_rollouts (sw_working s')) = Some (ended st f e row)"
    using s'(4) lk1 [of "r_id row"] by simp
  show ?case
  proof (intro exI [of _ s'] conjI)
    show "fire_rows E (row # rows) s = (None, s')" using s1(1) s'(1) by simp
    show "\<forall>x \<in> set (row # rows). \<exists>st f e. st \<in> {''fired'', ''failed''} \<and> (st = ''failed'' \<longrightarrow> (\<exists>topic. publish_raises E topic)) \<and>
       lookup_key r_id (r_id x) (scheduled_rollouts (sw_working s')) = Some (ended st f e x)"
      using head s1(3,6) s'(3) by auto
    show "\<forall>k. k \<notin> r_id ` set (row # rows) \<longrightarrow> lookup_key r_id k (scheduled_rollouts (sw_working s')) =
        lookup_key r_id k (scheduled_rollouts (sw_working s))"
      using s'(4) lk1 by simp
    show "(\<forall>topic. \<not> publish_raises E topic) \<longrightarrow> sw_fired s' = sw_fired s @ map r_id (row # rows)"
      using s'(5) s1(3,5,6) by auto
  qed (rule s'(2))
qed



section \<open>The chronicle\<close>

text \<open>
  What every operation of the server leaves behind: OTA events and scheduled rollouts move along
  their life cycles, and the audit log only grows.
\<close>

definition chronicle :: "db \<Rightarrow> db \<Rightarrow> bool" where
  "chronicle db db' \<longleftrightarrow> events_evolve db db' \<and> rollouts_evolve db db' \<and>
     history (=) (audit_log db) (audit_log db')"

lemma chronicle_refl [simp]: "chronicle db db"
  by (simp add: chronicle_def)

lemma chronicle_trans: "chronicle db db' \<Longrightarrow> chronicle db' db'' \<Longrightarrow> chronicle db db''"
  unfolding chronicle_def
  by (blast intro: event_history.trans rollout_history.trans audit_history.trans)

lemma chronicle_frame:
  "ota_events db' = ota_events db \<Longrightarrow> scheduled_rollouts db' = scheduled_rollouts db \<Longrightarrow>
   audit_log db' = audit_log db \<Longrightarrow> chronicle db db'"
  by (simp add: chronicle_def)

lemma chronicle_audit [simp]: "chronicle db db' \<Longrightarrow> chronicle db (snd (audit_service_log E k u a r d db'))"
proof -
  have "history (=) (audit_log db') (audit_log (snd (audit_service_log E k u a r d db')))"
    using audit_service_log_appends [of E k u a r d db'] audit_history.append by metis
  then have "chronicle db' (snd (audit_service_log E k u a r d db'))" by (simp add: chronicle_def)
  then show "chronicle db db' \<Longrightarrow> ?thesis" by (rule chronicle_trans [rotated])
qed

text \<open>A transaction that only adds OTA events.\<close>

definition adds_events :: "db \<Rightarrow> db \<Rightarrow> bool" where
  "adds_events db db' \<longleftrightarrow> (\<exists>es. ota_events db' = ota_events db @ es) \<and>
     scheduled_rollouts db' = scheduled_rollouts db \<and> audit_log db' = audit_log db"

lemma adds_events_trans: "adds_events db db' \<Longrightarrow> adds_events db' db'' \<Longrightarrow> adds_events db db''"
  by (auto simp: adds_events_def)

lemma adds_events_insert: "adds_events db (snd (insert_event e db))"
  by (simp add: adds_events_def insert_event_def Let_def)

lemma adds_events_create: "adds_events db (snd (create_events E k v ds db))"
proof (induction ds arbitrary: db)
  case Nil
  show ?case by (simp add: adds_events_def)
next
  case (Cons d ds)
  show ?case
  proof (cases "d_firmware_version d")
    case None
    then show ?thesis by (simp add: adds_events_def)
  next
    case (Some fv)
    let ?e = "\<lparr> e_id = 0, e_device_id = d_device_id d, e_from_version = fv, e_to_version = v,
                e_status = ''pending'', e_started_at = pg_now E k, e_completed_at = None \<rparr>"
    obtain r db1 where ins: "insert_event ?e db = (r, db1)" by (cases "insert_event ?e db")
    have a: "adds_events db db1" using adds_events_insert [of db ?e] ins by simp
    have "snd (create_events E k v (d # ds) db) = (case r of Inl _ \<Rightarrow> db1 | Inr _ \<Rightarrow> snd (create_events E k v ds db1))"
      using Some ins by (simp split: sum.split prod.split)
    then show ?thesis
      using a adds_events_trans [OF a Cons.IH] by (simp split: sum.split)
  qed
qed

lemma adds_events_chronicle: "adds_events db db' \<Longrightarrow> chronicle db db'"
  using event_history.append by (auto simp: adds_events_def chronicle_def)

lemma adds_events_start_rollout: "adds_events db (fst (snd (start_rollout E k q db)))"
proof -
  have ce: "adds_events db db1" if "create_events E k (q_target_version q) ds db = (r, db1)" for ds r db1
    using adds_events_create [of db E k "q_target_version q" ds] that by simp
  have "adds_events db (rollback db db')" "adds_events db db" for db' by (simp_all add: adds_events_def rollback_def)
  then show ?thesis
    by (auto simp: start_rollout_def simp del: create_events.simps publish_commands.simps
        split: option.split sum.split list.split prod.split dest: ce)
qed

lemma flush_rollout_db:
  "flush_rollout r db = Inr db' \<Longrightarrow> db' = db\<lparr>scheduled_rollouts := replace_row r_id r (scheduled_rollouts db)\<rparr>"
  by (simp add: flush_rollout_def split: if_split_asm)

lemma chronicle_ended:
  assumes "flush_rollout (ended st f e r) db = Inr db'" "st \<in> {''fired'', ''cancelled'', ''failed''}"
    and "r \<in> set (scheduled_rollouts db)" "r_status r = ''pending''" "distinct (map r_id (scheduled_rollouts db))"
  shows "chronicle db db'"
proof -
  have "history rollout_step (scheduled_rollouts db) (replace_row r_id (ended st f e r) (scheduled_rollouts db))"
    using assms(2,4) by (intro rollout_history.replace_row [OF assms(5,3)]) (auto simp: rollout_step_def ended_def)
  then show ?thesis using flush_rollout_db [OF assms(1)] by (simp add: chronicle_def)
qed

text \<open>The chronicle and the schema through the loop, whatever the outcome of its turns.\<close>

definition sweep_inv :: "db \<Rightarrow> sweep \<Rightarrow> bool" where
  "sweep_inv db0 s \<longleftrightarrow> sweep_wf s \<and> chronicle db0 (sw_committed s) \<and> chronicle db0 (sw_working s)"

definition keeps_others :: "scheduled_rollout \<Rightarrow> db \<Rightarrow> db \<Rightarrow> bool" where
  "keeps_others row db db' \<longleftrightarrow> (\<forall>r \<in> set (scheduled_rollouts db). r_id r \<noteq> r_id row \<longrightarrow> r \<in> set (scheduled_rollouts db'))"

lemma keeps_others_flush: "flush_rollout (ended st f e row) db = Inr db' \<Longrightarrow> keeps_others row db db'"
  by (auto simp: keeps_others_def dest!: flush_rollout_db intro!: replace_row_keeps)

lemma sweep_inv_commit:
  "sweep_inv db0 s \<Longrightarrow> chronicle (sw_working s) db \<Longrightarrow> db_wf db \<Longrightarrow>
   sw_committed s' = db \<Longrightarrow> sw_working s' = db \<Longrightarrow> sweep_inv db0 s'"
  unfolding sweep_inv_def using chronicle_trans by (auto simp: sweep_wf_def)

lemma sweep_inv_pending:
  "sweep_inv db0 s \<Longrightarrow> chronicle (sw_working s) db \<Longrightarrow> db_wf db \<Longrightarrow>
   seqs_le (sequences (sw_working s)) (sequences db) \<Longrightarrow>
   sw_committed s' = sw_committed s \<Longrightarrow> sw_working s' = db \<Longrightarrow> sweep_inv db0 s'"
  unfolding sweep_inv_def using chronicle_trans seqs_le_trans by (auto simp: sweep_wf_def)

lemma fail_row_inv:
  assumes "sweep_inv db0 s" "row \<in> set (scheduled_rollouts (sw_working s))" "r_status row = ''pending''"
  shows "sweep_inv db0 (snd (fail_row row err s)) \<and> keeps_others row (sw_working s) (sw_working (snd (fail_row row err s)))"
proof (cases "flush_rollout (ended ''failed'' (r_fired_at row) (Some (take 1000 err)) row) (sw_working s)")
  case (Inl e)
  then show ?thesis using assms(1) by (simp add: fail_row_def ended_forms(2) keeps_others_def)
next
  case (Inr db1)
  have wf: "db_wf (sw_working s)" using assms(1) by (simp add: sweep_inv_def sweep_wf_def)
  have ch: "chronicle (sw_working s) db1"
    using chronicle_ended [OF Inr _ assms(2,3) rollout_rows(1) [OF wf]] by simp
  have wf1: "db_wf db1" using wf Inr by (rule db_wf_flush_rollout)
  have sq: "seqs_le (sequences (sw_working s)) (sequences db1)"
    by (subst flush_rollout_db [OF Inr]) simp
  have "sweep_inv db0 (s\<lparr>sw_working := db1\<rparr>)"
    by (rule sweep_inv_pending [OF assms(1) ch wf1 sq]) simp_all
  then show ?thesis
    using Inr keeps_others_flush [OF Inr] by (simp add: fail_row_def ended_forms(2))
qed

lemma start_rollout_seqs: "seqs_le (sequences db) (sequences (fst (snd (start_rollout E k q db))))" if "db_wf db"
proof -
  have ce: "seqs_le (sequences db) (sequences db1)" if "create_events E k (q_target_version q) ds db = (r, db1)" for ds r db1
    using db_wf_create_events [OF \<open>db_wf db\<close>, of E k "q_target_version q" ds] that by simp
  then show ?thesis
    by (auto simp: start_rollout_def rollback_def simp del: create_events.simps publish_commands.simps
        split: option.split sum.split list.split prod.split dest: ce)
qed

lemma fire_row_inv:
  assumes "sweep_inv db0 s" "row \<in> set (scheduled_rollouts (sw_working s))" "r_status row = ''pending''"
  shows "sweep_inv db0 (snd (fire_row E row s)) \<and> keeps_others row (sw_working s) (sw_working (snd (fire_row E row s)))"
proof -
  let ?w = "sw_working s"
  obtain r db1 ms where run: "start_rollout E (sw_txn s) (request_of row) ?w = (r, db1, ms)"
    by (cases "start_rollout E (sw_txn s) (request_of row) ?w")
  have wf: "db_wf ?w" using assms(1) by (simp add: sweep_inv_def sweep_wf_def)
  have wf1: "db_wf db1" using db_wf_with_events [OF wf run] .
  have add: "adds_events ?w db1" using adds_events_start_rollout [of ?w E "sw_txn s" "request_of row"] run by simp
  have ch1: "chronicle ?w db1" using add by (rule adds_events_chronicle)
  have mem1: "row \<in> set (scheduled_rollouts db1)" using add assms(2) by (simp add: adds_events_def)
  have sq1: "seqs_le (sequences ?w) (sequences db1)" using start_rollout_seqs [OF wf, of E "sw_txn s" "request_of row"] run by simp
  have ko: "keeps_others row ?w db2" if "keeps_others row db1 db2" for db2
    using that add by (simp add: keeps_others_def adds_events_def)
  have ko1: "keeps_others row ?w db1" using add by (simp add: keeps_others_def adds_events_def)
  show ?thesis
  proof (cases r)
    case (Inl e)
    let ?s1 = "s\<lparr>sw_committed := db1, sw_working := db1, sw_txn := sw_txn s + 1, sw_sent := sw_sent s @ ms\<rparr>"
    have "sweep_inv db0 ?s1" by (rule sweep_inv_commit [OF assms(1) ch1 wf1]) simp_all
    from fail_row_inv [OF this, of row "exn_text E MqttError"] mem1 assms(3) ko
    have m: "sweep_inv db0 (snd (fail_row row (exn_text E MqttError) ?s1)) \<and>
        keeps_others row ?w (sw_working (snd (fail_row row (exn_text E MqttError) ?s1)))" by simp
    have p: "sweep_inv db0 (s\<lparr>sw_working := db1\<rparr>)"
      by (rule sweep_inv_pending [OF assms(1) ch1 wf1 sq1]) simp_all
    show ?thesis
      using Inl run m p ko1 fail_row_inv [OF assms] by (cases e) (simp_all add: fire_row_def)
  next
    case (Inr events)
    let ?s1 = "(if events = [] then s else s\<lparr>sw_committed := db1, sw_working := db1, sw_txn := sw_txn s + 1\<rparr>)
                     \<lparr>sw_sent := sw_sent s @ ms\<rparr>"
    let ?w1 = "if events = [] then ?w else db1"
    let ?row = "ended ''fired'' (Some (clock E (sw_clk s))) (r_error row) row"
    have w1: "sw_working ?s1 = ?w1" by simp
    have inv1: "sweep_inv db0 ?s1"
    proof (cases "events = []")
      case True
      then show ?thesis using assms(1) by (simp add: sweep_inv_def sweep_wf_def)
    qed (simp add: sweep_inv_commit [OF assms(1) ch1 wf1])
    have wfw1: "db_wf ?w1" and memw1: "row \<in> set (scheduled_rollouts ?w1)"
      and chw1: "chronicle ?w ?w1" and kow1: "keeps_others row ?w ?w1"
      using wf wf1 assms(2) mem1 ch1 ko1 by (auto simp: keeps_others_def)
    show ?thesis
    proof (cases "flush_rollout ?row ?w1")
      case fl: (Inl e)
      have "fire_row E row s = (Some e, ?s1)"
        unfolding fire_row_def run Inr prod.case sum.case Let_def ended_forms(1) w1 fl ..
      then show ?thesis using inv1 ko1 by (simp add: keeps_others_def)
    next
      case fl: (Inr db2)
      let ?log = "audit_service_log E (sw_txn ?s1) None ''schedule_fired'' ''rollout''
          (Some (JObj [(''id'', JInt (r_id row)), (''target_version'', JStr (r_target_version row)),
                 (''total_devices'', JInt (int (length (r_target_devices row))))])) db2"
      have wf2: "db_wf db2" using wfw1 fl by (rule db_wf_flush_rollout)
      have ch2: "chronicle ?w1 db2"
        using chronicle_ended [OF fl _ memw1 assms(3) rollout_rows(1) [OF wfw1]] by simp
      have ko2: "keeps_others row ?w db2"
        using kow1 keeps_others_flush [OF fl] by (simp add: keeps_others_def)
      have log: "chronicle ?w1 (snd ?log)" "db_wf (snd ?log)" "keeps_others row ?w (snd ?log)"
          "seqs_le (sequences ?w1) (sequences (snd ?log))"
        using ch2 wf2 ko2 flush_rollout_db [OF fl] audit_service_log_seqs [of db2] by (simp_all add: keeps_others_def)
      have "sw_working (snd (fire_row E row s)) = snd ?log \<and> sw_committed (snd (fire_row E row s)) \<in> {sw_committed ?s1, snd ?log}"
        unfolding fire_row_def run Inr prod.case sum.case Let_def ended_forms(1) w1 fl
        by (simp split: prod.split sum.split)
      then show ?thesis
        using log sweep_inv_commit [OF inv1, of "snd ?log" "snd (fire_row E row s)"]
          sweep_inv_pending [OF inv1, of "snd ?log" "snd (fire_row E row s)"] w1 by auto
    qed
  qed
qed

lemma fire_rows_inv:
  assumes "sweep_inv db0 s" "distinct (map r_id rows)"
    and "\<forall>row \<in> set rows. row \<in> set (scheduled_rollouts (sw_working s)) \<and> r_status row = ''pending''"
  shows "sweep_inv db0 (snd (fire_rows E rows s))"
  using assms
proof (induction rows arbitrary: s)
  case (Cons row rows)
  obtain eo s1 where run: "fire_row E row s = (eo, s1)" by (cases "fire_row E row s")
  have s1: "sweep_inv db0 s1" "keeps_others row (sw_working s) (sw_working s1)"
    using fire_row_inv [OF Cons.prems(1), of row E] Cons.prems(3) run by auto
  have "\<forall>row' \<in> set rows. row' \<in> set (scheduled_rollouts (sw_working s1)) \<and> r_status row' = ''pending''"
    using Cons.prems(2,3) s1(2) by (auto simp: keeps_others_def) (metis image_eqI)
  then have "sweep_inv db0 (snd (fire_rows E rows s1))"
    using Cons.IH [OF s1(1)] Cons.prems(2) by simp
  then show ?case using run s1(1) by (simp split: option.split)
qed simp

lemma fire_due_inv:
  assumes "db_wf db" "scan_ok E"
  shows "chronicle db (fst (snd (fire_due_scheduled_rollouts E db))) \<and> db_wf (fst (snd (fire_due_scheduled_rollouts E db)))"
proof -
  let ?rows = "scan E (filter (due (clock E 0)) (scheduled_rollouts db))"
  have "sweep_inv db (snd (fire_rows E ?rows (start_sweep db)))"
  proof (rule fire_rows_inv)
    show "distinct (map r_id ?rows)"
      using rollout_rows(1) [OF assms(1)] by (simp add: distinct_scan_map [OF assms(2)] distinct_map_filter)
  qed (use assms in \<open>auto simp: sweep_inv_def start_sweep_def due_def\<close>)
  moreover have "chronicle db (rollback c w)" if "chronicle db c" for c w
    using that by (simp add: chronicle_def rollback_def)
  ultimately show ?thesis
    by (auto simp: fire_due_scheduled_rollouts_def sweep_inv_def sweep_wf_def db_wf_rollback
        split: prod.split option.split)
qed

text \<open>
  C24: a row the database refuses stops the job for good. A due canary rollout with a negative count
  passes the schema and the endpoint; when it comes first, the query for its devices fails, the job
  ends with that error, and the database is as before, so the next run meets the same row again.
\<close>

theorem negative_canary_blocks_job:
  assumes "db_wf db" "scan E (filter (due (clock E 0)) (scheduled_rollouts db)) = row # rows"
    and "row \<in> set (scheduled_rollouts db)" "r_strategy row = ''canary''" "r_canary_count row = Some n" "n < 0"
  shows "fire_due_scheduled_rollouts E db = (Inl DBAPIError, db, [])"
proof -
  obtain f where f: "get_by_version (r_target_version row) db = Some f"
    using version_known [OF rollout_rows(3) [OF assms(1,3)]] by blast
  have "request_devices E (request_of row) db = Inl DBAPIError"
    unfolding request_devices_eq [OF assms(1)] using assms(4-6)
    by (simp add: request_of_def limit_rows_def)
  then have "start_rollout E 0 (request_of row) db = (Inl DBAPIError, db, [])"
    using f by (simp add: start_rollout_def request_of_def)
  then have "fire_row E row (start_sweep db) = (Some DBAPIError, start_sweep db)"
    by (simp add: fire_row_def start_sweep_def)
  then show ?thesis
    by (simp add: fire_due_scheduled_rollouts_def assms(2) start_sweep_def rollback_def)
qed

theorem negative_canary_blocks_job_witness:
  "\<exists>row db. row = (sample_rollout 1 999)\<lparr>r_strategy := ''canary'', r_canary_count := Some (- 1)\<rparr> \<and>
     db = sample_db\<lparr>scheduled_rollouts := [row]\<rparr> \<and> db_wf db \<and>
     fire_due_scheduled_rollouts demo_ext db = (Inl DBAPIError, db, [])"
proof -
  let ?row = "(sample_rollout 1 999)\<lparr>r_strategy := ''canary'', r_canary_count := Some (- 1)\<rparr>"
  let ?db = "sample_db\<lparr>scheduled_rollouts := [?row]\<rparr>"
  have "flush_rollout ?row sample_db = Inr ?db"
    by (simp add: flush_rollout_def rollout_ok_def fits_def fits_opt_def int4_opt_def int4_def replace_row_def update_where_def)
  then have "db_wf ?db" by (rule db_wf_flush_rollout [OF db_wf_sample])
  then show ?thesis
    using negative_canary_blocks_job [of ?db demo_ext ?row "[]" "- 1"] by (simp add: due_def seconds_def)
qed

section \<open>Frames of the endpoints and of the sweep\<close>

lemma db_wf_check_dead_devices [wf_intros]: "db_wf db \<Longrightarrow> db_wf (fst (snd (check_dead_devices E db)))"
  unfolding check_dead_devices_def Let_def fst_conv snd_conv
  by (rule db_wf_update_devices) (auto simp: device_ok_def fits_def)

lemma check_dead_devices_chronicle: "chronicle db (fst (snd (check_dead_devices E db)))"
  by (simp add: check_dead_devices_def Let_def chronicle_frame)

lemma insert_rollout_frame:
  "chronicle db (snd (insert_rollout r db))" "seqs_le (sequences db) (sequences (snd (insert_rollout r db)))"
  using rollout_history.append
  by (auto simp: insert_rollout_def Let_def chronicle_def seqs_le_def)

lemma create_scheduled_inv:
  assumes "db_wf db"
  shows "db_wf (snd (create_scheduled E token p db)) \<and> chronicle db (snd (create_scheduled E token p db))"
proof -
  have ins: "db_wf db1" "chronicle db db1" "db_wf (rollback db db1)" "chronicle db (rollback db db1)"
    if "insert_rollout r db = (x, db1)" for r x db1
  proof -
    have sq: "seqs_le (sequences db) (sequences db1)" and ch: "chronicle db db1"
      using insert_rollout_frame [of db r] that by simp_all
    show "db_wf db1" using assms that by (rule db_wf_insert_rollout)
    show "chronicle db db1" by (rule ch)
    show "db_wf (rollback db db1)" using assms sq by (rule db_wf_rollback)
    show "chronicle db (rollback db db1)" by (simp add: chronicle_frame rollback_def)
  qed
  show ?thesis
    using assms by (auto simp: create_scheduled_def split: sum.split prod.split dest: ins)
qed

lemma cancel_scheduled_inv:
  assumes "db_wf db"
  shows "db_wf (snd (cancel_scheduled E token i db)) \<and> chronicle db (snd (cancel_scheduled E token i db))"
proof -
  have fl: "db_wf db1" "chronicle db db1"
    if "lookup_key r_id i (scheduled_rollouts db) = Some row" "r_status row = ''pending''"
      "flush_rollout (row\<lparr>r_status := ''cancelled''\<rparr>) db = Inr db1" for row db1
  proof -
    show "db_wf db1" using assms that(3) by (rule db_wf_flush_rollout)
    show "chronicle db db1"
      using chronicle_ended [OF that(3) [unfolded ended_forms(3)] _ _ that(2) rollout_rows(1) [OF assms]]
        lookup_key_SomeD [OF that(1)] by simp
  qed
  show ?thesis
    using assms by (auto simp: cancel_scheduled_def split: sum.split option.split dest: fl)
qed

lemmas scheduler_wf [wf_intros] =
  conjunct1 [OF create_scheduled_inv] conjunct1 [OF cancel_scheduled_inv] conjunct2 [OF fire_due_inv]

text \<open>A request that cancels a rollout found it pending and leaves it cancelled.\<close>

lemma cancel_scheduled_InrD:
  assumes "cancel_scheduled E token i db = (Inr row, db')"
  shows "\<exists>r. lookup_key r_id i (scheduled_rollouts db) = Some r \<and> r_status r = ''pending'' \<and>
            row = r\<lparr>r_status := ''cancelled''\<rparr>"
    and "r_id row = i" "r_status row = ''cancelled''" "row \<in> set (scheduled_rollouts db')"
proof -
  obtain r db1 where r: "lookup_key r_id i (scheduled_rollouts db) = Some r" "r_status r = ''pending''"
    "flush_rollout (r\<lparr>r_status := ''cancelled''\<rparr>) db = Inr db1" "row = r\<lparr>r_status := ''cancelled''\<rparr>"
    and db': "scheduled_rollouts db' = scheduled_rollouts db1"
  proof -
    have "fst (cancel_scheduled E token i db) = Inr row" "snd (cancel_scheduled E token i db) = db'"
      using assms by simp_all
    then show ?thesis
      by (auto simp: cancel_scheduled_def fst_returning_Inr_iff split: sum.splits option.splits if_splits intro!: that)
  qed
  show "\<exists>r. lookup_key r_id i (scheduled_rollouts db) = Some r \<and> r_status r = ''pending'' \<and>
      row = r\<lparr>r_status := ''cancelled''\<rparr>" using r by blast
  have rid: "r_id r = i" "r \<in> set (scheduled_rollouts db)" using lookup_key_SomeD [OF r(1)] by auto
  then show "r_id row = i" "r_status row = ''cancelled''" using r(4) by simp_all
  show "row \<in> set (scheduled_rollouts db')"
    unfolding db' using flush_rollout_db [OF r(3)] replace_row_mem [OF rid(2), of r_id row] r(4) by simp
qed

text \<open>The sample rollout can be cancelled.\<close>

lemma sample_cancel:
  "\<exists>row db'. cancel_scheduled demo_ext (sample_token ''admin'') 1 sample_db = (Inr row, db')"
proof -
  have "\<exists>row. fst (cancel_scheduled demo_ext (sample_token ''admin'') 1 sample_db) = Inr row"
    by (simp add: cancel_scheduled_def int4_def lookup_key_def flush_rollout_def rollout_ok_def fits_def
        int4_opt_def fst_returning_Inr_iff audit_service_log_returns fits_opt_def)
  then show ?thesis by (metis prod.collapse)
qed

end
