(* ===== verification/Mqtt_Handlers.thy ===== *)
theory Mqtt_Handlers
  imports Ota_Events Sample_Fleet
begin

text \<open>
  \<^verbatim>\<open>mqtt/handlers.py\<close> and the message loop of \<^verbatim>\<open>mqtt/client.py\<close>: the heartbeat, registration and
  OTA-status handlers over decoded JSON, and the dispatch of a message by its topic. A handler
  returns its result or exception with the committed database. The lemmas show what each handler
  writes and to which rows, that the schema invariant is kept, and that an OTA event that has
  reached a final status is never written again.
\<close>

section \<open>Rows the handlers create and write\<close>

text \<open>The columns a heartbeat writes.\<close>

definition set_metrics :: "datetime \<Rightarrow> int option \<Rightarrow> int option \<Rightarrow> int option \<Rightarrow> device \<Rightarrow> device" where
  "set_metrics now rssi heap uptime d =
     d\<lparr>d_status := ''alive'', d_last_seen := Some now, d_rssi := rssi, d_heap := heap, d_uptime := uptime\<rparr>"

section \<open>Heartbeats\<close>

text \<open>
  The promotion step at the end of a heartbeat: the device's most recently started event among
  the active ones of the last ten minutes becomes a success.
\<close>

definition recent_events :: "ext \<Rightarrow> string \<Rightarrow> datetime \<Rightarrow> db \<Rightarrow> ota_event list" where
  "recent_events E device_name cutoff db =
     scan E (filter (\<lambda>e. e_device_id e = device_name \<and> event_active e \<and> cutoff \<le> e_started_at e) (ota_events db))"

definition promote_ota :: "ext \<Rightarrow> string \<Rightarrow> db \<Rightarrow> bool db_res" where
  "promote_ota E device_name db =
     (let cutoff = clock E 1 - minutes 10 in
      case first_desc e_started_at (recent_events E device_name cutoff db) of
        None \<Rightarrow> (Inr True, db)
      | Some event \<Rightarrow>
          (case flush_event (event\<lparr>e_status := ''success'', e_completed_at := Some (clock E 2)\<rparr>) db of
             Inl e \<Rightarrow> (Inl e, db)
           | Inr db1 \<Rightarrow>
               (case update_firmware (pg_now E 1) device_name (e_to_version event) db1 of
                  Inl e \<Rightarrow> (Inl e, db)
                | Inr db2 \<Rightarrow> (Inr True, db2))))"

definition handle_heartbeat :: "ext \<Rightarrow> string \<Rightarrow> string \<Rightarrow> db \<Rightarrow> bool db_res" where
  "handle_heartbeat E device_name raw_payload db =
     (case json_loads E raw_payload of
        None \<Rightarrow> (Inr False, db)
      | Some data \<Rightarrow>
          (case (json_get data ''uptime'' JNull, json_get data ''rssi'' JNull, json_get data ''heap'' JNull) of
             (Inr uptime, Inr rssi, Inr heap) \<Rightarrow>
               (case (bind_int E rssi, bind_int E heap, bind_int E uptime) of
                  (Some r, Some h, Some u) \<Rightarrow>
                    if device_name \<notin> device_keys db
                    then (case insert_device
                                 (set_metrics (clock E 1) r h u (default_device device_name (pg_now E 1))) db of
                            Inl e \<Rightarrow> (Inl e, db)
                          | Inr db1 \<Rightarrow> (Inr True, db1))
                    else
                      let db1 = db\<lparr>devices := update_where (\<lambda>d. d_device_id d = device_name)
                                    (\<lambda>d. (set_metrics (clock E 0) r h u d)\<lparr>d_updated_at := pg_now E 0\<rparr>) (devices db)\<rparr>
                      in if uptime = JNull then (Inr True, db1)
                         else (case json_less uptime 180 of
                                 Inl e \<Rightarrow> (Inl e, db1)
                               | Inr False \<Rightarrow> (Inr True, db1)
                               | Inr True \<Rightarrow> promote_ota E device_name db1)
                | _ \<Rightarrow> (Inl DBAPIError, db))
           | _ \<Rightarrow> (Inl AttributeError, db)))"

section \<open>Registration\<close>

text \<open>\<^verbatim>\<open>(data.get(key) or "").strip() or None\<close>\<close>

definition optional_text :: "json \<Rightarrow> string \<Rightarrow> string option res" where
  "optional_text data k =
     (case json_get data k JNull of
        Inl e \<Rightarrow> Inl e
      | Inr j \<Rightarrow>
          if \<not> truthy j then Inr None
          else (case j of
                  JStr s \<Rightarrow> Inr (if strip s = [] then None else Some (strip s))
                | _ \<Rightarrow> Inl AttributeError))"

text \<open>The fields of a registration payload; the first access that fails raises.\<close>

record registration =
  reg_mac :: json
  reg_version :: json
  reg_role :: json
  reg_home_id :: "string option"
  reg_label :: "string option"
  reg_custom_id :: "string option"

definition parse_registration :: "json \<Rightarrow> registration res" where
  "parse_registration data =
     (case (json_get data ''mac'' (JStr ''unknown''), json_get data ''version'' (JStr ''unknown''),
            json_get data ''role'' (JStr ''sensor''), optional_text data ''home_id'',
            optional_text data ''label'', optional_text data ''custom_id'') of
        (Inr m, Inr v, Inr r, Inr h, Inr l, Inr c) \<Rightarrow>
          Inr \<lparr> reg_mac = m, reg_version = v, reg_role = r, reg_home_id = h, reg_label = l, reg_custom_id = c \<rparr>
      | _ \<Rightarrow> Inl AttributeError)"

text \<open>A home the installer typed in is created as a placeholder.\<close>

definition ensure_home :: "ext \<Rightarrow> string option \<Rightarrow> db \<Rightarrow> db res" where
  "ensure_home E home_id db =
     (case home_id of
        None \<Rightarrow> Inr db
      | Some h \<Rightarrow>
          if h \<in> home_keys db then Inr db
          else insert_home \<lparr> h_home_id = h, h_patient_name = h, h_address = None, h_created_at = pg_now E 0 \<rparr> db)"

definition keep_unless :: "'a option \<Rightarrow> 'a option \<Rightarrow> 'a option" where
  "keep_unless new old = (case new of None \<Rightarrow> old | Some _ \<Rightarrow> new)"

text \<open>
  The row after the assignments to an existing object. Its UPDATE is sent, and \<^verbatim>\<open>updated_at\<close> set,
  only when some column differs.
\<close>

definition reregistered :: "ext \<Rightarrow> registration \<Rightarrow> string option \<Rightarrow> string option \<Rightarrow> string \<Rightarrow> device \<Rightarrow> device" where
  "reregistered E reg mac version role d =
     (let d' = d\<lparr>d_mac := mac, d_firmware_version := version, d_role := role, d_status := ''alive'',
                 d_last_seen := Some (clock E 0),
                 d_home_id := keep_unless (reg_home_id reg) (d_home_id d),
                 d_display_name := keep_unless (reg_label reg) (d_display_name d),
                 d_custom_id := keep_unless (reg_custom_id reg) (d_custom_id d)\<rparr>
      in if d' = d then d else d'\<lparr>d_updated_at := pg_now E 0\<rparr>)"

definition registered :: "ext \<Rightarrow> string \<Rightarrow> registration \<Rightarrow> string option \<Rightarrow> string option \<Rightarrow> string \<Rightarrow> device" where
  "registered E device_name reg mac version role =
     (default_device device_name (pg_now E 0))
       \<lparr>d_mac := mac, d_firmware_version := version, d_role := role, d_status := ''alive'',
        d_last_seen := Some (clock E 0), d_home_id := reg_home_id reg,
        d_display_name := reg_label reg, d_custom_id := reg_custom_id reg\<rparr>"

text \<open>
  A \<^verbatim>\<open>null\<close> role violates NOT NULL when an existing row is updated; on an INSERT the mapper leaves
  the column out and its default applies.
\<close>

definition write_registration :: "ext \<Rightarrow> string \<Rightarrow> registration \<Rightarrow> db \<Rightarrow> (device \<times> db) res" where
  "write_registration E device_name reg db =
     (case (bind_text E (reg_mac reg), bind_text E (reg_version reg), bind_text E (reg_role reg)) of
        (Some mac, Some version, Some role) \<Rightarrow>
          (case lookup_key d_device_id device_name (devices db) of
             Some d \<Rightarrow>
               (case role of
                  None \<Rightarrow> Inl (if device_ok (reregistered E reg mac version [] d) then IntegrityError else DBAPIError)
                | Some r \<Rightarrow>
                    let d' = reregistered E reg mac version r d in
                    case flush_device d' db of Inl e \<Rightarrow> Inl e | Inr db1 \<Rightarrow> Inr (d', db1))
           | None \<Rightarrow>
               let d' = registered E device_name reg mac version (case role of None \<Rightarrow> ''sensor'' | Some r \<Rightarrow> r) in
               case insert_device d' db of Inl e \<Rightarrow> Inl e | Inr db1 \<Rightarrow> Inr (d', db1))
      | _ \<Rightarrow> Inl DBAPIError)"

definition handle_registration :: "ext \<Rightarrow> string \<Rightarrow> string \<Rightarrow> db \<Rightarrow> device db_res" where
  "handle_registration E device_name raw_payload db =
     (case json_loads E raw_payload of
        None \<Rightarrow> (Inl (ValueError (''Invalid registration payload from '' @ device_name)), db)
      | Some data \<Rightarrow>
          (case parse_registration data of
             Inl e \<Rightarrow> (Inl e, db)
           | Inr reg \<Rightarrow>
               (case ensure_home E (reg_home_id reg) db of
                  Inl e \<Rightarrow> (Inl e, db)
                | Inr db1 \<Rightarrow>
                    (case write_registration E device_name reg db1 of
                       Inl e \<Rightarrow> (Inl e, db)
                     | Inr (d, db2) \<Rightarrow> (Inr d, db2)))))"

section \<open>OTA status reports\<close>

definition status_events :: "ext \<Rightarrow> string \<Rightarrow> string option \<Rightarrow> db \<Rightarrow> ota_event list" where
  "status_events E device_name version db =
     scan E (filter (\<lambda>e. e_device_id e = device_name \<and> Some (e_to_version e) = version \<and> event_active e) (ota_events db))"

definition report_event :: "ext \<Rightarrow> string \<Rightarrow> ota_event \<Rightarrow> ota_event" where
  "report_event E status event =
     (let e' = event\<lparr>e_status := status\<rparr> in
      if status \<in> {''success'', ''failed''} then e'\<lparr>e_completed_at := Some (clock E 0)\<rparr> else e')"

definition handle_ota_status :: "ext \<Rightarrow> string \<Rightarrow> string \<Rightarrow> db \<Rightarrow> bool db_res" where
  "handle_ota_status E device_name raw_payload db =
     (case json_loads E raw_payload of
        None \<Rightarrow> (Inr False, db)
      | Some data \<Rightarrow>
          (case (json_get data ''status'' JNull, json_get data ''version'' JNull) of
             (Inr status, Inr version) \<Rightarrow>
               if \<not> truthy status \<or> \<not> truthy version then (Inr False, db)
               else (case bind_text E version of
                  None \<Rightarrow> (Inl DBAPIError, db)
                | Some v \<Rightarrow>
                    (case first_desc e_started_at (status_events E device_name v db) of
                       None \<Rightarrow> (Inr False, db)
                     | Some event \<Rightarrow>
                         (case bind_text E status of
                            Some (Some s) \<Rightarrow>
                              (case flush_event (report_event E s event) db of
                                 Inl e \<Rightarrow> (Inl e, db)
                               | Inr db1 \<Rightarrow>
                                   if s = ''success''
                                   then (case update_firmware (pg_now E 0) device_name (e_to_version event) db1 of
                                           Inl e \<Rightarrow> (Inl e, db)
                                         | Inr db2 \<Rightarrow> (Inr True, db2))
                                   else (Inr True, db1))
                          | _ \<Rightarrow> (Inl DBAPIError, db))))
           | _ \<Rightarrow> (Inl AttributeError, db)))"

section \<open>The message loop\<close>

definition TOPIC_HEARTBEAT :: string where "TOPIC_HEARTBEAT = ''fleet/+/heartbeat''"
definition TOPIC_REGISTER :: string where "TOPIC_REGISTER = ''fleet/+/register''"
definition TOPIC_OTA_STATUS :: string where "TOPIC_OTA_STATUS = ''fleet/+/ota/status''"
definition TOPIC_LOG :: string where "TOPIC_LOG = ''fleet/+/log''"

datatype route = Heartbeat string | Register string | Ota_Status string | Device_Log string | No_Route

definition route_of :: "string \<Rightarrow> route" where
  "route_of topic =
     (let parts = split_on (CHR ''/'') topic in
      if length parts < 3 then No_Route
      else let device_name = parts ! 1 in
        if endswith topic ''/heartbeat'' then Heartbeat device_name
        else if endswith topic ''/register'' then Register device_name
        else if endswith topic ''/ota/status'' then Ota_Status device_name
        else if endswith topic ''/log'' then Device_Log device_name
        else No_Route)"

text \<open>
  One turn of the loop. A payload that is not UTF-8 (\<open>None\<close>) raises outside the \<^verbatim>\<open>try\<close> and ends the
  task, shown by the first component; an exception of a handler is logged and the loop goes on.
\<close>

definition on_message :: "ext \<Rightarrow> string \<Rightarrow> string option \<Rightarrow> db \<Rightarrow> bool \<times> db" where
  "on_message E topic payload db =
     (case payload of
        None \<Rightarrow> (False, db)
      | Some p \<Rightarrow>
          (True, case route_of topic of
                   Heartbeat d \<Rightarrow> snd (handle_heartbeat E d p db)
                 | Register d \<Rightarrow> snd (handle_registration E d p db)
                 | Ota_Status d \<Rightarrow> snd (handle_ota_status E d p db)
                 | Device_Log d \<Rightarrow> db
                 | No_Route \<Rightarrow> db))"

text \<open>The task over a stream of messages, each in the environment of its moment.\<close>

fun listen :: "(ext \<times> string \<times> string option) list \<Rightarrow> db \<Rightarrow> bool \<times> db" where
  "listen [] db = (True, db)"
| "listen ((E, topic, payload) # ms) db =
     (case on_message E topic payload db of
        (False, db') \<Rightarrow> (False, db')
      | (True, db') \<Rightarrow> listen ms db')"

section \<open>Frames and the schema invariant\<close>

lemma device_ok_set_metrics:
  "device_ok d \<Longrightarrow> int4_opt r \<Longrightarrow> int4_opt h \<Longrightarrow> int4_opt u \<Longrightarrow> device_ok (set_metrics t r h u d)"
  by (simp add: device_ok_def set_metrics_def fits_def)

lemma set_metrics_keys [simp]:
  "d_device_id (set_metrics t r h u d) = d_device_id d" "d_mac (set_metrics t r h u d) = d_mac d"
  "d_home_id (set_metrics t r h u d) = d_home_id d" "d_firmware_version (set_metrics t r h u d) = d_firmware_version d"
  by (simp_all add: set_metrics_def)

lemma bind_int_int4: "bind_ok E \<Longrightarrow> bind_int E j = Some v \<Longrightarrow> int4_opt v"
  by (cases v) (auto simp: int4_opt_def dest: bind_int_eq(2))

definition heartbeat_update ::
  "ext \<Rightarrow> string \<Rightarrow> int option \<Rightarrow> int option \<Rightarrow> int option \<Rightarrow> db \<Rightarrow> db" where
  "heartbeat_update E device_name r h u db =
     db\<lparr>devices := update_where (\<lambda>d. d_device_id d = device_name)
          (\<lambda>d. (set_metrics (clock E 0) r h u d)\<lparr>d_updated_at := pg_now E 0\<rparr>) (devices db)\<rparr>"

lemma heartbeat_update_frame [simp]:
  "ota_events (heartbeat_update E n r h u db) = ota_events db"
  "device_keys (heartbeat_update E n r h u db) = device_keys db"
  by (simp_all add: heartbeat_update_def keys_update_where)

lemma db_wf_heartbeat_update [wf_intros]:
  assumes "db_wf db" "int4_opt r" "int4_opt h" "int4_opt u"
  shows "db_wf (heartbeat_update E n r h u db)"
  unfolding heartbeat_update_def
proof (rule db_wf_update_devices [OF assms(1)])
  fix d assume "device_ok d"
  then have "device_ok (set_metrics (clock E 0) r h u d)"
    using assms(2-4) by (rule device_ok_set_metrics)
  then show "device_ok ((set_metrics (clock E 0) r h u d)\<lparr>d_updated_at := pg_now E 0\<rparr>)"
    by (simp add: device_ok_def)
qed simp_all

lemma db_wf_promote_ota [wf_intros]: "db_wf db \<Longrightarrow> db_wf (snd (promote_ota E n db))"
  by (auto simp: promote_ota_def Let_def split: option.split sum.split
      intro: db_wf_flush_event db_wf_update_firmware)

text \<open>The shape of a heartbeat from its decoded fields on.\<close>

lemma handle_heartbeat_obj:
  assumes "json_loads E raw = Some (JObj kvs)"
  shows "handle_heartbeat E n raw db =
     (case (bind_int E (obj_get kvs ''rssi''), bind_int E (obj_get kvs ''heap''), bind_int E (obj_get kvs ''uptime'')) of
        (Some r, Some h, Some u) \<Rightarrow>
          if n \<notin> device_keys db
          then (case insert_device (set_metrics (clock E 1) r h u (default_device n (pg_now E 1))) db of
                  Inl e \<Rightarrow> (Inl e, db) | Inr db1 \<Rightarrow> (Inr True, db1))
          else if obj_get kvs ''uptime'' = JNull then (Inr True, heartbeat_update E n r h u db)
          else (case json_less (obj_get kvs ''uptime'') 180 of
                  Inl e \<Rightarrow> (Inl e, heartbeat_update E n r h u db)
                | Inr False \<Rightarrow> (Inr True, heartbeat_update E n r h u db)
                | Inr True \<Rightarrow> promote_ota E n (heartbeat_update E n r h u db))
      | _ \<Rightarrow> (Inl DBAPIError, db))"
  by (simp only: handle_heartbeat_def assms heartbeat_update_def obj_get_def Let_def json_get.simps
      option.case sum.case prod.case)

lemma handle_heartbeat_not_obj:
  assumes "\<And>kvs. json_loads E raw \<noteq> Some (JObj kvs)"
  shows "snd (handle_heartbeat E n raw db) = db"
proof (cases "json_loads E raw")
  case (Some data)
  with assms show ?thesis by (cases data) (auto simp: handle_heartbeat_def)
qed (simp add: handle_heartbeat_def)

lemma db_wf_handle_heartbeat [wf_intros]:
  assumes "bind_ok E" "db_wf db"
  shows "db_wf (snd (handle_heartbeat E n raw db))"
proof (cases "\<exists>kvs. json_loads E raw = Some (JObj kvs)")
  case True
  then obtain kvs where kvs: "json_loads E raw = Some (JObj kvs)" ..
  show ?thesis
    unfolding handle_heartbeat_obj [OF kvs]
    by (auto split: option.split sum.split bool.split
        intro!: db_wf_heartbeat_update db_wf_promote_ota bind_int_int4 assms
        intro: db_wf_insert_device assms)
next
  case False
  then show ?thesis using assms(2) by (simp add: handle_heartbeat_not_obj)
qed

lemma db_wf_ensure_home: "db_wf db \<Longrightarrow> ensure_home E hid db = Inr db' \<Longrightarrow> db_wf db'"
  by (auto simp: ensure_home_def split: option.splits if_splits intro: db_wf_insert_home)

lemma db_wf_write_registration: "db_wf db \<Longrightarrow> write_registration E n reg db = Inr (d, db') \<Longrightarrow> db_wf db'"
  by (auto simp: write_registration_def Let_def split: option.splits sum.splits
      intro: db_wf_flush_device db_wf_insert_device)

lemma db_wf_handle_registration [wf_intros]:
  "db_wf db \<Longrightarrow> db_wf (snd (handle_registration E n raw db))"
  by (auto simp: handle_registration_def split: option.split sum.split
      dest: db_wf_ensure_home db_wf_write_registration)

lemma db_wf_handle_ota_status [wf_intros]:
  "db_wf db \<Longrightarrow> db_wf (snd (handle_ota_status E n raw db))"
  by (auto simp: handle_ota_status_def split: option.split sum.split
      intro: db_wf_flush_event db_wf_update_firmware)

lemma db_wf_on_message [wf_intros]:
  "bind_ok E \<Longrightarrow> db_wf db \<Longrightarrow> db_wf (snd (on_message E topic payload db))"
  by (auto simp: on_message_def split: option.split route.split
      intro: db_wf_handle_heartbeat db_wf_handle_registration db_wf_handle_ota_status)

section \<open>What a heartbeat does\<close>

text \<open>The messages of a device that the examples send, and what they decode to.\<close>

definition fresh_boot_text :: string where
  "fresh_boot_text = ''{\"uptime\": 30, \"rssi\": -60, \"heap\": 90000}''"

definition fresh_boot :: "(string \<times> json) list" where
  "fresh_boot = [(''uptime'', JInt 30), (''rssi'', JInt (- 60)), (''heap'', JInt 90000)]"

definition register_text :: string where
  "register_text = ''{\"mac\": \"dd\", \"version\": \"1.0\", \"home_id\": \" h9 \"}''"

definition no_mac_text :: string where
  "no_mac_text = ''{\"version\":\"1.0\"}''"

definition failed_text :: string where
  "failed_text = ''{\"status\": \"failed\", \"version\": \"1.1\"}''"

lemma message_texts:
  "loads_text fresh_boot_text = Parsed (JObj fresh_boot) []"
  "loads_text register_text = Parsed (JObj [(''mac'', JStr ''dd''), (''version'', JStr ''1.0''), (''home_id'', JStr '' h9 '')]) []"
  "loads_text no_mac_text = Parsed (JObj [(''version'', JStr ''1.0'')]) []"
  "loads_text failed_text = Parsed (JObj [(''status'', JStr ''failed''), (''version'', JStr ''1.1'')]) []"
  by code_simp+

lemmas decoded = message_texts [THEN json_loads_Parsed]

text \<open>The events of a device that a fresh-boot heartbeat may promote.\<close>

definition promotable :: "ext \<Rightarrow> string \<Rightarrow> db \<Rightarrow> ota_event set" where
  "promotable E n db =
     {e \<in> set (ota_events db). e_device_id e = n \<and> event_active e \<and> clock E 1 - minutes 10 \<le> e_started_at e}"

lemma promote_ota_none:
  assumes "scan_ok E" "promotable E n db = {}"
  shows "promote_ota E n db = (Inr True, db)"
proof -
  have "recent_events E n (clock E 1 - minutes 10) db = []"
    using assms by (auto simp: recent_events_def promotable_def filter_empty_conv simp flip: set_empty)
  then show ?thesis by (simp add: promote_ota_def Let_def first_desc_def)
qed

definition promoted :: "ext \<Rightarrow> ota_event \<Rightarrow> ota_event" where
  "promoted E e = e\<lparr>e_status := ''success'', e_completed_at := Some (clock E 2)\<rparr>"

lemma promote_ota_some:
  assumes "db_wf db" "scan_ok E" "promotable E n db \<noteq> {}"
  obtains e where "e \<in> promotable E n db" "\<forall>e' \<in> promotable E n db. e_started_at e' \<le> e_started_at e"
    "promote_ota E n db =
       (Inr True, db\<lparr>ota_events := replace_row e_id (promoted E e) (ota_events db),
          devices := update_where (\<lambda>d. d_device_id d = n)
            (\<lambda>d. d\<lparr>d_firmware_version := Some (e_to_version e), d_updated_at := pg_now E 1\<rparr>) (devices db)\<rparr>)"
proof -
  let ?es = "recent_events E n (clock E 1 - minutes 10) db"
  have set_es: "set ?es = promotable E n db"
    using assms(2) by (auto simp: recent_events_def promotable_def)
  then obtain e where e: "first_desc e_started_at ?es = Some e"
    using assms(3) by (cases "first_desc e_started_at ?es") auto
  have mem: "e \<in> set (ota_events db)"
    using first_desc_SomeD(1) [OF e] set_es by (simp add: promotable_def)
  have "fits 32 (e_to_version e)"
    using events_rows(2) [OF assms(1) mem] by (simp add: event_ok_def)
  then have "promote_ota E n db =
       (Inr True, db\<lparr>ota_events := replace_row e_id (promoted E e) (ota_events db),
          devices := update_where (\<lambda>d. d_device_id d = n)
            (\<lambda>d. d\<lparr>d_firmware_version := Some (e_to_version e), d_updated_at := pg_now E 1\<rparr>) (devices db)\<rparr>)"
    using e flush_event_returns [OF assms(1) mem, of "''success''"]
    by (simp add: promote_ota_def Let_def promoted_def fits_def)
  then show ?thesis
    using that [of e] first_desc_SomeD [OF e] set_es by simp
qed

text \<open>What a heartbeat of a known device with usable numbers in it comes to.\<close>

lemma handle_heartbeat_known:
  assumes "json_loads E raw = Some (JObj kvs)" "n \<in> device_keys db"
    and "bind_int E (obj_get kvs ''rssi'') = Some r" "bind_int E (obj_get kvs ''heap'') = Some h"
    and "obj_get kvs ''uptime'' = JInt u" "bind_int E (JInt u) = Some (Some u)"
  shows "handle_heartbeat E n raw db =
     (if u < 180 then promote_ota E n (heartbeat_update E n r h (Some u) db)
      else (Inr True, heartbeat_update E n r h (Some u) db))"
  by (simp only: handle_heartbeat_obj [OF assms(1)] assms option.case prod.case if_False if_True
      not_not json.distinct json_less.simps sum.case split: bool.split if_split) simp

text \<open>
  A heartbeat of a known device marks its row alive, with the time of the message and the
  reported metrics, and changes no other device.
\<close>

theorem heartbeat_marks_alive:
  assumes "db_wf db" "scan_ok E" "bind_ok E" "json_loads E raw = Some (JObj kvs)"
    and "lookup_key d_device_id n (devices db) = Some d"
    and "bind_int E (obj_get kvs ''rssi'') = Some r" "bind_int E (obj_get kvs ''heap'') = Some h"
    and "obj_get kvs ''uptime'' = JInt u" "int4 u"
  shows "fst (handle_heartbeat E n raw db) = Inr True \<and>
         (\<exists>d'. lookup_key d_device_id n (devices (snd (handle_heartbeat E n raw db))) = Some d' \<and>
               d_status d' = ''alive'' \<and> d_last_seen d' = Some (clock E 0) \<and> d_rssi d' = r \<and> d_heap d' = h \<and>
               d_uptime d' = Some u \<and> d_home_id d' = d_home_id d \<and> d_mac d' = d_mac d) \<and>
         (\<forall>k. k \<noteq> n \<longrightarrow> lookup_key d_device_id k (devices (snd (handle_heartbeat E n raw db))) =
                        lookup_key d_device_id k (devices db))"
proof -
  let ?db1 = "heartbeat_update E n r h (Some u) db"
  have bind: "bind_int E (JInt u) = Some (Some u)"
    using bind_int_eq(1) [OF assms(3)] assms(9) by simp
  have key: "n \<in> device_keys db"
    using lookup_key_SomeD [OF assms(5)] by (auto intro: rev_image_eqI)
  have wf1: "db_wf ?db1"
    by (rule db_wf_heartbeat_update [OF assms(1) bind_int_int4 [OF assms(3,6)] bind_int_int4 [OF assms(3,7)]
          bind_int_int4 [OF assms(3) bind]])
  have lk: "lookup_key d_device_id k (devices ?db1) =
      (if k = n then map_option (\<lambda>d. (set_metrics (clock E 0) r h (Some u) d)\<lparr>d_updated_at := pg_now E 0\<rparr>)
                       (lookup_key d_device_id k (devices db)) else lookup_key d_device_id k (devices db))" for k
    by (simp add: heartbeat_update_def)
  note run = handle_heartbeat_known [OF assms(4) key assms(6,7,8) bind]
  show ?thesis
  proof (cases "u < 180 \<and> promotable E n ?db1 \<noteq> {}")
    case True
    with promote_ota_some [OF wf1 assms(2), of n] obtain e where
      p: "promote_ota E n ?db1 =
       (Inr True, ?db1\<lparr>ota_events := replace_row e_id (promoted E e) (ota_events ?db1),
          devices := update_where (\<lambda>d. d_device_id d = n)
            (\<lambda>d. d\<lparr>d_firmware_version := Some (e_to_version e), d_updated_at := pg_now E 1\<rparr>) (devices ?db1)\<rparr>)"
      by blast
    show ?thesis
      using True assms(5) by (simp add: run p lk set_metrics_def)
  next
    case False
    then have "handle_heartbeat E n raw db = (Inr True, ?db1)"
      using promote_ota_none [OF assms(2), of n ?db1] by (auto simp: run)
    then show ?thesis
      using assms(5) by (simp add: lk set_metrics_def)
  qed
qed

theorem heartbeat_marks_alive_witness:
  "\<exists>d'. lookup_key d_device_id ''dev3'' (devices (snd (handle_heartbeat demo_ext ''dev3'' fresh_boot_text sample_db))) = Some d' \<and>
     d_status d' = ''alive'' \<and> d_uptime d' = Some 30"
proof -
  have found: "lookup_key d_device_id ''dev3'' (devices sample_db) = Some (sample_device ''dev3'' ''cc'' None ''dead'' 100)"
    by (simp add: lookup_key_def sample_device_def)
  from heartbeat_marks_alive [OF db_wf_sample demo_ext_ok(1,2) decoded(1) found,
      of "Some (- 60)" "Some 90000" 30] show ?thesis
    by (auto simp: fresh_boot_def obj_get_def int4_def)
qed

text \<open>
  C15: a heartbeat with an uptime below 180 seconds finishes an update in flight: among the device's
  pending, downloading or flashing events started in the last ten minutes, the most recently started
  becomes a success with the time of completion, the device's firmware version becomes the event's
  target, and no other event changes. Without such an event, and for an uptime of 180 seconds or
  more, no event changes at all.
\<close>

theorem heartbeat_promotes:
  assumes "db_wf db" "scan_ok E" "bind_ok E" "json_loads E raw = Some (JObj kvs)" "n \<in> device_keys db"
    and "bind_int E (obj_get kvs ''rssi'') = Some r" "bind_int E (obj_get kvs ''heap'') = Some h"
    and "obj_get kvs ''uptime'' = JInt u" "int4 u"
  shows "if u < 180 \<and> promotable E n db \<noteq> {}
         then \<exists>e \<in> promotable E n db. (\<forall>e' \<in> promotable E n db. e_started_at e' \<le> e_started_at e) \<and>
                ota_events (snd (handle_heartbeat E n raw db)) =
                  replace_row e_id (e\<lparr>e_status := ''success'', e_completed_at := Some (clock E 2)\<rparr>) (ota_events db) \<and>
                (\<exists>d. lookup_key d_device_id n (devices (snd (handle_heartbeat E n raw db))) = Some d \<and>
                   d_firmware_version d = Some (e_to_version e))
         else ota_events (snd (handle_heartbeat E n raw db)) = ota_events db"
proof -
  let ?db1 = "heartbeat_update E n r h (Some u) db"
  have bind: "bind_int E (JInt u) = Some (Some u)"
    using bind_int_eq(1) [OF assms(3)] assms(9) by simp
  have wf1: "db_wf ?db1"
    by (rule db_wf_heartbeat_update [OF assms(1) bind_int_int4 [OF assms(3,6)] bind_int_int4 [OF assms(3,7)]
          bind_int_int4 [OF assms(3) bind]])
  have prom: "promotable E n ?db1 = promotable E n db" by (simp add: promotable_def)
  note run = handle_heartbeat_known [OF assms(4-8) bind]
  show ?thesis
  proof (cases "u < 180 \<and> promotable E n db \<noteq> {}")
    case True
    obtain e where e: "e \<in> promotable E n db" "\<forall>e' \<in> promotable E n db. e_started_at e' \<le> e_started_at e"
      and p: "promote_ota E n ?db1 =
       (Inr True, ?db1\<lparr>ota_events := replace_row e_id (promoted E e) (ota_events ?db1),
          devices := update_where (\<lambda>d. d_device_id d = n)
            (\<lambda>d. d\<lparr>d_firmware_version := Some (e_to_version e), d_updated_at := pg_now E 1\<rparr>) (devices ?db1)\<rparr>)"
      using promote_ota_some [OF wf1 assms(2), of n] True unfolding prom by metis
    obtain d where "lookup_key d_device_id n (devices db) = Some d"
      using assms(5) by (cases "lookup_key d_device_id n (devices db)") (auto simp: lookup_key_None_iff)
    then have "\<exists>d. lookup_key d_device_id n (devices (snd (handle_heartbeat E n raw db))) = Some d \<and>
        d_firmware_version d = Some (e_to_version e)"
      using True by (simp add: run p) (simp add: heartbeat_update_def)
    then show ?thesis
      using e True by (simp add: run p promoted_def) blast
  next
    case False
    then have "ota_events (snd (handle_heartbeat E n raw db)) = ota_events db"
      using promote_ota_none [OF assms(2), of n ?db1] by (auto simp: run prom)
    with False show ?thesis by auto
  qed
qed

theorem heartbeat_promotes_witness:
  "ota_events (snd (handle_heartbeat demo_ext ''dev3'' fresh_boot_text sample_db)) =
     [(sample_event 1 ''dev3'' ''flashing'' 950)\<lparr>e_status := ''success'', e_completed_at := Some (seconds 1000)\<rparr>]"
proof -
  have prom: "promotable demo_ext ''dev3'' sample_db = {sample_event 1 ''dev3'' ''flashing'' 950}"
    by (auto simp: promotable_def sample_event_def event_active_def active_statuses_def minutes_def seconds_def)
  have "''dev3'' \<in> device_keys sample_db" by (simp add: sample_device_def)
  from heartbeat_promotes [OF db_wf_sample demo_ext_ok(1,2) decoded(1) this,
      of "Some (- 60)" "Some 90000" 30] show ?thesis
    unfolding prom
    by (simp add: fresh_boot_def obj_get_def int4_def replace_row_def update_where_def sample_event_def)
qed

text \<open>
  A heartbeat from a device the database does not know registers it, with the reported metrics
  and the defaults of the model, and returns true.
\<close>

theorem heartbeat_registers_unknown:
  assumes "bind_ok E" "json_loads E raw = Some (JObj kvs)" "n \<notin> device_keys db" "length n \<le> 64"
    and "bind_int E (obj_get kvs ''rssi'') = Some r" "bind_int E (obj_get kvs ''heap'') = Some h"
    and "bind_int E (obj_get kvs ''uptime'') = Some u"
  shows "handle_heartbeat E n raw db =
           (Inr True, db\<lparr>devices := devices db @
              [(default_device n (pg_now E 1))\<lparr>d_status := ''alive'', d_last_seen := Some (clock E 1),
                 d_rssi := r, d_heap := h, d_uptime := u\<rparr>]\<rparr>)"
proof -
  let ?d = "set_metrics (clock E 1) r h u (default_device n (pg_now E 1))"
  have "device_ok ?d"
    using assms(4) bind_int_int4 [OF assms(1)] assms(5-7)
    by (simp add: device_ok_def set_metrics_def default_device_def fits_def fits_opt_def)
  then have "insert_device ?d db = Inr (db\<lparr>devices := devices db @ [?d]\<rparr>)"
    using assms(3) by (simp add: insert_device_def mac_free_def home_exists_def default_device_def)
  then show ?thesis
    using assms(3) by (simp add: handle_heartbeat_obj [OF assms(2)] assms(5-7)) (simp add: set_metrics_def)
qed

theorem heartbeat_registers_unknown_witness:
  "fst (handle_heartbeat demo_ext ''new'' fresh_boot_text sample_db) = Inr True"
  using heartbeat_registers_unknown [OF demo_ext_ok(2) decoded(1), of "''new''" sample_db
      "Some (- 60)" "Some 90000" "Some 30"]
  by (simp add: fresh_boot_def obj_get_def int4_def sample_device_def)

section \<open>What a registration does\<close>

lemma insert_home_placeholder:
  assumes "fits 64 h" "h \<notin> home_keys db"
  shows "insert_home \<lparr> h_home_id = h, h_patient_name = h, h_address = None, h_created_at = t \<rparr> db =
           Inr (db\<lparr>homes := homes db @ [\<lparr> h_home_id = h, h_patient_name = h, h_address = None, h_created_at = t \<rparr>]\<rparr>)"
  using assms by (simp add: insert_home_def home_ok_def fits_def fits_opt_def)

lemma ensure_home_returns:
  assumes "fits_opt 64 hid"
  obtains db1 new where "ensure_home E hid db = Inr db1" "db1 = db\<lparr>homes := homes db @ new\<rparr>"
    "\<forall>h. hid = Some h \<longrightarrow> h \<in> home_keys db1"
proof (cases "case hid of None \<Rightarrow> True | Some h \<Rightarrow> h \<in> home_keys db")
  case True
  then show ?thesis
    by (intro that [of db "[]"]) (auto simp: ensure_home_def split: option.splits)
next
  case False
  then obtain h where "hid = Some h" "h \<notin> home_keys db" by (auto split: option.splits)
  with assms insert_home_placeholder [of h db "pg_now E 0"] show ?thesis
    by (intro that) (auto simp: ensure_home_def fits_opt_def)
qed

text \<open>A registration whose texts are strings that fit their columns.\<close>

definition registrable :: "ext \<Rightarrow> string \<Rightarrow> registration \<Rightarrow> string \<Rightarrow> string \<Rightarrow> string \<Rightarrow> bool" where
  "registrable E n reg m v ro \<longleftrightarrow>
     bind_text E (reg_mac reg) = Some (Some m) \<and> bind_text E (reg_version reg) = Some (Some v) \<and>
     bind_text E (reg_role reg) = Some (Some ro) \<and> fits 64 n \<and> fits 17 m \<and> fits 32 v \<and> fits 32 ro \<and>
     fits_opt 64 (reg_home_id reg) \<and> fits_opt 128 (reg_label reg) \<and> fits_opt 64 (reg_custom_id reg)"

lemma device_ok_registered:
  "registrable E n reg m v ro \<Longrightarrow> device_ok (registered E n reg (Some m) (Some v) ro)"
  by (simp add: registrable_def registered_def default_device_def device_ok_def fits_def fits_opt_def int4_opt_def)

lemma keep_unless_fits: "fits_opt k a \<Longrightarrow> fits_opt k b \<Longrightarrow> fits_opt k (keep_unless a b)"
  by (auto simp: keep_unless_def split: option.splits)

lemma device_ok_reregistered:
  "registrable E n reg m v ro \<Longrightarrow> device_ok d \<Longrightarrow> device_ok (reregistered E reg (Some m) (Some v) ro d)"
  by (simp add: registrable_def reregistered_def Let_def device_ok_def keep_unless_fits)
     (simp add: fits_def fits_opt_def)

lemma reregistered_sel [simp]:
  "d_device_id (reregistered E reg m v ro d) = d_device_id d"
  "d_mac (reregistered E reg m v ro d) = m"
  "d_firmware_version (reregistered E reg m v ro d) = v"
  "d_status (reregistered E reg m v ro d) = ''alive''"
  "d_last_seen (reregistered E reg m v ro d) = Some (clock E 0)"
  "d_home_id (reregistered E reg m v ro d) = keep_unless (reg_home_id reg) (d_home_id d)"
proof -
  let ?d = "d\<lparr>d_mac := m, d_firmware_version := v, d_role := ro, d_status := ''alive'',
              d_last_seen := Some (clock E 0), d_home_id := keep_unless (reg_home_id reg) (d_home_id d),
              d_display_name := keep_unless (reg_label reg) (d_display_name d),
              d_custom_id := keep_unless (reg_custom_id reg) (d_custom_id d)\<rparr>"
  have row: "reregistered E reg m v ro d = ?d \<or> reregistered E reg m v ro d = ?d\<lparr>d_updated_at := pg_now E 0\<rparr>"
    unfolding reregistered_def Let_def by metis
  then show "d_device_id (reregistered E reg m v ro d) = d_device_id d"
    "d_mac (reregistered E reg m v ro d) = m" "d_firmware_version (reregistered E reg m v ro d) = v"
    "d_status (reregistered E reg m v ro d) = ''alive''"
    "d_last_seen (reregistered E reg m v ro d) = Some (clock E 0)"
    "d_home_id (reregistered E reg m v ro d) = keep_unless (reg_home_id reg) (d_home_id d)"
    by (elim disjE; simp)+
qed

lemma devices_rows:
  assumes "db_wf db" "d \<in> set (devices db)"
  shows "device_ok d" and "d_home_id d = Some h \<Longrightarrow> h \<in> home_keys db"
  using db_wfD(4) [OF assms(1)] assms(2)
  by (auto simp: devices_wf_def list_all_iff fk_opt_def set_non_null)

lemma lookup_key_insert [simp]:
  "lookup_key key k (rows @ [r]) =
     (if lookup_key key k rows = None then if key r = k then Some r else None else lookup_key key k rows)"
  by (simp add: lookup_key_append) (simp add: lookup_key_def split: option.split)

text \<open>
  C16: registering a device is an upsert: with texts that fit their columns and a MAC address no
  other device holds, the handler returns the row it stored under the device's id, alive, seen now,
  with the MAC, version and home of the payload; the home exists afterwards, and no other device
  has changed.
\<close>

theorem registration_upsert:
  assumes "db_wf db" "json_loads E raw = Some data" "parse_registration data = Inr reg"
    and "registrable E n reg m v ro"
    and "\<forall>d \<in> set (devices db). d_mac d = Some m \<longrightarrow> d_device_id d = n"
  shows "\<exists>d db'. handle_registration E n raw db = (Inr d, db') \<and>
           lookup_key d_device_id n (devices db') = Some d \<and>
           d_mac d = Some m \<and> d_firmware_version d = Some v \<and> d_status d = ''alive'' \<and>
           d_last_seen d = Some (clock E 0) \<and>
           (\<forall>h. reg_home_id reg = Some h \<longrightarrow> d_home_id d = Some h \<and> h \<in> home_keys db') \<and>
           (\<forall>k. k \<noteq> n \<longrightarrow> lookup_key d_device_id k (devices db') = lookup_key d_device_id k (devices db)) \<and>
           home_keys db \<subseteq> home_keys db'"
proof -
  have "fits_opt 64 (reg_home_id reg)" using assms(4) by (simp add: registrable_def)
  then obtain db1 new where db1: "ensure_home E (reg_home_id reg) db = Inr db1"
      "db1 = db\<lparr>homes := homes db @ new\<rparr>" and hm: "\<forall>h. reg_home_id reg = Some h \<longrightarrow> h \<in> home_keys db1"
    by (rule ensure_home_returns [of _ E db])
  have bt: "bind_text E (reg_mac reg) = Some (Some m)" "bind_text E (reg_version reg) = Some (Some v)"
      "bind_text E (reg_role reg) = Some (Some ro)"
    using assms(4) by (simp_all add: registrable_def)
  have sub: "home_keys db \<subseteq> home_keys db1" using db1(2) by auto
  show ?thesis
  proof (cases "lookup_key d_device_id n (devices db)")
    case None
    let ?d = "registered E n reg (Some m) (Some v) ro"
    have sel: "d_device_id ?d = n" "d_mac ?d = Some m" "d_home_id ?d = reg_home_id reg"
        "d_firmware_version ?d = Some v" "d_status ?d = ''alive''" "d_last_seen ?d = Some (clock E 0)"
      by (simp_all add: registered_def default_device_def)
    have "insert_device ?d db1 = Inr (db1\<lparr>devices := devices db @ [?d]\<rparr>)"
      using device_ok_registered [OF assms(4)] None assms(5) hm db1(2)
      by (auto simp: insert_device_def mac_free_def home_exists_def sel lookup_key_None_iff split: option.splits)
    then have "handle_registration E n raw db = (Inr ?d, db1\<lparr>devices := devices db @ [?d]\<rparr>)"
      using None db1 by (simp add: handle_registration_def assms(2,3) write_registration_def bt Let_def)
    then show ?thesis
      using None hm sub by (simp add: sel split: if_splits)
  next
    case (Some d0)
    let ?d = "reregistered E reg (Some m) (Some v) ro d0"
    have d0: "d0 \<in> set (devices db)" "d_device_id d0 = n" using lookup_key_SomeD [OF Some] by auto
    have "mac_free ?d db1" using assms(5) d0 db1(2) by (auto simp: mac_free_def)
    moreover have "home_exists ?d db1"
      using hm devices_rows(2) [OF assms(1) d0(1)] sub
      by (auto simp: home_exists_def keep_unless_def split: option.splits)
    ultimately have "flush_device ?d db1 = Inr (db1\<lparr>devices := replace_row d_device_id ?d (devices db)\<rparr>)"
      using device_ok_reregistered [OF assms(4) devices_rows(1) [OF assms(1) d0(1)]] db1(2)
      by (simp add: flush_device_def)
    then have "handle_registration E n raw db = (Inr ?d, db1\<lparr>devices := replace_row d_device_id ?d (devices db)\<rparr>)"
      using Some db1 by (simp add: handle_registration_def assms(2,3) write_registration_def bt Let_def)
    then show ?thesis
      using Some hm sub d0(2) by (simp add: lookup_key_replace_row keep_unless_def)
  qed
qed

theorem registration_upsert_witness:
  "\<exists>d db'. handle_registration demo_ext ''dev4'' register_text sample_db = (Inr d, db') \<and> d_home_id d = Some ''h9'' \<and> ''h9'' \<in> home_keys db'"
proof -
  let ?kvs = "[(''mac'', JStr ''dd''), (''version'', JStr ''1.0''), (''home_id'', JStr '' h9 '')]"
  let ?reg = "\<lparr> reg_mac = JStr ''dd'', reg_version = JStr ''1.0'', reg_role = JStr ''sensor'',
                reg_home_id = Some ''h9'', reg_label = None, reg_custom_id = None \<rparr>"
  have parse: "parse_registration (JObj ?kvs) = Inr ?reg"
    by (simp add: parse_registration_def optional_text_def strip_def lstrip_by_def rstrip_by_def is_space_def)
  have "registrable demo_ext ''dev4'' ?reg ''dd'' ''1.0'' ''sensor''"
    by (simp add: registrable_def fits_def fits_opt_def)
  from registration_upsert [OF db_wf_sample decoded(2) parse this] show ?thesis
    by (auto simp: sample_device_def)
qed

text \<open>
  A new device that reports no MAC address is stored under the address \<open>unknown\<close>; since the
  column is unique, the next new device without one is refused and nothing is written.
\<close>

theorem registration_without_mac_conflicts:
  assumes "json_loads E raw = Some (JObj [(''version'', JStr v)])" "bind_ok E" "CHR 0x00 \<notin> set v"
    and "d \<in> set (devices db)" "d_mac d = Some ''unknown''" "n \<notin> device_keys db"
    and "length n \<le> 64" "length v \<le> 32"
  shows "handle_registration E n raw db = (Inl IntegrityError, db)"
proof -
  let ?reg = "\<lparr> reg_mac = JStr ''unknown'', reg_version = JStr v, reg_role = JStr ''sensor'',
                reg_home_id = None, reg_label = None, reg_custom_id = None \<rparr>"
  have parse: "parse_registration (JObj [(''version'', JStr v)]) = Inr ?reg"
    by (simp add: parse_registration_def optional_text_def)
  have bt: "bind_text E (JStr ''unknown'') = Some (Some ''unknown'')" "bind_text E (JStr v) = Some (Some v)"
      "bind_text E (JStr ''sensor'') = Some (Some ''sensor'')"
    using assms(2,3) by (auto simp: bind_ok_def)
  have "registrable E n ?reg ''unknown'' v ''sensor''"
    using assms(7,8) bt by (simp add: registrable_def fits_def fits_opt_def)
  then have "device_ok (registered E n ?reg (Some ''unknown'') (Some v) ''sensor'')"
    by (rule device_ok_registered)
  moreover have "\<not> mac_free (registered E n ?reg (Some ''unknown'') (Some v) ''sensor'') db"
    using assms(4,5,6) by (auto simp: mac_free_def registered_def default_device_def)
  moreover have "lookup_key d_device_id n (devices db) = None"
    using assms(6) by (simp add: lookup_key_None_iff)
  ultimately show ?thesis
    by (simp add: handle_registration_def assms(1) parse ensure_home_def write_registration_def bt insert_device_def)
qed

theorem registration_without_mac_conflicts_witness:
  "fst (handle_registration demo_ext ''dev5'' no_mac_text
     (empty_db\<lparr>devices := [sample_device ''dev4'' ''unknown'' None ''alive'' 1]\<rparr>)) = Inl IntegrityError"
  using registration_without_mac_conflicts [OF decoded(3), of demo_ext
      "sample_device ''dev4'' ''unknown'' None ''alive'' 1"
      "empty_db\<lparr>devices := [sample_device ''dev4'' ''unknown'' None ''alive'' 1]\<rparr>" "''dev5''"]
  by (simp add: sample_device_def)

section \<open>What a status report does\<close>

text \<open>The events a report about a version can be about.\<close>

definition reported :: "string \<Rightarrow> string \<Rightarrow> db \<Rightarrow> ota_event set" where
  "reported n v db = {e \<in> set (ota_events db). e_device_id e = n \<and> e_to_version e = v \<and> event_active e}"

lemma report_event_row:
  "report_event E s event = event\<lparr>e_status := s,
     e_completed_at := if s \<in> {''success'', ''failed''} then Some (clock E 0) else e_completed_at event\<rparr>"
  by (simp add: report_event_def)

text \<open>
  C17: a status report is about the most recently started active event of that device for that
  version: the event takes the reported status (and the time of completion when it is success or
  failed), no other event changes, a success makes the version the device's firmware version, and
  any other report leaves the devices alone. Without such an event the handler returns false and
  writes nothing.
\<close>

theorem ota_status_report:
  assumes "db_wf db" "scan_ok E" "bind_ok E"
    and "json_loads E raw = Some (JObj kvs)" "obj_get kvs ''status'' = JStr st" "obj_get kvs ''version'' = JStr v"
    and "st \<noteq> []" "v \<noteq> []" "length st \<le> 16" "CHR 0x00 \<notin> set st" "CHR 0x00 \<notin> set v"
  shows "if reported n v db = {} then handle_ota_status E n raw db = (Inr False, db)
         else \<exists>e \<in> reported n v db. (\<forall>e' \<in> reported n v db. e_started_at e' \<le> e_started_at e) \<and>
           fst (handle_ota_status E n raw db) = Inr True \<and>
           ota_events (snd (handle_ota_status E n raw db)) =
             replace_row e_id (e\<lparr>e_status := st,
               e_completed_at := if st \<in> {''success'', ''failed''} then Some (clock E 0) else e_completed_at e\<rparr>)
               (ota_events db) \<and>
           devices (snd (handle_ota_status E n raw db)) =
             (if st = ''success''
              then update_where (\<lambda>d. d_device_id d = n)
                     (\<lambda>d. d\<lparr>d_firmware_version := Some v, d_updated_at := pg_now E 0\<rparr>) (devices db)
              else devices db)"
proof -
  let ?es = "status_events E n (Some v) db"
  have set_es: "set ?es = reported n v db"
    using assms(2) by (auto simp: status_events_def reported_def)
  have bt: "bind_text E (JStr v) = Some (Some v)" "bind_text E (JStr st) = Some (Some st)"
    using assms(3,10,11) by (auto simp: bind_ok_def)
  have get: "json_get (JObj kvs) ''status'' JNull = Inr (JStr st)" "json_get (JObj kvs) ''version'' JNull = Inr (JStr v)"
    using assms(5,6) by (simp_all only: json_get_obj)
  have run: "handle_ota_status E n raw db =
     (case first_desc e_started_at ?es of
        None \<Rightarrow> (Inr False, db)
      | Some event \<Rightarrow>
          (case flush_event (report_event E st event) db of
             Inl e \<Rightarrow> (Inl e, db)
           | Inr db1 \<Rightarrow>
               if st = ''success''
               then (case update_firmware (pg_now E 0) n (e_to_version event) db1 of
                       Inl e \<Rightarrow> (Inl e, db) | Inr db2 \<Rightarrow> (Inr True, db2))
               else (Inr True, db1)))"
    using assms(7,8)
    by (simp only: handle_ota_status_def assms(4) option.case get prod.case sum.case truthy.simps
        not_True_eq_False simp_thms if_False bt)
  show ?thesis
  proof (cases "reported n v db = {}")
    case True
    then have "?es = []" using set_es by simp
    with True show ?thesis by (simp add: run)
  next
    case False
    then obtain e where e: "first_desc e_started_at ?es = Some e"
      using set_es by (cases "first_desc e_started_at ?es") auto
    have rep: "e \<in> reported n v db" "\<forall>e' \<in> reported n v db. e_started_at e' \<le> e_started_at e"
      using first_desc_SomeD [OF e] set_es by auto
    let ?e = "e\<lparr>e_status := st,
               e_completed_at := if st \<in> {''success'', ''failed''} then Some (clock E 0) else e_completed_at e\<rparr>"
    have mem: "e \<in> set (ota_events db)" "e_to_version e = v" "e_device_id e = n"
      using rep(1) by (auto simp: reported_def)
    have "report_event E st e = ?e" by (rule report_event_row)
    moreover have "flush_event ?e db = Inr (db\<lparr>ota_events := replace_row e_id ?e (ota_events db)\<rparr>)"
      using assms(9) by (intro flush_event_returns [OF assms(1) mem(1)]) (simp add: fits_def)
    moreover have "fits 32 v"
      using events_rows(2) [OF assms(1) mem(1)] mem(2) by (simp add: event_ok_def)
    ultimately have "handle_ota_status E n raw db =
        (Inr True, if st = ''success''
           then db\<lparr>ota_events := replace_row e_id ?e (ota_events db),
                  devices := update_where (\<lambda>d. d_device_id d = n)
                     (\<lambda>d. d\<lparr>d_firmware_version := Some v, d_updated_at := pg_now E 0\<rparr>) (devices db)\<rparr>
           else db\<lparr>ota_events := replace_row e_id ?e (ota_events db)\<rparr>)"
      unfolding run e by (simp add: mem(2))
    then show ?thesis using False rep by auto
  qed
qed

theorem ota_status_report_witness:
  "ota_events (snd (handle_ota_status demo_ext ''dev3'' failed_text sample_db)) =
     [(sample_event 1 ''dev3'' ''flashing'' 950)\<lparr>e_status := ''failed'', e_completed_at := Some (seconds 1000)\<rparr>]"
proof -
  have rep: "reported ''dev3'' ''1.1'' sample_db = {sample_event 1 ''dev3'' ''flashing'' 950}"
    by (auto simp: reported_def sample_event_def event_active_def active_statuses_def)
  from ota_status_report [OF db_wf_sample demo_ext_ok(1,2) decoded(4), where st = "''failed''" and v = "''1.1''"
      and n = "''dev3''"]
  show ?thesis
    unfolding rep by (simp add: obj_get_def replace_row_def update_where_def sample_event_def)
qed

section \<open>Final events stay final\<close>

lemma flush_event_events: "flush_event e db = Inr db' \<Longrightarrow> ota_events db' = replace_row e_id e (ota_events db)"
  by (auto simp: flush_event_def split: if_splits)

lemma update_firmware_events: "update_firmware t n v db = Inr db' \<Longrightarrow> ota_events db' = ota_events db"
  by (auto simp: update_firmware_def split: if_splits)

lemma promote_ota_evolves:
  assumes "db_wf db" "scan_ok E"
  shows "events_evolve db (snd (promote_ota E n db))"
proof (cases "promotable E n db = {}")
  case True
  then show ?thesis by (simp add: promote_ota_none [OF assms(2)])
next
  case False
  then show ?thesis
    by (rule promote_ota_some [OF assms])
       (simp add: promoted_def promotable_def events_evolve_replace [OF assms(1)])
qed

lemma handle_heartbeat_evolves:
  assumes "db_wf db" "scan_ok E" "bind_ok E"
  shows "events_evolve db (snd (handle_heartbeat E n raw db))"
proof (cases "\<exists>kvs. json_loads E raw = Some (JObj kvs)")
  case True
  then obtain kvs where kvs: "json_loads E raw = Some (JObj kvs)" ..
  have ins: "ota_events db1 = ota_events db" if "insert_device d db = Inr db1" for d db1
    using that by (auto simp: insert_device_def split: if_splits)
  have prom: "events_evolve db (snd (promote_ota E n (heartbeat_update E n r h u db)))"
    if "bind_int E a = Some r" "bind_int E b = Some h" "bind_int E c = Some u" for r h u a b c
    using promote_ota_evolves [OF db_wf_heartbeat_update [OF assms(1)] assms(2)]
      bind_int_int4 [OF assms(3)] that by fastforce
  show ?thesis
    unfolding handle_heartbeat_obj [OF kvs]
    by (auto split: option.split sum.split bool.split simp: prom ins)
next
  case False
  then show ?thesis by (simp add: handle_heartbeat_not_obj)
qed

lemma handle_registration_events [simp]:
  "ota_events (snd (handle_registration E n raw db)) = ota_events db"
proof -
  have "ota_events db1 = ota_events db" if "ensure_home E hid db = Inr db1" for hid db1
    using that by (auto simp: ensure_home_def insert_home_def split: option.splits if_splits)
  moreover have "ota_events db2 = ota_events db1" if "write_registration E n reg db1 = Inr (d, db2)" for reg db1 d db2
    using that
    by (auto simp: write_registration_def Let_def flush_device_def insert_device_def
        split: option.splits sum.splits if_splits)
  ultimately show ?thesis
    by (auto simp: handle_registration_def split: option.split sum.split)
qed

lemma handle_ota_status_evolves:
  assumes "db_wf db" "scan_ok E"
  shows "events_evolve db (snd (handle_ota_status E n raw db))"
proof -
  have "history event_step (ota_events db) (replace_row e_id (report_event E s e) (ota_events db))"
    if "first_desc e_started_at (status_events E n v db) = Some e" for v s e
  proof -
    have "e \<in> set (ota_events db)" "event_active e"
      using first_desc_SomeD(1) [OF that] assms(2) by (auto simp: status_events_def)
    then show ?thesis unfolding report_event_row by (rule events_evolve_replace [OF assms(1)])
  qed
  then show ?thesis
    by (auto simp: handle_ota_status_def dest!: flush_event_events update_firmware_events
        split: option.split sum.split)
qed

text \<open>
  Whatever a device sends, in whatever order, the OTA events stay a history: none disappears,
  none changes its device, versions or start, and one that is no longer pending, downloading or
  flashing never changes again; and the database keeps its schema.
\<close>

theorem listen_keeps_history:
  assumes "db_wf db" "\<forall>(E, topic, payload) \<in> set ms. scan_ok E \<and> bind_ok E"
  shows "db_wf (snd (listen ms db)) \<and> events_evolve db (snd (listen ms db))"
  using assms
proof (induction ms arbitrary: db)
  case (Cons msg ms)
  obtain E topic payload where msg: "msg = (E, topic, payload)" by (cases msg)
  obtain b db' where step: "on_message E topic payload db = (b, db')" by (cases "on_message E topic payload db")
  have ok: "scan_ok E" "bind_ok E" using Cons.prems(2) msg by auto
  have "events_evolve db (snd (on_message E topic payload db))"
    using Cons.prems(1) ok
    by (auto simp: on_message_def split: option.split route.split
        intro: handle_heartbeat_evolves handle_ota_status_evolves)
  moreover have "db_wf (snd (on_message E topic payload db))"
    using ok(2) Cons.prems(1) by (rule db_wf_on_message)
  ultimately have db': "events_evolve db db'" "db_wf db'" using step by simp_all
  show ?case
  proof (cases b)
    case True
    have "db_wf (snd (listen ms db'))" "events_evolve db' (snd (listen ms db'))"
      using Cons.IH [OF db'(2)] Cons.prems(2) msg by auto
    then show ?thesis
      using event_history.trans [OF db'(1)] step True by (simp add: msg)
  next
    case False
    then show ?thesis using db' step by (simp add: msg)
  qed
qed simp

theorem listen_keeps_history_witness:
  "db_wf (snd (listen [(demo_ext, ''fleet/dev3/heartbeat'', Some fresh_boot_text), (demo_ext, ''fleet'', None)] sample_db))"
  using listen_keeps_history [of sample_db "[(demo_ext, ''fleet/dev3/heartbeat'', Some fresh_boot_text), (demo_ext, ''fleet'', None)]"]
  by simp

section \<open>Dispatch\<close>

lemma split_fleet_topic:
  assumes "CHR ''/'' \<notin> set n"
  shows "split_on (CHR ''/'') (''fleet/'' @ n @ CHR ''/'' # rest) = ''fleet'' # n # split_on (CHR ''/'') rest"
  using split_on_append_sep [OF assms, of rest] by simp

lemma not_endswith: "p \<noteq> [] \<Longrightarrow> p' \<noteq> [] \<Longrightarrow> last p \<noteq> last p' \<Longrightarrow> \<not> endswith (q @ p) p'"
  unfolding endswith_iff by (metis last_appendR)

text \<open>
  A message reaches the handler of its topic with the name of the device that sent it: for a
  name without a slash the four subscribed topics of the device are routed to the heartbeat,
  registration, OTA-status and log branches, each with exactly that name.
\<close>

theorem route_of_device_topics:
  assumes "CHR ''/'' \<notin> set n"
  shows "route_of (''fleet/'' @ n @ ''/heartbeat'') = Heartbeat n \<and>
         route_of (''fleet/'' @ n @ ''/register'') = Register n \<and>
         route_of (''fleet/'' @ n @ ''/ota/status'') = Ota_Status n \<and>
         route_of (''fleet/'' @ n @ ''/log'') = Device_Log n"
proof -
  have r: "route_of (''fleet/'' @ n @ CHR ''/'' # rest) =
      (let topic = ''fleet/'' @ n @ CHR ''/'' # rest in
       if endswith topic ''/heartbeat'' then Heartbeat n
       else if endswith topic ''/register'' then Register n
       else if endswith topic ''/ota/status'' then Ota_Status n
       else if endswith topic ''/log'' then Device_Log n else No_Route)" for rest
    unfolding route_of_def Let_def split_fleet_topic [OF assms]
    by (cases "split_on (CHR ''/'') rest") auto
  have diff: "\<not> endswith (''fleet/'' @ n @ p) p'" if "p \<noteq> []" "p' \<noteq> []" "last p \<noteq> last p'" for p p'
    using not_endswith [OF that, of "''fleet/'' @ n"] by simp
  have yes: "endswith (''fleet/'' @ n @ p) p" for p
    using endswith_append [of "''fleet/'' @ n" p] by simp
  show ?thesis
    using r [of "''heartbeat''"] r [of "''register''"] r [of "''ota/status''"] r [of "''log''"]
      yes [of "''/heartbeat''"] yes [of "''/register''"] yes [of "''/ota/status''"] yes [of "''/log''"]
      diff [of "''/register''" "''/heartbeat''"] diff [of "''/ota/status''" "''/heartbeat''"]
      diff [of "''/ota/status''" "''/register''"] diff [of "''/log''" "''/heartbeat''"]
      diff [of "''/log''" "''/register''"] diff [of "''/log''" "''/ota/status''"]
    by (simp add: Let_def)
qed

theorem route_of_device_topics_witness: "route_of ''fleet/dev1/ota/status'' = Ota_Status ''dev1''"
  using route_of_device_topics [of "''dev1''"] by simp

text \<open>
  No handler can end the message loop: it has processed the whole stream exactly when every
  payload was UTF-8, whatever the handlers raised; the first payload that is not UTF-8 ends it.
\<close>

theorem listen_survives:
  "fst (listen ms db) = list_all (\<lambda>(E, topic, payload). payload \<noteq> None) ms"
proof (induction ms arbitrary: db)
  case (Cons msg ms)
  obtain E topic payload where msg: "msg = (E, topic, payload)" by (cases msg)
  show ?case
    using Cons by (cases payload) (simp_all add: msg on_message_def)
qed simp

end
