(* ===== verification/Db_Deletes.thy ===== *)
theory Db_Deletes
  imports Sample_Fleet
begin

text \<open>
  \<^verbatim>\<open>session.delete(...)\<close> of one object, with what the object mapper and the schema do to the rows that
  refer to it: the many-to-many rows of the object go with it; the devices of a deleted home lose
  their home; a row that another table still refers to without a rule cannot be deleted. The
  lemmas show that each deletion that succeeds keeps the schema invariant.
\<close>

definition unassign_home :: "datetime \<Rightarrow> string \<Rightarrow> device list \<Rightarrow> device list" where
  "unassign_home now hid ds =
     update_where (\<lambda>d. d_home_id d = Some hid) (\<lambda>d. d\<lparr>d_home_id := None, d_updated_at := now\<rparr>) ds"

definition delete_home_row :: "datetime \<Rightarrow> string \<Rightarrow> db \<Rightarrow> db res" where
  "delete_home_row now hid db =
     (if hid \<in> a_home_id ` set (broadcast_acks db) then Inl IntegrityError
      else Inr (db\<lparr>homes := delete_where (\<lambda>h. h_home_id h = hid) (homes db),
                   home_community := delete_where (\<lambda>p. fst p = hid) (home_community db),
                   devices := unassign_home now hid (devices db)\<rparr>))"

definition delete_community_row :: "datetime \<Rightarrow> string \<Rightarrow> db \<Rightarrow> db res" where
  "delete_community_row now cid db =
     (if cid \<in> b_community_id ` set (broadcasts db) then Inl IntegrityError
      else Inr (db\<lparr>communities := delete_where (\<lambda>c. c_community_id c = cid) (communities db),
                   home_community := delete_where (\<lambda>p. snd p = cid) (home_community db)\<rparr>))"

definition delete_device_row :: "datetime \<Rightarrow> string \<Rightarrow> db \<Rightarrow> db res" where
  "delete_device_row now did db =
     (if did \<in> e_device_id ` set (ota_events db) then Inl IntegrityError
      else Inr (db\<lparr>devices := delete_where (\<lambda>d. d_device_id d = did) (devices db),
                   device_group_members := delete_where (\<lambda>m. snd m = did) (device_group_members db)\<rparr>))"

definition delete_group_row :: "int \<Rightarrow> db \<Rightarrow> db" where
  "delete_group_row gid db =
     db\<lparr>device_groups := delete_where (\<lambda>g. g_id g = gid) (device_groups db),
        device_group_members := delete_where (\<lambda>m. fst m = gid) (device_group_members db)\<rparr>"

section \<open>Every deletion keeps the schema invariant\<close>

lemma list_all_delete_where: "list_all Q rows \<Longrightarrow> list_all Q (delete_where P rows)"
  by (auto simp: list_all_iff)

lemma fk_delete_where: "fk col rows K \<Longrightarrow> fk col (delete_where P rows) K"
  by (auto simp: fk_def)

lemma fk_delete_key: "fk col rows (key ` set rows') \<Longrightarrow> k \<notin> col ` set rows \<Longrightarrow>
   fk col rows (key ` set (delete_where (\<lambda>r. key r = k) rows'))"
  by (force simp: fk_def)

lemma fk_delete_both: "fk col rows (key ` set rows') \<Longrightarrow>
   fk col (delete_where (\<lambda>r. col r = k) rows) (key ` set (delete_where (\<lambda>r. key r = k) rows'))"
  by (force simp: fk_def)

lemma db_wf_delete_home [wf_intros]:
  assumes "db_wf db" "delete_home_row now hid db = Inr db'"
  shows "db_wf db'"
proof -
  let ?hs = "delete_where (\<lambda>h. h_home_id h = hid) (homes db)"
  let ?hc = "delete_where (\<lambda>p. fst p = hid) (home_community db)"
  let ?ds = "unassign_home now hid (devices db)"
  have db': "db' = db\<lparr>homes := ?hs, home_community := ?hc, devices := ?ds\<rparr>"
    and free: "hid \<notin> a_home_id ` set (broadcast_acks db)"
    using assms(2) by (auto simp: delete_home_row_def split: if_splits)
  have "homes_wf ?hs"
    using db_wfD(2) [OF assms(1)] by (simp add: homes_wf_def distinct_map_delete_where list_all_delete_where)
  moreover have "home_community_wf ?hc (h_home_id ` set ?hs) (community_keys db)"
    using db_wfD(5) [OF assms(1)]
    by (simp add: home_community_wf_def distinct_delete_where fk_delete_where fk_delete_both [simplified])
  moreover have "acks_wf (broadcast_acks db) (broadcast_keys db) (h_home_id ` set ?hs) (seq_acks (sequences db))"
    using db_wfD(7) [OF assms(1)] free by (simp add: acks_wf_def fk_delete_key [simplified])
  moreover have "devices_wf ?ds (h_home_id ` set ?hs)"
  proof -
    note dw = db_wfD(4) [OF assms(1)]
    have "fk_opt d_home_id ?ds (h_home_id ` set ?hs)"
      using dw unfolding devices_wf_def fk_opt_def unassign_home_def
      by (auto simp: set_non_null set_update_where split: if_splits)
    moreover have "list_all device_ok ?ds"
      using dw by (auto simp: devices_wf_def unassign_home_def device_ok_def fits_opt_def intro: list_all_update_where)
    ultimately show ?thesis using dw by (simp add: devices_wf_def unassign_home_def)
  qed
  moreover have "d_device_id ` set ?ds = device_keys db" by (simp add: unassign_home_def keys_update_where)
  ultimately show ?thesis using assms(1) unfolding db' db_wf_def by simp
qed

lemma db_wf_delete_community [wf_intros]:
  assumes "db_wf db" "delete_community_row now cid db = Inr db'"
  shows "db_wf db'"
proof -
  let ?cs = "delete_where (\<lambda>c. c_community_id c = cid) (communities db)"
  let ?hc = "delete_where (\<lambda>p. snd p = cid) (home_community db)"
  have db': "db' = db\<lparr>communities := ?cs, home_community := ?hc\<rparr>"
    and free: "cid \<notin> b_community_id ` set (broadcasts db)"
    using assms(2) by (auto simp: delete_community_row_def split: if_splits)
  have "communities_wf ?cs"
    using db_wfD(3) [OF assms(1)] by (simp add: communities_wf_def distinct_map_delete_where list_all_delete_where)
  moreover have "home_community_wf ?hc (home_keys db) (c_community_id ` set ?cs)"
    using db_wfD(5) [OF assms(1)]
    by (simp add: home_community_wf_def distinct_delete_where fk_delete_where fk_delete_both [simplified])
  moreover have "broadcasts_wf (broadcasts db) (c_community_id ` set ?cs) (seq_broadcasts (sequences db))"
    using db_wfD(6) [OF assms(1)] free by (simp add: broadcasts_wf_def fk_delete_key [simplified])
  ultimately show ?thesis using assms(1) unfolding db' db_wf_def by simp
qed

lemma db_wf_delete_device [wf_intros]:
  assumes "db_wf db" "delete_device_row now did db = Inr db'"
  shows "db_wf db'"
proof -
  let ?ds = "delete_where (\<lambda>d. d_device_id d = did) (devices db)"
  let ?ms = "delete_where (\<lambda>m. snd m = did) (device_group_members db)"
  have db': "db' = db\<lparr>devices := ?ds, device_group_members := ?ms\<rparr>"
    and free: "did \<notin> e_device_id ` set (ota_events db)"
    using assms(2) by (auto simp: delete_device_row_def split: if_splits)
  have "devices_wf ?ds (home_keys db)"
    using db_wfD(4) [OF assms(1)]
    by (auto simp: devices_wf_def distinct_map_delete_where distinct_non_null_delete_where list_all_delete_where
        fk_opt_def set_non_null)
  moreover have "members_wf ?ms (group_keys db) (d_device_id ` set ?ds)"
    using db_wfD(12) [OF assms(1)]
    by (simp add: members_wf_def distinct_delete_where fk_delete_where fk_delete_both [simplified])
  moreover have "events_wf (ota_events db) (d_device_id ` set ?ds) (seq_events (sequences db))"
    using db_wfD(9) [OF assms(1)] free by (simp add: events_wf_def fk_delete_key [simplified])
  ultimately show ?thesis using assms(1) unfolding db' db_wf_def by simp
qed

lemma db_wf_delete_group [wf_intros]:
  assumes "db_wf db"
  shows "db_wf (delete_group_row gid db)"
proof -
  let ?gs = "delete_where (\<lambda>g. g_id g = gid) (device_groups db)"
  let ?ms = "delete_where (\<lambda>m. fst m = gid) (device_group_members db)"
  have "groups_wf ?gs (user_keys db) (seq_groups (sequences db))"
    using db_wfD(11) [OF assms]
    by (auto simp: groups_wf_def serial_wf_def distinct_map_delete_where list_all_delete_where fk_opt_def set_non_null)
  moreover have "members_wf ?ms (g_id ` set ?gs) (device_keys db)"
    using db_wfD(12) [OF assms]
    by (simp add: members_wf_def distinct_delete_where fk_delete_where fk_delete_both [simplified])
  ultimately show ?thesis using assms unfolding delete_group_row_def db_wf_def by simp
qed

end
