(* ===== verification/Repository.thy ===== *)
theory Repository
  imports Db_Deletes "HOL-Library.List_Lexorder"
begin

text \<open>
  \<^verbatim>\<open>repositories/base.py\<close>: \<^verbatim>\<open>BaseRepository\<close>, generic over a model class. A model class is the record
  \<open>model\<close> of what the object mapper knows of it; the repository operations take it as an argument,
  as the class takes \<^verbatim>\<open>model\<close>. The locale \<open>repository\<close> states what a model class must satisfy for
  the repository to be a store of rows under their keys, and derives that it refines a finite map;
  the three model classes that have repositories interpret it.
\<close>

section \<open>Model classes as values\<close>

record 'r model =
  m_key :: "'r \<Rightarrow> string"
  m_rows :: "db \<Rightarrow> 'r list"
  m_insert :: "'r \<Rightarrow> db \<Rightarrow> db res"
  m_update :: "'r \<Rightarrow> db \<Rightarrow> db res"
  m_delete :: "datetime \<Rightarrow> string \<Rightarrow> db \<Rightarrow> db res"
  m_touch :: "datetime \<Rightarrow> 'r \<Rightarrow> 'r"

definition device_model :: "device model" where
  "device_model =
     \<lparr> m_key = d_device_id, m_rows = devices, m_insert = insert_device, m_update = flush_device,
       m_delete = delete_device_row, m_touch = (\<lambda>t d. d\<lparr>d_updated_at := t\<rparr>) \<rparr>"

definition home_model :: "home model" where
  "home_model =
     \<lparr> m_key = h_home_id, m_rows = homes, m_insert = insert_home, m_update = flush_home,
       m_delete = delete_home_row, m_touch = (\<lambda>t h. h) \<rparr>"

definition community_model :: "community model" where
  "community_model =
     \<lparr> m_key = c_community_id, m_rows = communities, m_insert = insert_community, m_update = flush_community,
       m_delete = delete_community_row, m_touch = (\<lambda>t c. c) \<rparr>"

lemma model_simps [simp]:
  "m_key device_model = d_device_id" "m_rows device_model = devices" "m_insert device_model = insert_device"
  "m_update device_model = flush_device" "m_delete device_model = delete_device_row"
  "m_touch device_model t d = d\<lparr>d_updated_at := t\<rparr>"
  "m_key home_model = h_home_id" "m_rows home_model = homes" "m_insert home_model = insert_home"
  "m_update home_model = flush_home" "m_delete home_model = delete_home_row" "m_touch home_model t h = h"
  "m_key community_model = c_community_id" "m_rows community_model = communities"
  "m_insert community_model = insert_community" "m_update community_model = flush_community"
  "m_delete community_model = delete_community_row" "m_touch community_model t c = c"
  by (simp_all add: device_model_def home_model_def community_model_def)

section \<open>The repository\<close>

definition get_by_id :: "'r model \<Rightarrow> string \<Rightarrow> db \<Rightarrow> 'r option" where
  "get_by_id M pk db = lookup_key (m_key M) pk (m_rows M db)"

text \<open>\<^verbatim>\<open>OFFSET skip LIMIT limit\<close>: out of the range of a 32-bit integer or negative, an error.\<close>

definition page_rows :: "int \<Rightarrow> int \<Rightarrow> 'r list \<Rightarrow> 'r list res" where
  "page_rows skip limit rows =
     (if int4 skip \<and> 0 \<le> skip \<and> int4 limit \<and> 0 \<le> limit
      then Inr (take (nat limit) (drop (nat skip) rows)) else Inl DBAPIError)"

text \<open>A filter whose value is \<^verbatim>\<open>None\<close> is \<open>None\<close> here; the others are all required.\<close>

definition get_all :: "ext \<Rightarrow> 'r model \<Rightarrow> int \<Rightarrow> int \<Rightarrow> ('r \<Rightarrow> bool) option list \<Rightarrow> db \<Rightarrow> 'r list res" where
  "get_all E M skip limit filters db =
     page_rows skip limit
       (scan E (filter (\<lambda>r. list_all (\<lambda>f. case f of None \<Rightarrow> True | Some P \<Rightarrow> P r) filters) (m_rows M db)))"

definition repo_create :: "'r model \<Rightarrow> 'r \<Rightarrow> db \<Rightarrow> 'r db_res" where
  "repo_create M instance db =
     (case m_insert M instance db of Inl e \<Rightarrow> (Inl e, db) | Inr db1 \<Rightarrow> (Inr instance, db1))"

text \<open>
  \<open>change\<close> is the loop of \<^verbatim>\<open>setattr\<close>: the changed row, and whether a column that is NOT NULL was set
  to null (that column then keeps its old value in the row). Nothing is written when nothing
  changed; a value that does not fit its column is reported before a null.
\<close>

definition repo_update ::
  "'r model \<Rightarrow> datetime \<Rightarrow> string \<Rightarrow> ('r \<Rightarrow> 'r \<times> bool) \<Rightarrow> db \<Rightarrow> 'r option db_res" where
  "repo_update M now pk change db =
     (case get_by_id M pk db of
        None \<Rightarrow> (Inr None, db)
      | Some instance \<Rightarrow>
          (let (changed, null) = change instance; touched = m_touch M now changed
           in if changed = instance \<and> \<not> null then (Inr (Some instance), db)
              else (case m_update M touched db of
                      Inl e \<Rightarrow> (Inl e, db)
                    | Inr db1 \<Rightarrow> if null then (Inl IntegrityError, db) else (Inr (Some touched), db1))))"

definition repo_delete :: "'r model \<Rightarrow> datetime \<Rightarrow> string \<Rightarrow> db \<Rightarrow> bool db_res" where
  "repo_delete M now pk db =
     (case get_by_id M pk db of
        None \<Rightarrow> (Inr False, db)
      | Some _ \<Rightarrow> (case m_delete M now pk db of Inl e \<Rightarrow> (Inl e, db) | Inr db1 \<Rightarrow> (Inr True, db1)))"

section \<open>The contract\<close>

text \<open>The rows under their keys: the abstract view of a table.\<close>

abbreviation table :: "'r model \<Rightarrow> db \<Rightarrow> string \<Rightarrow> 'r option" where
  "table M db \<equiv> \<lambda>k. get_by_id M k db"

lemma lookup_key_append_one:
  "lookup_key key k (rows @ [r]) =
     (case lookup_key key k rows of None \<Rightarrow> if key r = k then Some r else None | Some r' \<Rightarrow> Some r')"
  by (induction rows) (simp_all add: lookup_key_def)

locale repository =
  fixes M :: "'r model"
  assumes keys_distinct: "db_wf db \<Longrightarrow> distinct (map (m_key M) (m_rows M db))"
    and insert_row: "db_wf db \<Longrightarrow> m_insert M r db = Inr db' \<Longrightarrow>
      db_wf db' \<and> m_rows M db' = m_rows M db @ [r] \<and> m_key M r \<notin> m_key M ` set (m_rows M db)"
    and update_row: "db_wf db \<Longrightarrow> m_update M r db = Inr db' \<Longrightarrow>
      db_wf db' \<and> m_rows M db' = replace_row (m_key M) r (m_rows M db)"
    and delete_row: "db_wf db \<Longrightarrow> m_delete M t k db = Inr db' \<Longrightarrow>
      db_wf db' \<and> m_rows M db' = delete_where (\<lambda>r. m_key M r = k) (m_rows M db)"
    and touch_key: "m_key M (m_touch M t r) = m_key M r"
begin

lemma create_refines:
  assumes "db_wf db" "repo_create M r db = (Inr r', db')"
  shows "r' = r \<and> db_wf db' \<and> table M db (m_key M r) = None \<and> table M db' = (table M db)(m_key M r \<mapsto> r)"
proof -
  have ins: "m_insert M r db = Inr db'" and r': "r' = r"
    using assms(2) by (auto simp: repo_create_def split: sum.splits)
  note row = insert_row [OF assms(1) ins]
  have "table M db (m_key M r) = None" using row by (simp add: get_by_id_def lookup_key_None_iff)
  moreover have "table M db' = (table M db)(m_key M r \<mapsto> r)"
  proof
    fix k
    show "table M db' k = ((table M db)(m_key M r \<mapsto> r)) k"
      using row calculation by (auto simp: get_by_id_def lookup_key_append_one split: option.split)
  qed
  ultimately show ?thesis using r' row by blast
qed

lemma update_refines:
  assumes "db_wf db" "repo_update M now pk ch db = (Inr (Some r'), db')" "\<And>r. m_key M (fst (ch r)) = m_key M r"
  obtains r where "table M db pk = Some r" "db_wf db'" "table M db' = (table M db)(pk \<mapsto> r')"
    "r' = (if fst (ch r) = r then r else m_touch M now (fst (ch r)))" "\<not> snd (ch r)"
proof -
  obtain r where r: "get_by_id M pk db = Some r"
    using assms(2) by (auto simp: repo_update_def split: option.splits)
  have key: "m_key M r = pk" using lookup_key_SomeD [OF r [unfolded get_by_id_def]] by simp
  obtain c n where ch: "ch r = (c, n)" by (cases "ch r")
  show ?thesis
  proof (cases "c = r \<and> \<not> n")
    case True
    then have "r' = r" "db' = db" using assms(2) r ch by (simp_all add: repo_update_def)
    then show ?thesis using that [OF r] True ch assms(1) r by (simp add: fun_upd_idem)
  next
    case False
    then have up: "m_update M (m_touch M now c) db = Inr db'" "\<not> n" "r' = m_touch M now c"
      using assms(2) r ch by (auto simp: repo_update_def Let_def split: sum.splits if_splits)
    have "c \<noteq> r" using False up(2) by simp
    note row = update_row [OF assms(1) up(1)]
    have k: "m_key M r' = pk" using assms(3) [of r] up(3) ch key by (simp add: touch_key)
    have "table M db' = (table M db)(pk \<mapsto> r')"
      using row r k up(3) by (auto simp: get_by_id_def lookup_key_replace_row)
    then show ?thesis using that [OF r] row up ch \<open>c \<noteq> r\<close> by simp
  qed
qed

lemma update_missing:
  "repo_update M now pk ch db = (Inr None, db') \<Longrightarrow> table M db pk = None \<and> db' = db"
  by (auto simp: repo_update_def Let_def split: option.splits sum.splits if_splits prod.splits)

lemma delete_refines:
  assumes "db_wf db" "repo_delete M now pk db = (Inr b, db')"
  shows "db_wf db' \<and> (b \<longleftrightarrow> table M db pk \<noteq> None) \<and> table M db' = (table M db)(pk := None)"
proof (cases "get_by_id M pk db")
  case None
  then show ?thesis using assms by (auto simp: repo_delete_def)
next
  case (Some r)
  then have del: "m_delete M now pk db = Inr db'" "b"
    using assms(2) by (auto simp: repo_delete_def split: sum.splits)
  note row = delete_row [OF assms(1) del(1)]
  have "table M db' = (table M db)(pk := None)"
    using row by (auto simp: get_by_id_def lookup_key_delete_where_key)
  then show ?thesis using row del(2) Some by simp
qed

lemma failures:
  "repo_create M r db = (Inl e, db') \<Longrightarrow> db' = db"
  "repo_update M now pk ch db = (Inl e, db') \<Longrightarrow> db' = db"
  "repo_delete M now pk db = (Inl e, db') \<Longrightarrow> db' = db"
  by (auto simp: repo_create_def repo_update_def repo_delete_def Let_def
      split: option.splits sum.splits if_splits prod.splits)

lemma wf:
  assumes "db_wf db"
  shows "db_wf (snd (repo_create M r db))"
    and "db_wf (snd (repo_update M now pk ch db))"
    and "db_wf (snd (repo_delete M now pk db))"
  using assms insert_row [OF assms] update_row [OF assms] delete_row [OF assms]
  by (auto simp: repo_create_def repo_update_def repo_delete_def Let_def
      split: option.split sum.split prod.split)

lemma table_mem: "db_wf db \<Longrightarrow> table M db k = Some r \<longleftrightarrow> r \<in> set (m_rows M db) \<and> m_key M r = k"
  using keys_distinct by (simp add: get_by_id_def lookup_key_Some_iff)

end

lemma insert_device_row:
  assumes "db_wf db" "insert_device r db = Inr db'"
  shows "db_wf db' \<and> devices db' = devices db @ [r] \<and> d_device_id r \<notin> device_keys db"
proof
  show "db_wf db'" using assms by (rule db_wf_insert_device)
qed (use assms(2) in \<open>auto simp: insert_device_def split: if_splits\<close>)

interpretation device_repo: repository device_model
proof unfold_locales
  fix db db' r k t
  assume wf: "db_wf db"
  show "distinct (map (m_key device_model) (m_rows device_model db))"
    using db_wfD(4) [OF wf] by (simp add: devices_wf_def)
  show "db_wf db' \<and> m_rows device_model db' = m_rows device_model db @ [r] \<and>
      m_key device_model r \<notin> m_key device_model ` set (m_rows device_model db)"
    if "m_insert device_model r db = Inr db'"
    using insert_device_row [OF wf] that by simp
  show "db_wf db' \<and> m_rows device_model db' = replace_row (m_key device_model) r (m_rows device_model db)"
    if "m_update device_model r db = Inr db'"
    using that db_wf_flush_device [OF wf] by (auto simp: flush_device_def split: if_splits)
  show "db_wf db' \<and> m_rows device_model db' = delete_where (\<lambda>r. m_key device_model r = k) (m_rows device_model db)"
    if "m_delete device_model t k db = Inr db'"
    using that db_wf_delete_device [OF wf, of t k db'] by (auto simp: delete_device_row_def split: if_splits)
qed simp

interpretation home_repo: repository home_model
proof unfold_locales
  fix db db' r k t
  assume wf: "db_wf db"
  show "distinct (map (m_key home_model) (m_rows home_model db))"
    using db_wfD(2) [OF wf] by (simp add: homes_wf_def)
  show "db_wf db' \<and> m_rows home_model db' = m_rows home_model db @ [r] \<and>
      m_key home_model r \<notin> m_key home_model ` set (m_rows home_model db)"
    if "m_insert home_model r db = Inr db'"
    using that db_wf_insert_home [OF wf, of r db'] by (auto simp: insert_home_def split: if_splits)
  show "db_wf db' \<and> m_rows home_model db' = replace_row (m_key home_model) r (m_rows home_model db)"
    if "m_update home_model r db = Inr db'"
    using that db_wf_flush_home [OF wf] by (auto simp: flush_home_def split: if_splits)
  show "db_wf db' \<and> m_rows home_model db' = delete_where (\<lambda>r. m_key home_model r = k) (m_rows home_model db)"
    if "m_delete home_model t k db = Inr db'"
    using that db_wf_delete_home [OF wf, of t k db'] by (auto simp: delete_home_row_def split: if_splits)
qed simp

interpretation community_repo: repository community_model
proof unfold_locales
  fix db db' r k t
  assume wf: "db_wf db"
  show "distinct (map (m_key community_model) (m_rows community_model db))"
    using db_wfD(3) [OF wf] by (simp add: communities_wf_def)
  show "db_wf db' \<and> m_rows community_model db' = m_rows community_model db @ [r] \<and>
      m_key community_model r \<notin> m_key community_model ` set (m_rows community_model db)"
    if "m_insert community_model r db = Inr db'"
    using that db_wf_insert_community [OF wf, of r db'] by (auto simp: insert_community_def split: if_splits)
  show "db_wf db' \<and> m_rows community_model db' = replace_row (m_key community_model) r (m_rows community_model db)"
    if "m_update community_model r db = Inr db'"
    using that db_wf_flush_community [OF wf] by (auto simp: flush_community_def split: if_splits)
  show "db_wf db' \<and> m_rows community_model db' = delete_where (\<lambda>r. m_key community_model r = k) (m_rows community_model db)"
    if "m_delete community_model t k db = Inr db'"
    using that db_wf_delete_community [OF wf, of t k db'] by (auto simp: delete_community_row_def split: if_splits)
qed simp

section \<open>Pages\<close>

lemma page_rows_Inr:
  "page_rows skip limit rows = Inr xs \<longleftrightarrow>
     int4 skip \<and> 0 \<le> skip \<and> int4 limit \<and> 0 \<le> limit \<and> xs = take (nat limit) (drop (nat skip) rows)"
  by (auto simp: page_rows_def)

text \<open>The pages of a listing, one after the other, are the listing.\<close>

lemma pages_concat: "concat (map (\<lambda>i. take l (drop (i * l) rows)) [0..<n]) = take (n * l) rows"
proof (induction n)
  case (Suc n)
  then have "concat (map (\<lambda>i. take l (drop (i * l) rows)) [0..<Suc n]) = take (n * l) rows @ take l (drop (n * l) rows)"
    by simp
  also have "\<dots> = take (n * l + l) rows" by (simp add: take_add)
  finally show ?case by (simp add: add.commute)
qed simp

end
