(* ===== verification/Devices.thy ===== *)
theory Devices
  imports Repository Auth
begin

text \<open>
  \<^verbatim>\<open>repositories/device.py\<close> and \<^verbatim>\<open>api/devices.py\<close>: the filtered, sorted and paged listing of devices,
  the facets of the filter menus, and the device endpoints. The lemmas show that the endpoints
  refine a map from device ids to rows, what a page of the listing holds, and what a search
  matches.
\<close>

section \<open>LIKE patterns\<close>

text \<open>
  A percent sign matches any text, an underscore any character, a backslash takes the next
  character literally. (A pattern that ends in a backslash is an error of the database; the
  patterns built here end in a percent sign.)
\<close>

fun like :: "string \<Rightarrow> string \<Rightarrow> bool" where
  "like [] t = (t = [])"
| "like (p # ps) t =
     (if p = CHR ''%'' then like ps t \<or> (case t of [] \<Rightarrow> False | _ # t' \<Rightarrow> like (p # ps) t')
      else if p = CHR ''_'' then (case t of [] \<Rightarrow> False | _ # t' \<Rightarrow> like ps t')
      else if p = CHR 0x5C
      then (case ps of [] \<Rightarrow> False | q # qs \<Rightarrow> (case t of [] \<Rightarrow> False | c # t' \<Rightarrow> c = q \<and> like qs t'))
      else (case t of [] \<Rightarrow> False | c # t' \<Rightarrow> c = p \<and> like ps t'))"

definition ilike :: "ext \<Rightarrow> string \<Rightarrow> string option \<Rightarrow> bool" where
  "ilike E pattern value =
     (case value of None \<Rightarrow> False | Some v \<Rightarrow> like (pg_lower E pattern) (pg_lower E v))"

section \<open>Sorting with nulls last\<close>

text \<open>The sort key of a cell: ascending, descending, or absent, which comes last either way.\<close>

datatype cell = Up "int list" | Down "int list" | Absent

instantiation cell :: linorder
begin

fun less_eq_cell :: "cell \<Rightarrow> cell \<Rightarrow> bool" where
  "less_eq_cell (Up a) (Up b) = (a \<le> b)"
| "less_eq_cell (Up a) _ = True"
| "less_eq_cell (Down a) (Up b) = False"
| "less_eq_cell (Down a) (Down b) = (b \<le> a)"
| "less_eq_cell (Down a) Absent = True"
| "less_eq_cell Absent Absent = True"
| "less_eq_cell Absent _ = False"

definition less_cell :: "cell \<Rightarrow> cell \<Rightarrow> bool" where
  "less_cell a b \<longleftrightarrow> a \<le> b \<and> \<not> b \<le> a"

instance
proof
  fix a b c :: cell
  show "a < b \<longleftrightarrow> a \<le> b \<and> \<not> b \<le> a" by (rule less_cell_def)
  show "a \<le> a" by (cases a) simp_all
  show "a \<le> b \<Longrightarrow> b \<le> c \<Longrightarrow> a \<le> c" by (cases a; cases b; cases c) auto
  show "a \<le> b \<Longrightarrow> b \<le> a \<Longrightarrow> a = b" by (cases a; cases b) auto
  show "a \<le> b \<or> b \<le> a" by (cases a; cases b) auto
qed

end

definition SORTABLE :: "string list" where
  "SORTABLE = [''device_id'', ''custom_id'', ''display_name'', ''home_id'', ''firmware_version'', ''status'',
               ''last_seen'', ''created_at'', ''updated_at'']"

text \<open>\<^verbatim>\<open>getattr(Device, name)\<close> as a sort key: text by the collation, times by their value.\<close>

definition sort_column :: "ext \<Rightarrow> string \<Rightarrow> device \<Rightarrow> int list option" where
  "sort_column E name d =
     (if name = ''device_id'' then Some (collate E (d_device_id d))
      else if name = ''custom_id'' then map_option (collate E) (d_custom_id d)
      else if name = ''display_name'' then map_option (collate E) (d_display_name d)
      else if name = ''home_id'' then map_option (collate E) (d_home_id d)
      else if name = ''firmware_version'' then map_option (collate E) (d_firmware_version d)
      else if name = ''status'' then Some (collate E (d_status d))
      else if name = ''created_at'' then Some [d_created_at d]
      else if name = ''updated_at'' then Some [d_updated_at d]
      else map_option (\<lambda>t. [t]) (d_last_seen d))"

definition sort_spec :: "string \<Rightarrow> string \<times> bool" where
  "sort_spec spec =
     (let reverse = startswith spec ''-''; col_name = lstrip_by (\<lambda>c. c = CHR ''-'') spec
      in if col_name \<in> set SORTABLE then (col_name, reverse) else (''last_seen'', True))"

definition order_cell :: "ext \<Rightarrow> string \<Rightarrow> device \<Rightarrow> cell" where
  "order_cell E spec d =
     (let (col_name, reverse) = sort_spec spec
      in case sort_column E col_name d of
           None \<Rightarrow> Absent
         | Some k \<Rightarrow> if reverse then Down k else Up k)"

section \<open>The device repository\<close>

definition get_filtered ::
  "ext \<Rightarrow> string option \<Rightarrow> string option \<Rightarrow> string option \<Rightarrow> int \<Rightarrow> int \<Rightarrow> db \<Rightarrow> device list res" where
  "get_filtered E status home_id role skip limit db =
     get_all E device_model skip limit
       [map_option (\<lambda>v d. d_status d = v) status, map_option (\<lambda>v d. d_home_id d = Some v) home_id,
        map_option (\<lambda>v d. d_role d = v) role] db"

record device_query =
  dq_status :: "string option"
  dq_home_id :: "string option"
  dq_firmware_version :: "string option"
  dq_role :: "string option"
  dq_search :: "string option"
  dq_sort :: string
  dq_skip :: int
  dq_limit :: int

text \<open>A filter that is absent or empty does not restrict; equality is never true of NULL.\<close>

definition cond :: "string option \<Rightarrow> string option \<Rightarrow> bool" where
  "cond wanted v = (case wanted of None \<Rightarrow> True | Some w \<Rightarrow> w = [] \<or> v = Some w)"

definition search_pattern :: "string \<Rightarrow> string" where
  "search_pattern search = ''%'' @ strip search @ ''%''"

definition search_matches :: "ext \<Rightarrow> string \<Rightarrow> device \<Rightarrow> bool" where
  "search_matches E search d =
     (let pattern = search_pattern search
      in ilike E pattern (Some (d_device_id d)) \<or> ilike E pattern (d_custom_id d) \<or>
         ilike E pattern (d_display_name d) \<or> ilike E pattern (d_home_id d))"

definition device_matches :: "ext \<Rightarrow> device_query \<Rightarrow> device \<Rightarrow> bool" where
  "device_matches E q d \<longleftrightarrow>
     cond (dq_status q) (Some (d_status d)) \<and> cond (dq_home_id q) (d_home_id d) \<and>
     cond (dq_firmware_version q) (d_firmware_version d) \<and> cond (dq_role q) (Some (d_role d)) \<and>
     (case dq_search q of None \<Rightarrow> True | Some s \<Rightarrow> s = [] \<or> search_matches E s d)"

definition get_filtered_paginated :: "ext \<Rightarrow> device_query \<Rightarrow> db \<Rightarrow> (device list \<times> nat) res" where
  "get_filtered_paginated E q db =
     (let rows = filter (device_matches E q) (devices db)
      in case page_rows (dq_skip q) (dq_limit q) (sort_key (order_cell E (dq_sort q)) (scan E rows)) of
           Inl e \<Rightarrow> Inl e
         | Inr items \<Rightarrow> Inr (items, length rows))"

definition facet_column :: "string \<Rightarrow> (device \<Rightarrow> string option) option" where
  "facet_column column =
     (if column = ''home_id'' then Some d_home_id
      else if column = ''firmware_version'' then Some d_firmware_version
      else if column = ''status'' then Some (\<lambda>d. Some (d_status d))
      else if column = ''role'' then Some (\<lambda>d. Some (d_role d))
      else None)"

definition distinct_values :: "ext \<Rightarrow> string \<Rightarrow> db \<Rightarrow> string list" where
  "distinct_values E column db =
     (case facet_column column of
        None \<Rightarrow> []
      | Some col \<Rightarrow> filter (\<lambda>v. v \<noteq> []) (sort_key (collate E) (remdups (non_null col (devices db)))))"

section \<open>The endpoints\<close>

record device_page =
  pg_items :: "device list"
  pg_total :: nat
  pg_limit :: int
  pg_offset :: int

definition list_devices :: "ext \<Rightarrow> string option \<Rightarrow> device_query \<Rightarrow> db \<Rightarrow> device_page res" where
  "list_devices E token q db =
     (case any_auth E token db of
        Inl e \<Rightarrow> Inl e
      | Inr _ \<Rightarrow>
          if \<not> (0 \<le> dq_skip q \<and> 1 \<le> dq_limit q \<and> dq_limit q \<le> 500) then Inl RequestInvalid
          else (case get_filtered_paginated E q db of
                  Inl e \<Rightarrow> Inl e
                | Inr (items, n) \<Rightarrow>
                    Inr \<lparr> pg_items = items, pg_total = n, pg_limit = dq_limit q, pg_offset = dq_skip q \<rparr>))"

definition list_facet :: "ext \<Rightarrow> string option \<Rightarrow> string \<Rightarrow> db \<Rightarrow> string list res" where
  "list_facet E token column db =
     (case any_auth E token db of Inl e \<Rightarrow> Inl e | Inr _ \<Rightarrow> Inr (distinct_values E column db))"

definition get_device :: "ext \<Rightarrow> string option \<Rightarrow> string \<Rightarrow> db \<Rightarrow> device res" where
  "get_device E token device_id db =
     (case any_auth E token db of
        Inl e \<Rightarrow> Inl e
      | Inr _ \<Rightarrow> (case get_by_id device_model device_id db of
                   None \<Rightarrow> Inl (HTTPException 404 ''Device not found'')
                 | Some d \<Rightarrow> Inr d))"

record device_create =
  dc_device_id :: string
  dc_mac :: string
  dc_firmware_version :: string
  dc_role :: string
  dc_home_id :: "string option"

definition new_device :: "datetime \<Rightarrow> device_create \<Rightarrow> device" where
  "new_device now p =
     (default_device (dc_device_id p) now)
       \<lparr>d_mac := Some (dc_mac p), d_firmware_version := Some (dc_firmware_version p), d_role := dc_role p,
        d_home_id := dc_home_id p\<rparr>"

definition create_device :: "ext \<Rightarrow> string option \<Rightarrow> device_create \<Rightarrow> db \<Rightarrow> device db_res" where
  "create_device E token payload db =
     (case any_auth E token db of
        Inl e \<Rightarrow> (Inl e, db)
      | Inr _ \<Rightarrow>
          (case get_by_id device_model (dc_device_id payload) db of
             Some _ \<Rightarrow> (Inl (HTTPException 409 ''Device already exists''), db)
           | None \<Rightarrow>
               (case repo_create device_model (new_device (pg_now E 0) payload) db of
                  (Inl e, db1) \<Rightarrow> (Inl e, db1)
                | (Inr device, db1) \<Rightarrow>
                    returning device
                      (audit_service_log E 1 None ''create'' ''device''
                         (Some (JObj [(''device_id'', JStr (d_device_id device))])) db1))))"

text \<open>The fields of a partial update: \<open>None\<close> when the request leaves the field out, \<open>Some None\<close> for null.\<close>

record device_update =
  du_firmware_version :: "string option option"
  du_role :: "string option option"
  du_status :: "string option option"
  du_home_id :: "string option option"

definition set_nullable :: "'a option option \<Rightarrow> 'a option \<Rightarrow> 'a option" where
  "set_nullable field old = (case field of None \<Rightarrow> old | Some v \<Rightarrow> v)"

definition set_required :: "'a option option \<Rightarrow> 'a \<Rightarrow> 'a" where
  "set_required field old = (case field of Some (Some v) \<Rightarrow> v | _ \<Rightarrow> old)"

definition change_device :: "device_update \<Rightarrow> device \<Rightarrow> device \<times> bool" where
  "change_device p d =
     (d\<lparr>d_firmware_version := set_nullable (du_firmware_version p) (d_firmware_version d),
        d_role := set_required (du_role p) (d_role d), d_status := set_required (du_status p) (d_status d),
        d_home_id := set_nullable (du_home_id p) (d_home_id d)\<rparr>,
      du_role p = Some None \<or> du_status p = Some None)"

definition json_field :: "string \<Rightarrow> string option option \<Rightarrow> (string \<times> json) list" where
  "json_field name field = (case field of None \<Rightarrow> [] | Some v \<Rightarrow> [(name, json_opt_str v)])"

definition device_changes :: "device_update \<Rightarrow> json" where
  "device_changes p =
     JObj (json_field ''firmware_version'' (du_firmware_version p) @ json_field ''role'' (du_role p) @
           json_field ''status'' (du_status p) @ json_field ''home_id'' (du_home_id p))"

definition update_device :: "ext \<Rightarrow> string option \<Rightarrow> string \<Rightarrow> device_update \<Rightarrow> db \<Rightarrow> device db_res" where
  "update_device E token device_id payload db =
     (case any_auth E token db of
        Inl e \<Rightarrow> (Inl e, db)
      | Inr _ \<Rightarrow>
          (case repo_update device_model (pg_now E 0) device_id (change_device payload) db of
             (Inl e, db1) \<Rightarrow> (Inl e, db1)
           | (Inr None, db1) \<Rightarrow> (Inl (HTTPException 404 ''Device not found''), db1)
           | (Inr (Some device), db1) \<Rightarrow>
               returning device
                 (audit_service_log E 1 None ''update'' ''device''
                    (Some (JObj [(''device_id'', JStr device_id), (''changes'', device_changes payload)])) db1)))"

definition delete_device :: "ext \<Rightarrow> string option \<Rightarrow> string \<Rightarrow> db \<Rightarrow> unit db_res" where
  "delete_device E token device_id db =
     (case any_auth E token db of
        Inl e \<Rightarrow> (Inl e, db)
      | Inr _ \<Rightarrow>
          (case repo_delete device_model (pg_now E 0) device_id db of
             (Inl e, db1) \<Rightarrow> (Inl e, db1)
           | (Inr deleted, db1) \<Rightarrow>
               if \<not> deleted then (Inl (HTTPException 404 ''Device not found''), db1)
               else returning () (audit_service_log E 1 None ''delete'' ''device''
                      (Some (JObj [(''device_id'', JStr device_id)])) db1)))"

section \<open>What a search matches\<close>

lemma like_percent: "like (CHR ''%'' # ps) t \<longleftrightarrow> (\<exists>a b. t = a @ b \<and> like ps b)"
proof (induction t)
  case (Cons c t)
  show ?case
  proof
    assume "like (CHR ''%'' # ps) (c # t)"
    then consider "like ps (c # t)" | "like (CHR ''%'' # ps) t" by auto
    then show "\<exists>a b. c # t = a @ b \<and> like ps b"
    proof cases
      case 1
      then show ?thesis by (metis append_Nil)
    next
      case 2
      then show ?thesis using Cons by (metis append_Cons)
    qed
  next
    assume "\<exists>a b. c # t = a @ b \<and> like ps b"
    then obtain a b where ab: "c # t = a @ b" "like ps b" by blast
    then show "like (CHR ''%'' # ps) (c # t)"
    proof (cases a)
      case (Cons d a')
      then have "\<exists>a b. t = a @ b \<and> like ps b" using ab by auto
      then show ?thesis using \<open>like (CHR ''%'' # ps) t \<longleftrightarrow> _\<close> by simp
    qed simp
  qed
qed simp

definition literal :: "string \<Rightarrow> bool" where
  "literal w \<longleftrightarrow> set w \<inter> {CHR ''%'', CHR ''_'', CHR 0x5C} = {}"

lemma like_literal: "literal w \<Longrightarrow> like (w @ ps) t \<longleftrightarrow> (\<exists>b. t = w @ b \<and> like ps b)"
proof (induction w arbitrary: t)
  case (Cons c w)
  then show ?case by (cases t) (auto simp: literal_def)
qed simp

lemma like_infix: "literal w \<Longrightarrow> like (''%'' @ w @ ''%'') t \<longleftrightarrow> (\<exists>a b. t = a @ w @ b)"
proof -
  have "like ''%'' b" for b unfolding like_percent by (rule exI [of _ b]) simp
  then show "literal w \<Longrightarrow> ?thesis" by (auto simp: like_percent like_literal simp del: like.simps)
qed

text \<open>Lower-casing works character by character and leaves the percent sign alone.\<close>

definition lower_ok :: "ext \<Rightarrow> bool" where
  "lower_ok E \<longleftrightarrow> (\<exists>f. f CHR ''%'' = CHR ''%'' \<and> pg_lower E = map f)"

lemma lower_ok_demo [simp]: "lower_ok demo_ext"
  unfolding lower_ok_def
  by (rule exI [of _ "\<lambda>c. let n = (of_char c :: nat) in if 65 \<le> n \<and> n \<le> 90 then char_of (n + 32) else c"])
     (auto simp: demo_lower_def)

text \<open>
  C27: a search without wildcards finds a device exactly when, up to case, the text without its outer
  white space occurs in the device id, the custom id, the display name or the home id.
\<close>

theorem search_finds_substrings:
  assumes "lower_ok E" "literal (pg_lower E (strip text))"
  shows "search_matches E text d \<longleftrightarrow>
    (\<exists>v \<in> {d_device_id d} \<union> set_option (d_custom_id d) \<union> set_option (d_display_name d) \<union> set_option (d_home_id d).
       \<exists>a b. pg_lower E v = a @ pg_lower E (strip text) @ b)"
proof -
  have p: "pg_lower E (search_pattern text) = ''%'' @ pg_lower E (strip text) @ ''%''"
    using assms(1) by (auto simp: lower_ok_def search_pattern_def)
  have "ilike E (search_pattern text) v \<longleftrightarrow> (\<exists>x \<in> set_option v. \<exists>a b. pg_lower E x = a @ pg_lower E (strip text) @ b)" for v
    unfolding ilike_def p like_infix [OF assms(2)] by (cases v) simp_all
  then show ?thesis unfolding search_matches_def Let_def by (simp add: bex_Un disj_assoc)
qed

theorem search_finds_substrings_witness:
  "search_matches demo_ext '' EV2 '' (sample_device ''dev2'' ''bb'' None ''alive'' 900)"
proof -
  let ?d = "sample_device ''dev2'' ''bb'' None ''alive'' 900"
  have st: "strip '' EV2 '' = ''EV2''"
    by (simp add: strip_def lstrip_by_def rstrip_by_def is_space_def)
  have low: "pg_lower demo_ext ''EV2'' = ''ev2''" "pg_lower demo_ext ''dev2'' = ''d'' @ ''ev2'' @ []"
    by code_simp+
  have lit: "literal (pg_lower demo_ext (strip '' EV2 ''))" unfolding st low by (simp add: literal_def)
  have "\<exists>a b. pg_lower demo_ext (d_device_id ?d) = a @ pg_lower demo_ext (strip '' EV2 '') @ b"
    unfolding st sample_device_simps low by blast
  then show ?thesis
    unfolding search_finds_substrings [OF lower_ok_demo lit] by blast
qed

section \<open>What a page holds\<close>

lemma device_rows: "db_wf db \<Longrightarrow> distinct (map d_device_id (devices db))"
  using db_wfD(4) by (auto simp: devices_wf_def)

lemma list_devices_InrD:
  assumes "list_devices E token q db = Inr pg"
  shows "0 \<le> dq_skip q" "1 \<le> dq_limit q" "dq_limit q \<le> 500" "pg_limit pg = dq_limit q" "pg_offset pg = dq_skip q"
    "pg_total pg = length (filter (device_matches E q) (devices db))"
    "pg_items pg = take (nat (dq_limit q)) (drop (nat (dq_skip q))
       (sort_key (order_cell E (dq_sort q)) (scan E (filter (device_matches E q) (devices db)))))"
  using assms
  by (auto simp: list_devices_def get_filtered_paginated_def Let_def page_rows_Inr split: sum.splits if_splits prod.splits)

text \<open>
  A page of the device listing has between none and 500 devices: as many as the limit asks for
  and the matching devices after the offset allow. Each is a device of the fleet that satisfies
  every filter, none occurs twice, they are in the requested order with the devices that have no
  value last, and the total is the number of all matching devices.
\<close>

theorem device_page_exact:
  assumes "db_wf db" "scan_ok E" "list_devices E token q db = Inr pg"
  shows "length (pg_items pg) = min (nat (dq_limit q)) (pg_total pg - nat (dq_skip q)) \<and>
         length (pg_items pg) \<le> 500 \<and>
         pg_total pg = card {d \<in> set (devices db). device_matches E q d} \<and>
         set (pg_items pg) \<subseteq> {d \<in> set (devices db). device_matches E q d} \<and>
         distinct (map d_device_id (pg_items pg)) \<and>
         sorted (map (order_cell E (dq_sort q)) (pg_items pg))"
proof -
  let ?rows = "filter (device_matches E q) (devices db)"
  let ?all = "sort_key (order_cell E (dq_sort q)) (scan E ?rows)"
  note pg = list_devices_InrD [OF assms(3)]
  have dist: "distinct (map d_device_id ?rows)" using device_rows [OF assms(1)] by (rule distinct_map_filter)
  have "mset ?all = mset ?rows" by (simp add: mset_scan [OF assms(2)])
  then have "distinct (map d_device_id ?all)" "set ?all = set ?rows"
    using dist assms(2) by (metis mset_eq_imp_distinct_iff mset_map, simp)
  moreover have "set (pg_items pg) \<subseteq> set ?all"
    unfolding pg(7) by (meson set_take_subset set_drop_subset subset_trans)
  moreover have "length ?all = length ?rows" using assms(2) by simp
  moreover have "length ?rows = card {d \<in> set (devices db). device_matches E q d}"
    using dist by (metis distinct_map distinct_card set_filter)
  moreover have slice: "map f (pg_items pg) = take (nat (dq_limit q)) (drop (nat (dq_skip q)) (map f ?all))" for f :: "device \<Rightarrow> 'x"
    by (simp only: pg(7) take_map drop_map)
  moreover have "sorted (map (order_cell E (dq_sort q)) (pg_items pg))"
    unfolding slice by (intro sorted_wrt_take sorted_wrt_drop sorted_sort_key)
  moreover have "length (pg_items pg) = min (nat (dq_limit q)) (length ?all - nat (dq_skip q))"
    unfolding pg(7) by (simp add: min.commute)
  ultimately show ?thesis using pg(1-6) by (auto simp: slice)
qed

theorem device_page_exact_witness:
  "\<exists>pg. list_devices demo_ext (sample_token ''admin'')
      \<lparr> dq_status = Some ''alive'', dq_home_id = None, dq_firmware_version = None, dq_role = None, dq_search = None,
        dq_sort = ''-last_seen'', dq_skip = 1, dq_limit = 5 \<rparr> sample_db = Inr pg \<and>
      pg_total pg = 2 \<and> length (pg_items pg) = 1"
proof -
  let ?q = "\<lparr> dq_status = Some ''alive'', dq_home_id = None, dq_firmware_version = None, dq_role = None, dq_search = None,
        dq_sort = ''-last_seen'', dq_skip = 1, dq_limit = 5 \<rparr>"
  have "\<exists>pg. list_devices demo_ext (sample_token ''admin'') ?q sample_db = Inr pg"
    by (simp add: list_devices_def get_filtered_paginated_def Let_def page_rows_def int4_def)
  then obtain pg where pg: "list_devices demo_ext (sample_token ''admin'') ?q sample_db = Inr pg" by blast
  then have "pg_total pg = 2"
    using list_devices_InrD(6) [OF pg] by (simp add: device_matches_def cond_def)
  then show ?thesis using device_page_exact [OF db_wf_sample demo_ext_ok(1) pg] pg by simp
qed

lemma list_devices_page:
  assumes "any_auth E token db = Inr u" "0 \<le> dq_skip q" "int4 (dq_skip q)" "1 \<le> dq_limit q" "dq_limit q \<le> 500"
  shows "list_devices E token q db = Inr
    \<lparr> pg_items = take (nat (dq_limit q)) (drop (nat (dq_skip q))
        (sort_key (order_cell E (dq_sort q)) (scan E (filter (device_matches E q) (devices db))))),
      pg_total = length (filter (device_matches E q) (devices db)), pg_limit = dq_limit q, pg_offset = dq_skip q \<rparr>"
  using assms by (simp add: list_devices_def get_filtered_paginated_def page_rows_def Let_def int4_def)



section \<open>The endpoints as a map\<close>

text \<open>One entry of the audit log, written by a call that ran without an actor.\<close>

definition audited :: "string \<Rightarrow> db \<Rightarrow> db \<Rightarrow> bool" where
  "audited action db db' \<longleftrightarrow>
     (\<exists>l. audit_log db' = audit_log db @ [l] \<and> l_action l = action \<and> l_resource l = ''device'' \<and> l_user_id l = None)"

lemma returning_audit:
  assumes "a \<in> {''create'', ''update'', ''delete''}"
  obtains db2 where "returning x (audit_service_log E k None a ''device'' d db) = (Inr x, db2)"
    "devices db2 = devices db" "audited a db db2"
proof -
  let ?r = "audit_service_log E k None a ''device'' d db"
  have fit: "fits_opt 64 None" "fits 32 a" "fits 32 ''device''"
    using assms by (auto simp: fits_opt_def fits_def)
  note ret = audit_service_log_returns [OF fit, of E k d db]
  have "audited a db (snd ?r)" unfolding audited_def ret(2) by (simp add: new_audit_entry_def)
  moreover have "returning x ?r = (Inr x, snd ?r)" using ret(1) by (simp add: returning_def)
  ultimately show ?thesis using that [of "snd ?r"] by simp
qed

lemma table_devices: "devices db' = devices db \<Longrightarrow> table device_model db' = table device_model db"
  by (simp add: get_by_id_def)

lemma audited_frame: "audited a db1 db2 \<Longrightarrow> audit_log db1 = audit_log db \<Longrightarrow> audited a db db2"
  by (simp add: audited_def)

lemma device_repo_audit_log:
  "audit_log (snd (repo_create device_model d db)) = audit_log db"
  "audit_log (snd (repo_update device_model t i c db)) = audit_log db"
  "audit_log (snd (repo_delete device_model t i db)) = audit_log db"
  by (auto simp: repo_create_def repo_update_def repo_delete_def Let_def insert_device_def flush_device_def delete_device_row_def
      split: option.split sum.splits prod.split if_splits)

lemma create_device_result:
  assumes "db_wf db"
  shows "case create_device E token p db of
       (Inl e, db') \<Rightarrow> db' = db
     | (Inr d, db') \<Rightarrow> d = new_device (pg_now E 0) p \<and> table device_model db (dc_device_id p) = None \<and>
         table device_model db' = (table device_model db)(dc_device_id p \<mapsto> d) \<and> audited ''create'' db db'"
proof (cases "repo_create device_model (new_device (pg_now E 0) p) db")
  case (Pair r db1)
  show ?thesis
  proof (cases r)
    case (Inl e)
    then show ?thesis
      using Pair device_repo.failures(1) [of "new_device (pg_now E 0) p" db e db1]
      by (auto simp: create_device_def split: sum.split option.split)
  next
    case (Inr d)
    let ?d = "Some (JObj [(''device_id'', JStr (d_device_id d))])"
    have row: "d = new_device (pg_now E 0) p" "table device_model db1 = (table device_model db)(dc_device_id p \<mapsto> d)"
      "table device_model db (dc_device_id p) = None"
      using device_repo.create_refines [OF assms Pair [unfolded Inr]] by (simp_all add: new_device_def default_device_def)
    obtain db2 where db2: "returning d (audit_service_log E 1 None ''create'' ''device'' ?d db1) = (Inr d, db2)"
      "devices db2 = devices db1" "audited ''create'' db1 db2"
      using returning_audit [of "''create''" d E 1 ?d db1] by auto
    have "audit_log db1 = audit_log db" using device_repo_audit_log(1) [of "new_device (pg_now E 0) p" db] Pair by simp
    then show ?thesis
      using Pair Inr row db2 table_devices [OF db2(2)] audited_frame [OF db2(3)]
      by (auto simp: create_device_def split: sum.split option.split)
  qed
qed

lemma change_device_key: "d_device_id (fst (change_device u d)) = d_device_id d"
  by (simp add: change_device_def)

lemma update_device_result:
  assumes "db_wf db"
  shows "case update_device E token i u db of
       (Inl e, db') \<Rightarrow> db' = db
     | (Inr d, db') \<Rightarrow> \<exists>old. table device_model db i = Some old \<and>
         d = (if fst (change_device u old) = old then old else (fst (change_device u old))\<lparr>d_updated_at := pg_now E 0\<rparr>) \<and>
         table device_model db' = (table device_model db)(i \<mapsto> d) \<and> audited ''update'' db db'"
proof (cases "repo_update device_model (pg_now E 0) i (change_device u) db")
  case (Pair r db1)
  consider (bad) e where "r = Inl e" | (none) "r = Inr None" | (ok) d where "r = Inr (Some d)"
    by (metis option.exhaust sum.exhaust)
  then show ?thesis
  proof cases
    case bad
    then show ?thesis
      using Pair device_repo.failures(2) [of "pg_now E 0" i "change_device u" db e db1]
      by (auto simp: update_device_def split: sum.split)
  next
    case none
    then show ?thesis
      using Pair device_repo.update_missing [of "pg_now E 0" i "change_device u" db db1]
      by (auto simp: update_device_def split: sum.split)
  next
    case ok
    obtain old where old: "table device_model db i = Some old" "table device_model db1 = (table device_model db)(i \<mapsto> d)"
      "d = (if fst (change_device u old) = old then old else (fst (change_device u old))\<lparr>d_updated_at := pg_now E 0\<rparr>)"
      by (rule device_repo.update_refines [OF assms Pair [unfolded ok]]) (simp_all add: change_device_key)
    let ?d = "Some (JObj [(''device_id'', JStr i), (''changes'', device_changes u)])"
    obtain db2 where db2: "returning d (audit_service_log E 1 None ''update'' ''device'' ?d db1) = (Inr d, db2)"
      "devices db2 = devices db1" "audited ''update'' db1 db2"
      using returning_audit [of "''update''" d E 1 ?d db1] by auto
    have "audit_log db1 = audit_log db" using device_repo_audit_log(2) [of "pg_now E 0" i "change_device u" db] Pair by simp
    then have "audited ''update'' db db2" "table device_model db2 = (table device_model db)(i \<mapsto> d)"
      using old(2) table_devices [OF db2(2)] audited_frame [OF db2(3)] by simp_all
    then have res: "\<exists>old. table device_model db i = Some old \<and>
         d = (if fst (change_device u old) = old then old else (fst (change_device u old))\<lparr>d_updated_at := pg_now E 0\<rparr>) \<and>
         table device_model db2 = (table device_model db)(i \<mapsto> d) \<and> audited ''update'' db db2"
      using old(1,3) by blast
    have "update_device E token i u db \<in> {(Inr d, db2)} \<union> {(Inl e, db) | e. True}"
      using Pair ok db2(1) by (auto simp: update_device_def split: sum.split)
    then consider "update_device E token i u db = (Inr d, db2)" | e where "update_device E token i u db = (Inl e, db)"
      by blast
    then show ?thesis by cases (simp_all only: prod.case sum.case res)
  qed
qed

lemma delete_device_result:
  assumes "db_wf db"
  shows "case delete_device E token i db of
       (Inl e, db') \<Rightarrow> db' = db
     | (Inr _, db') \<Rightarrow> table device_model db i \<noteq> None \<and> i \<notin> e_device_id ` set (ota_events db) \<and>
         table device_model db' = (table device_model db)(i := None) \<and> audited ''delete'' db db'"
proof (cases "repo_delete device_model (pg_now E 0) i db")
  case (Pair r db1)
  show ?thesis
  proof (cases r)
    case (Inl e)
    then show ?thesis
      using Pair device_repo.failures(3) [of "pg_now E 0" i db e db1]
      by (auto simp: delete_device_def split: sum.split)
  next
    case (Inr b)
    have row: "b \<longleftrightarrow> table device_model db i \<noteq> None" "table device_model db1 = (table device_model db)(i := None)"
      using device_repo.delete_refines [OF assms Pair [unfolded Inr]] by simp_all
    have refused: "db1 = db" if "\<not> b" using Pair Inr that row(1) by (simp add: repo_delete_def)
    have free: "i \<notin> e_device_id ` set (ota_events db)" if b
      using Pair Inr that by (auto simp: repo_delete_def delete_device_row_def split: option.splits if_splits)
    let ?d = "Some (JObj [(''device_id'', JStr i)])"
    obtain db2 where db2: "returning () (audit_service_log E 1 None ''delete'' ''device'' ?d db1) = (Inr (), db2)"
      "devices db2 = devices db1" "audited ''delete'' db1 db2"
      using returning_audit [of "''delete''" "()" E 1 ?d db1] by auto
    have "audit_log db1 = audit_log db" using device_repo_audit_log(3) [of "pg_now E 0" i db] Pair by simp
    then have "audited ''delete'' db db2" "table device_model db2 = (table device_model db)(i := None)"
      using row(2) table_devices [OF db2(2)] audited_frame [OF db2(3)] by simp_all
    moreover have "delete_device E token i db \<in> (if b then {(Inr (), db2)} else {}) \<union> {(Inl e, db) | e. True}"
      using Pair Inr db2(1) refused by (auto simp: delete_device_def split: sum.split)
    ultimately show ?thesis using row(1) free by (auto split: if_splits)
  qed
qed

text \<open>
  C25: the device endpoints are the operations of a map from device ids to rows. A creation that
  succeeds adds exactly the described row under a free id, an update replaces exactly the row of
  its id by the row with the given fields changed (and its update time, if anything changed), a
  deletion removes exactly that row and only when no OTA event refers to it; each leaves one audit
  entry, which names no account. A request that fails changes nothing at all.
\<close>

theorem device_endpoints_refine_map:
  assumes "db_wf db"
  shows "(case create_device E token p db of
       (Inl e, db') \<Rightarrow> db' = db
     | (Inr d, db') \<Rightarrow> d = new_device (pg_now E 0) p \<and> table device_model db (dc_device_id p) = None \<and>
         table device_model db' = (table device_model db)(dc_device_id p \<mapsto> d) \<and> audited ''create'' db db') \<and>
    (case update_device E token i u db of
       (Inl e, db') \<Rightarrow> db' = db
     | (Inr d, db') \<Rightarrow> \<exists>old. table device_model db i = Some old \<and>
         d = (if fst (change_device u old) = old then old else (fst (change_device u old))\<lparr>d_updated_at := pg_now E 0\<rparr>) \<and>
         table device_model db' = (table device_model db)(i \<mapsto> d) \<and> audited ''update'' db db') \<and>
    (case delete_device E token i db of
       (Inl e, db') \<Rightarrow> db' = db
     | (Inr _, db') \<Rightarrow> table device_model db i \<noteq> None \<and> i \<notin> e_device_id ` set (ota_events db) \<and>
         table device_model db' = (table device_model db)(i := None) \<and> audited ''delete'' db db')"
  by (intro conjI create_device_result update_device_result delete_device_result assms)

theorem device_endpoints_refine_map_witness:
  "table device_model (snd (delete_device demo_ext (sample_token ''admin'') ''dev2'' sample_db)) ''dev2'' = None \<and>
   snd (delete_device demo_ext (sample_token ''admin'') ''dev3'' sample_db) = sample_db"
proof -
  let ?t = "sample_token ''admin''"
  have 2: "fst (delete_device demo_ext ?t ''dev2'' sample_db) = Inr ()"
    by (simp add: delete_device_def repo_delete_def get_by_id_def lookup_key_def delete_device_row_def
        fst_returning_Inr_iff audit_service_log_returns fits_def fits_opt_def)
  have 3: "fst (delete_device demo_ext ?t ''dev3'' sample_db) = Inl IntegrityError"
    by (simp add: delete_device_def repo_delete_def get_by_id_def lookup_key_def delete_device_row_def)
  have "table device_model (snd (delete_device demo_ext ?t ''dev2'' sample_db)) ''dev2'' = None"
    using device_endpoints_refine_map [OF db_wf_sample, where E = demo_ext and token = ?t and i = "''dev2''",
        THEN conjunct2, THEN conjunct2] 2
    by (auto split: prod.splits sum.splits dest: fun_cong [of _ _ "''dev2''"] simp del: sample_db_simps)
  moreover have "snd (delete_device demo_ext ?t ''dev3'' sample_db) = sample_db"
    using device_endpoints_refine_map [OF db_wf_sample, where E = demo_ext and token = ?t and i = "''dev3''",
        THEN conjunct2, THEN conjunct2] 3
    by (auto split: prod.splits sum.splits dest: fun_cong [of _ _ "''dev3''"] simp del: sample_db_simps)
  ultimately show ?thesis by blast
qed

end
