(* ===== verification/Homes.thy ===== *)
theory Homes
  imports Devices
begin

text \<open>
  \<^verbatim>\<open>repositories/home.py\<close>, \<^verbatim>\<open>repositories/community.py\<close>, \<^verbatim>\<open>api/homes.py\<close> and \<^verbatim>\<open>api/communities.py\<close>: homes,
  communities, and the assignment of homes to communities. The lemmas show that the endpoints
  refine maps from ids to rows, that an assignment shows on both sides and that removing it undoes
  it, and what deleting a home leaves behind.
\<close>

section \<open>The repositories\<close>

text \<open>The related rows of a many-to-many relationship, in the order the database delivers them.\<close>

definition communities_of :: "ext \<Rightarrow> string \<Rightarrow> db \<Rightarrow> community list" where
  "communities_of E home_id db =
     scan E (filter (\<lambda>c. (home_id, c_community_id c) \<in> set (home_community db)) (communities db))"

definition homes_of :: "ext \<Rightarrow> string \<Rightarrow> db \<Rightarrow> home list" where
  "homes_of E community_id db =
     scan E (filter (\<lambda>h. (h_home_id h, community_id) \<in> set (home_community db)) (homes db))"

definition get_with_communities :: "ext \<Rightarrow> string \<Rightarrow> db \<Rightarrow> (home \<times> community list) option" where
  "get_with_communities E home_id db =
     map_option (\<lambda>h. (h, communities_of E home_id db)) (lookup_key h_home_id home_id (homes db))"

definition repo_assign_community :: "string \<Rightarrow> string \<Rightarrow> db \<Rightarrow> bool db_res" where
  "repo_assign_community home_id community_id db =
     (if get_by_id home_model home_id db = None \<or> get_by_id community_model community_id db = None then (Inr False, db)
      else (case insert_home_community home_id community_id db of
              Inl e \<Rightarrow> (Inl e, db)
            | Inr db1 \<Rightarrow> (Inr True, db1)))"

definition repo_remove_community :: "string \<Rightarrow> string \<Rightarrow> db \<Rightarrow> bool db_res" where
  "repo_remove_community home_id community_id db =
     (let P = (\<lambda>p. fst p = home_id \<and> snd p = community_id)
      in (Inr (filter P (home_community db) \<noteq> []),
          db\<lparr>home_community := delete_where P (home_community db)\<rparr>))"

definition get_with_homes :: "ext \<Rightarrow> string \<Rightarrow> db \<Rightarrow> (community \<times> home list) option" where
  "get_with_homes E community_id db =
     map_option (\<lambda>c. (c, homes_of E community_id db)) (lookup_key c_community_id community_id (communities db))"

definition get_homes :: "ext \<Rightarrow> string \<Rightarrow> db \<Rightarrow> home list" where
  "get_homes E community_id db =
     (case get_with_homes E community_id db of None \<Rightarrow> [] | Some (_, hs) \<Rightarrow> hs)"

section \<open>Home endpoints\<close>

definition list_homes :: "ext \<Rightarrow> string option \<Rightarrow> int \<Rightarrow> int \<Rightarrow> db \<Rightarrow> home list res" where
  "list_homes E token skip limit db =
     (case any_auth E token db of
        Inl e \<Rightarrow> Inl e
      | Inr _ \<Rightarrow> if \<not> (0 \<le> skip \<and> 1 \<le> limit \<and> limit \<le> 200) then Inl RequestInvalid
                else get_all E home_model skip limit [] db)"

definition get_home :: "ext \<Rightarrow> string option \<Rightarrow> string \<Rightarrow> db \<Rightarrow> (home \<times> community list) res" where
  "get_home E token home_id db =
     (case any_auth E token db of
        Inl e \<Rightarrow> Inl e
      | Inr _ \<Rightarrow> (case get_with_communities E home_id db of
                   None \<Rightarrow> Inl (HTTPException 404 ''Home not found'')
                 | Some h \<Rightarrow> Inr h))"

record home_create =
  hc_home_id :: string
  hc_patient_name :: string
  hc_address :: "string option"

definition new_home :: "datetime \<Rightarrow> home_create \<Rightarrow> home" where
  "new_home now p =
     \<lparr> h_home_id = hc_home_id p, h_patient_name = hc_patient_name p, h_address = hc_address p, h_created_at = now \<rparr>"

definition create_home :: "ext \<Rightarrow> string option \<Rightarrow> home_create \<Rightarrow> db \<Rightarrow> home db_res" where
  "create_home E token payload db =
     (case any_auth E token db of
        Inl e \<Rightarrow> (Inl e, db)
      | Inr _ \<Rightarrow>
          (case get_by_id home_model (hc_home_id payload) db of
             Some _ \<Rightarrow> (Inl (HTTPException 409 ''Home already exists''), db)
           | None \<Rightarrow> repo_create home_model (new_home (pg_now E 0) payload) db))"

record home_update =
  hu_patient_name :: "string option option"
  hu_address :: "string option option"

definition change_home :: "home_update \<Rightarrow> home \<Rightarrow> home \<times> bool" where
  "change_home p h =
     (h\<lparr>h_patient_name := set_required (hu_patient_name p) (h_patient_name h),
        h_address := set_nullable (hu_address p) (h_address h)\<rparr>,
      hu_patient_name p = Some None)"

text \<open>The tail of an update or deletion: the 404 of a missing row.\<close>

definition or_not_found :: "string \<Rightarrow> 'a option db_res \<Rightarrow> 'a db_res" where
  "or_not_found detail r =
     (case r of
        (Inl e, db) \<Rightarrow> (Inl e, db)
      | (Inr None, db) \<Rightarrow> (Inl (HTTPException 404 detail), db)
      | (Inr (Some x), db) \<Rightarrow> (Inr x, db))"

definition unless_not_found :: "string \<Rightarrow> bool db_res \<Rightarrow> unit db_res" where
  "unless_not_found detail r =
     (case r of
        (Inl e, db) \<Rightarrow> (Inl e, db)
      | (Inr b, db) \<Rightarrow> (if b then Inr () else Inl (HTTPException 404 detail), db))"

definition update_home :: "ext \<Rightarrow> string option \<Rightarrow> string \<Rightarrow> home_update \<Rightarrow> db \<Rightarrow> home db_res" where
  "update_home E token home_id payload db =
     (case any_auth E token db of
        Inl e \<Rightarrow> (Inl e, db)
      | Inr _ \<Rightarrow> or_not_found ''Home not found''
                  (repo_update home_model (pg_now E 0) home_id (change_home payload) db))"

definition delete_home :: "ext \<Rightarrow> string option \<Rightarrow> string \<Rightarrow> db \<Rightarrow> unit db_res" where
  "delete_home E token home_id db =
     (case any_auth E token db of
        Inl e \<Rightarrow> (Inl e, db)
      | Inr _ \<Rightarrow> unless_not_found ''Home not found'' (repo_delete home_model (pg_now E 0) home_id db))"

definition assign_community :: "ext \<Rightarrow> string option \<Rightarrow> string \<Rightarrow> string \<Rightarrow> db \<Rightarrow> string db_res" where
  "assign_community E token home_id community_id db =
     (case any_auth E token db of
        Inl e \<Rightarrow> (Inl e, db)
      | Inr _ \<Rightarrow>
          (case repo_assign_community home_id community_id db of
             (Inl e, db1) \<Rightarrow> (Inl e, db1)
           | (Inr success, db1) \<Rightarrow>
               if \<not> success then (Inl (HTTPException 404 ''Home or community not found''), db1)
               else (Inr (''Community '' @ community_id @ '' assigned to home '' @ home_id), db1)))"

definition remove_community :: "ext \<Rightarrow> string option \<Rightarrow> string \<Rightarrow> string \<Rightarrow> db \<Rightarrow> unit db_res" where
  "remove_community E token home_id community_id db =
     (case any_auth E token db of
        Inl e \<Rightarrow> (Inl e, db)
      | Inr _ \<Rightarrow> unless_not_found ''Assignment not found'' (repo_remove_community home_id community_id db))"

definition list_home_communities :: "ext \<Rightarrow> string option \<Rightarrow> string \<Rightarrow> db \<Rightarrow> community list res" where
  "list_home_communities E token home_id db =
     (case any_auth E token db of
        Inl e \<Rightarrow> Inl e
      | Inr _ \<Rightarrow> (case get_with_communities E home_id db of
                   None \<Rightarrow> Inl (HTTPException 404 ''Home not found'')
                 | Some (_, cs) \<Rightarrow> Inr cs))"

section \<open>Community endpoints\<close>

definition list_communities :: "ext \<Rightarrow> string option \<Rightarrow> int \<Rightarrow> int \<Rightarrow> db \<Rightarrow> community list res" where
  "list_communities E token skip limit db =
     (case any_auth E token db of
        Inl e \<Rightarrow> Inl e
      | Inr _ \<Rightarrow> if \<not> (0 \<le> skip \<and> 1 \<le> limit \<and> limit \<le> 200) then Inl RequestInvalid
                else get_all E community_model skip limit [] db)"

definition get_community :: "ext \<Rightarrow> string option \<Rightarrow> string \<Rightarrow> db \<Rightarrow> community res" where
  "get_community E token community_id db =
     (case any_auth E token db of
        Inl e \<Rightarrow> Inl e
      | Inr _ \<Rightarrow> (case get_by_id community_model community_id db of
                   None \<Rightarrow> Inl (HTTPException 404 ''Community not found'')
                 | Some c \<Rightarrow> Inr c))"

record community_create =
  cc_community_id :: string
  cc_name :: string
  cc_description :: "string option"

definition new_community :: "datetime \<Rightarrow> community_create \<Rightarrow> community" where
  "new_community now p =
     \<lparr> c_community_id = cc_community_id p, c_name = cc_name p, c_description = cc_description p, c_created_at = now \<rparr>"

definition create_community :: "ext \<Rightarrow> string option \<Rightarrow> community_create \<Rightarrow> db \<Rightarrow> community db_res" where
  "create_community E token payload db =
     (case any_auth E token db of
        Inl e \<Rightarrow> (Inl e, db)
      | Inr _ \<Rightarrow>
          (case get_by_id community_model (cc_community_id payload) db of
             Some _ \<Rightarrow> (Inl (HTTPException 409 ''Community already exists''), db)
           | None \<Rightarrow> repo_create community_model (new_community (pg_now E 0) payload) db))"

record community_update =
  cu_name :: "string option option"
  cu_description :: "string option option"

definition change_community :: "community_update \<Rightarrow> community \<Rightarrow> community \<times> bool" where
  "change_community p c =
     (c\<lparr>c_name := set_required (cu_name p) (c_name c),
        c_description := set_nullable (cu_description p) (c_description c)\<rparr>,
      cu_name p = Some None)"

definition update_community :: "ext \<Rightarrow> string option \<Rightarrow> string \<Rightarrow> community_update \<Rightarrow> db \<Rightarrow> community db_res" where
  "update_community E token community_id payload db =
     (case any_auth E token db of
        Inl e \<Rightarrow> (Inl e, db)
      | Inr _ \<Rightarrow> or_not_found ''Community not found''
                  (repo_update community_model (pg_now E 0) community_id (change_community payload) db))"

definition delete_community :: "ext \<Rightarrow> string option \<Rightarrow> string \<Rightarrow> db \<Rightarrow> unit db_res" where
  "delete_community E token community_id db =
     (case any_auth E token db of
        Inl e \<Rightarrow> (Inl e, db)
      | Inr _ \<Rightarrow> unless_not_found ''Community not found'' (repo_delete community_model (pg_now E 0) community_id db))"

definition list_community_homes :: "ext \<Rightarrow> string option \<Rightarrow> string \<Rightarrow> db \<Rightarrow> home list res" where
  "list_community_homes E token community_id db =
     (case any_auth E token db of
        Inl e \<Rightarrow> Inl e
      | Inr _ \<Rightarrow>
          (let hs = get_homes E community_id db
           in if hs = [] \<and> get_by_id community_model community_id db = None
              then Inl (HTTPException 404 ''Community not found'') else Inr hs))"

section \<open>The endpoints as maps\<close>

text \<open>What the three write endpoints of a repository without an audit log promise, for any model class.\<close>

context repository
begin

lemma create_result:
  assumes "db_wf db" "m_key M r = k" "table M db k = None"
  shows "case repo_create M r db of
       (Inl e, db') \<Rightarrow> db' = db
     | (Inr r', db') \<Rightarrow> r' = r \<and> table M db k = None \<and> table M db' = (table M db)(k \<mapsto> r)"
proof (cases "repo_create M r db")
  case (Pair x db')
  then show ?thesis
    using create_refines [OF assms(1), of r _ db'] failures(1) [of r db _ db'] assms(2,3) by (cases x) auto
qed

lemma update_result:
  assumes "db_wf db" "\<And>r. m_key M (fst (ch r)) = m_key M r"
  shows "case or_not_found detail (repo_update M now k ch db) of
       (Inl e, db') \<Rightarrow> db' = db
     | (Inr r', db') \<Rightarrow> (\<exists>r. table M db k = Some r \<and>
          r' = (if fst (ch r) = r then r else m_touch M now (fst (ch r)))) \<and> table M db' = (table M db)(k \<mapsto> r')"
proof (cases "repo_update M now k ch db")
  case (Pair x db')
  consider (bad) e where "x = Inl e" | (none) "x = Inr None" | (ok) r' where "x = Inr (Some r')"
    by (metis option.exhaust sum.exhaust)
  then show ?thesis
  proof cases
    case ok
    obtain r where "table M db k = Some r" "table M db' = (table M db)(k \<mapsto> r')"
      "r' = (if fst (ch r) = r then r else m_touch M now (fst (ch r)))"
      using update_refines [OF assms(1) Pair [unfolded ok] assms(2)] by metis
    then have "(\<exists>r. table M db k = Some r \<and> r' = (if fst (ch r) = r then r else m_touch M now (fst (ch r)))) \<and>
        table M db' = (table M db)(k \<mapsto> r')" by blast
    then show ?thesis unfolding Pair ok or_not_found_def prod.case sum.case option.case .
  qed (use Pair failures(2) [of now k ch db _ db'] update_missing [of now k ch db db'] in \<open>auto simp: or_not_found_def\<close>)
qed

lemma delete_result:
  assumes "db_wf db"
  shows "case unless_not_found detail (repo_delete M now k db) of
       (Inl e, db') \<Rightarrow> db' = db
     | (Inr _, db') \<Rightarrow> table M db k \<noteq> None \<and> table M db' = (table M db)(k := None)"
proof (cases "repo_delete M now k db")
  case (Pair x db')
  show ?thesis
  proof (cases x)
    case (Inl e)
    then show ?thesis using Pair failures(3) [of now k db e db'] by (simp add: unless_not_found_def)
  next
    case (Inr b)
    have "b \<or> db' = db" using Pair Inr by (auto simp: repo_delete_def split: option.splits sum.splits)
    then show ?thesis
      using delete_refines [OF assms Pair [unfolded Inr]] Pair Inr by (auto simp: unless_not_found_def)
  qed
qed

end

lemma guarded_result:
  assumes "case r of (Inl e, db') \<Rightarrow> db' = db | (Inr x, db') \<Rightarrow> Q x db'"
  shows "case (case any_auth E token db of Inl e \<Rightarrow> (Inl e, db) | Inr _ \<Rightarrow> r) of
           (Inl e, db') \<Rightarrow> db' = db | (Inr x, db') \<Rightarrow> Q x db'"
  using assms by (simp split: sum.split)

text \<open>
  C28: the home and community endpoints are the operations of maps from ids to rows: a creation adds
  exactly the described row under a free id, an update replaces exactly the row of its id by the
  row with the given fields changed, a deletion removes exactly that row; a request that fails
  changes nothing at all.
\<close>

theorem home_community_endpoints_refine_maps:
  assumes "db_wf db"
  shows "(case create_home E token hc db of
       (Inl e, db') \<Rightarrow> db' = db
     | (Inr h, db') \<Rightarrow> h = new_home (pg_now E 0) hc \<and> table home_model db (hc_home_id hc) = None \<and>
         table home_model db' = (table home_model db)(hc_home_id hc \<mapsto> new_home (pg_now E 0) hc)) \<and>
    (case update_home E token i hu db of
       (Inl e, db') \<Rightarrow> db' = db
     | (Inr h, db') \<Rightarrow> (\<exists>old. table home_model db i = Some old \<and> h = fst (change_home hu old)) \<and>
         table home_model db' = (table home_model db)(i \<mapsto> h)) \<and>
    (case delete_home E token i db of
       (Inl e, db') \<Rightarrow> db' = db
     | (Inr _, db') \<Rightarrow> table home_model db i \<noteq> None \<and> table home_model db' = (table home_model db)(i := None)) \<and>
    (case create_community E token cc db of
       (Inl e, db') \<Rightarrow> db' = db
     | (Inr c, db') \<Rightarrow> c = new_community (pg_now E 0) cc \<and> table community_model db (cc_community_id cc) = None \<and>
         table community_model db' = (table community_model db)(cc_community_id cc \<mapsto> new_community (pg_now E 0) cc)) \<and>
    (case update_community E token i cu db of
       (Inl e, db') \<Rightarrow> db' = db
     | (Inr c, db') \<Rightarrow> (\<exists>old. table community_model db i = Some old \<and> c = fst (change_community cu old)) \<and>
         table community_model db' = (table community_model db)(i \<mapsto> c)) \<and>
    (case delete_community E token i db of
       (Inl e, db') \<Rightarrow> db' = db
     | (Inr _, db') \<Rightarrow> table community_model db i \<noteq> None \<and> table community_model db' = (table community_model db)(i := None))"
proof (intro conjI)
  have same: "(if x = y then y else x) = x" for x y :: 'x by simp
  have kh: "m_key home_model (fst (change_home hu r)) = m_key home_model r" for r by (simp add: change_home_def)
  have kc: "m_key community_model (fst (change_community cu r)) = m_key community_model r" for r by (simp add: change_community_def)
  show "case update_home E token i hu db of
       (Inl e, db') \<Rightarrow> db' = db
     | (Inr h, db') \<Rightarrow> (\<exists>old. table home_model db i = Some old \<and> h = fst (change_home hu old)) \<and>
         table home_model db' = (table home_model db)(i \<mapsto> h)"
    unfolding update_home_def
    by (rule guarded_result, rule home_repo.update_result [OF assms kh, unfolded model_simps same])
  show "case update_community E token i cu db of
       (Inl e, db') \<Rightarrow> db' = db
     | (Inr c, db') \<Rightarrow> (\<exists>old. table community_model db i = Some old \<and> c = fst (change_community cu old)) \<and>
         table community_model db' = (table community_model db)(i \<mapsto> c)"
    unfolding update_community_def
    by (rule guarded_result, rule community_repo.update_result [OF assms kc, unfolded model_simps same])
  show "case delete_home E token i db of
       (Inl e, db') \<Rightarrow> db' = db
     | (Inr _, db') \<Rightarrow> table home_model db i \<noteq> None \<and> table home_model db' = (table home_model db)(i := None)"
    unfolding delete_home_def by (rule guarded_result, rule home_repo.delete_result [OF assms])
  show "case delete_community E token i db of
       (Inl e, db') \<Rightarrow> db' = db
     | (Inr _, db') \<Rightarrow> table community_model db i \<noteq> None \<and> table community_model db' = (table community_model db)(i := None)"
    unfolding delete_community_def by (rule guarded_result, rule community_repo.delete_result [OF assms])
  show "case create_home E token hc db of
       (Inl e, db') \<Rightarrow> db' = db
     | (Inr h, db') \<Rightarrow> h = new_home (pg_now E 0) hc \<and> table home_model db (hc_home_id hc) = None \<and>
         table home_model db' = (table home_model db)(hc_home_id hc \<mapsto> new_home (pg_now E 0) hc)"
    using home_repo.create_result [OF assms, of "new_home (pg_now E 0) hc" "hc_home_id hc"]
    unfolding create_home_def by (intro guarded_result) (simp add: new_home_def split: option.split)
  show "case create_community E token cc db of
       (Inl e, db') \<Rightarrow> db' = db
     | (Inr c, db') \<Rightarrow> c = new_community (pg_now E 0) cc \<and> table community_model db (cc_community_id cc) = None \<and>
         table community_model db' = (table community_model db)(cc_community_id cc \<mapsto> new_community (pg_now E 0) cc)"
    using community_repo.create_result [OF assms, of "new_community (pg_now E 0) cc" "cc_community_id cc"]
    unfolding create_community_def by (intro guarded_result) (simp add: new_community_def split: option.split)
qed

theorem home_community_endpoints_refine_maps_witness:
  "table home_model (snd (delete_home demo_ext (sample_token ''admin'') ''h1'' sample_db)) ''h1'' = None"
proof -
  let ?t = "sample_token ''admin''"
  have "fst (delete_home demo_ext ?t ''h1'' sample_db) = Inr ()"
    by (simp add: delete_home_def repo_delete_def get_by_id_def lookup_key_def delete_home_row_def unless_not_found_def)
  then show ?thesis
    using home_community_endpoints_refine_maps [OF db_wf_sample, where E = demo_ext and token = ?t and i = "''h1''",
        THEN conjunct2, THEN conjunct2, THEN conjunct1]
    by (auto split: prod.splits sum.splits dest: fun_cong [of _ _ "''h1''"] simp del: sample_db_simps)
qed

section \<open>Assignments\<close>

lemma any_auth_frame: "users db' = users db \<Longrightarrow> any_auth E token db' = any_auth E token db"
proof -
  assume eq: "users db' = users db"
  have sel: "select_user E s db' = select_user E s db" for s unfolding select_user_def eq ..
  show ?thesis unfolding any_auth_def require_role_def sel ..
qed

text \<open>
  C29: an assignment can be seen from both sides and undone. After a successful assignment the home
  lists its former communities and the new one, the community lists the home, assigning again is
  refused as a conflict, and removing the assignment gives back the database as it was.
\<close>

theorem assignment_roundtrip:
  assumes "db_wf db" "scan_ok E" "assign_community E token hid cid db = (Inr msg, db1)"
  shows "(\<exists>cs. list_home_communities E token hid db1 = Inr cs \<and>
            set (map c_community_id cs) = insert cid {c. (hid, c) \<in> set (home_community db)}) \<and>
         (\<exists>hs. list_community_homes E token cid db1 = Inr hs \<and> hid \<in> set (map h_home_id hs)) \<and>
         assign_community E token hid cid db1 = (Inl IntegrityError, db1) \<and>
         remove_community E token hid cid db1 = (Inr (), db)"
proof -
  obtain u where auth: "any_auth E token db = Inr u"
    using assms(3) by (auto simp: assign_community_def split: sum.splits)
  have ins: "insert_home_community hid cid db = Inr db1"
    and found: "get_by_id home_model hid db \<noteq> None" "get_by_id community_model cid db \<noteq> None"
    using assms(3) auth
    by (auto simp: assign_community_def repo_assign_community_def split: sum.splits if_splits)
  have db1: "db1 = db\<lparr>home_community := home_community db @ [(hid, cid)]\<rparr>" "(hid, cid) \<notin> set (home_community db)"
    "fits 64 hid" "fits 32 cid"
    using ins by (auto simp: insert_home_community_def split: if_splits)
  have auth1: "any_auth E token db1 = Inr u" using auth any_auth_frame [of db1 db] by (simp add: db1(1))
  obtain h c where h: "lookup_key h_home_id hid (homes db) = Some h" and c: "lookup_key c_community_id cid (communities db) = Some c"
    using found by (auto simp: get_by_id_def)
  have hmem: "h \<in> set (homes db)" "h_home_id h = hid" using lookup_key_SomeD [OF h] by auto
  have "insert cid {c. (hid, c) \<in> set (home_community db)} = c_community_id ` {c \<in> set (communities db). (hid, c_community_id c) \<in> set (home_community db1)}"
    using db_wfD(5) [OF assms(1)] lookup_key_SomeD [OF c]
    by (force simp: home_community_wf_def fk_def db1(1))
  then have "\<exists>cs. list_home_communities E token hid db1 = Inr cs \<and>
            set (map c_community_id cs) = insert cid {c. (hid, c) \<in> set (home_community db)}"
    using auth1 h assms(2)
    by (simp add: list_home_communities_def get_with_communities_def communities_of_def db1(1))
  moreover have "h \<in> set (homes_of E cid db1)" using hmem assms(2) by (simp add: homes_of_def db1(1))
  then have "\<exists>hs. list_community_homes E token cid db1 = Inr hs \<and> hid \<in> set (map h_home_id hs)"
    using auth1 c hmem(2)
    by (auto simp: list_community_homes_def get_homes_def get_with_homes_def get_by_id_def db1(1))
  moreover have "assign_community E token hid cid db1 = (Inl IntegrityError, db1)"
    using auth1 found db1(3,4)
    by (simp add: assign_community_def repo_assign_community_def insert_home_community_def get_by_id_def db1(1))
  moreover have "delete_where (\<lambda>p. fst p = hid \<and> snd p = cid) (home_community db1) = home_community db"
    using db1(2) by (auto simp: db1(1) delete_where_def filter_id_conv)
  then have "remove_community E token hid cid db1 = (Inr (), db)"
    using auth1 by (simp add: remove_community_def repo_remove_community_def unless_not_found_def Let_def db1(1))
  ultimately show ?thesis by blast
qed

theorem assignment_roundtrip_witness:
  "\<exists>db msg db1. db = sample_db\<lparr>home_community := []\<rparr> \<and> db_wf db \<and>
     assign_community demo_ext (sample_token ''admin'') ''h1'' ''c1'' db = (Inr msg, db1) \<and>
     remove_community demo_ext (sample_token ''admin'') ''h1'' ''c1'' db1 = (Inr (), db)"
proof -
  let ?t = "sample_token ''admin''" and ?db = "sample_db\<lparr>home_community := []\<rparr>"
  have wf: "db_wf ?db"
    by (rule db_wf_set_home_community [OF db_wf_sample]) (simp add: home_community_wf_def fk_def)
  have auth: "any_auth demo_ext ?t ?db = Inr (sample_user ''admin'' ''admin'')"
    using any_auth_frame [of ?db sample_db demo_ext ?t] by simp
  have "\<exists>msg. fst (assign_community demo_ext ?t ''h1'' ''c1'' ?db) = Inr msg"
    using auth by (simp add: assign_community_def repo_assign_community_def get_by_id_def lookup_key_def
        insert_home_community_def fits_def)
  then obtain msg db1 where "assign_community demo_ext ?t ''h1'' ''c1'' ?db = (Inr msg, db1)"
    by (metis prod.collapse)
  then show ?thesis using assignment_roundtrip [OF wf demo_ext_ok(1)] wf by blast
qed

section \<open>Deleting a home\<close>

text \<open>
  C30: deleting a home leaves nothing that refers to it. When the request succeeds, no device and no
  assignment names the home any more; each of its devices is still there without a home, and every
  other device and assignment is as before. It succeeds for exactly the existing homes that no
  broadcast was acknowledged for.
\<close>

theorem delete_home_leaves_no_reference:
  assumes "any_auth E token db = Inr u"
  shows "(fst (delete_home E token hid db) = Inr () \<longleftrightarrow> hid \<in> home_keys db \<and> hid \<notin> a_home_id ` set (broadcast_acks db)) \<and>
    (fst (delete_home E token hid db) = Inr () \<longrightarrow>
      (let db' = snd (delete_home E token hid db) in
        hid \<notin> home_keys db' \<and> hid \<notin> fst ` set (home_community db') \<and> Some hid \<notin> d_home_id ` set (devices db') \<and>
        map d_device_id (devices db') = map d_device_id (devices db) \<and>
        (\<forall>d \<in> set (devices db). if d_home_id d = Some hid
           then d\<lparr>d_home_id := None, d_updated_at := pg_now E 0\<rparr> \<in> set (devices db') else d \<in> set (devices db')) \<and>
        (\<forall>p \<in> set (home_community db). fst p \<noteq> hid \<longrightarrow> p \<in> set (home_community db'))))"
proof -
  let ?r = "delete_home E token hid db"
  have "get_by_id home_model hid db = None \<longleftrightarrow> hid \<notin> home_keys db"
    by (simp add: get_by_id_def lookup_key_None_iff)
  then have r: "?r = (if hid \<notin> home_keys db then (Inl (HTTPException 404 ''Home not found''), db)
      else if hid \<in> a_home_id ` set (broadcast_acks db) then (Inl IntegrityError, db)
      else (Inr (), db\<lparr>homes := delete_where (\<lambda>h. h_home_id h = hid) (homes db),
                   home_community := delete_where (\<lambda>p. fst p = hid) (home_community db),
                   devices := unassign_home (pg_now E 0) hid (devices db)\<rparr>))"
    using assms by (auto simp: delete_home_def repo_delete_def unless_not_found_def delete_home_row_def split: option.splits)
  have dev: "Some hid \<notin> d_home_id ` set (unassign_home t hid ds)" "map d_device_id (unassign_home t hid ds) = map d_device_id ds"
    "\<forall>d \<in> set ds. if d_home_id d = Some hid
           then d\<lparr>d_home_id := None, d_updated_at := t\<rparr> \<in> set (unassign_home t hid ds) else d \<in> set (unassign_home t hid ds)" for ds t
    by (auto simp: unassign_home_def set_update_where)
  show ?thesis unfolding r Let_def by (auto simp: dev(1,2)) (use dev(3) in \<open>auto split: if_splits\<close>)
qed

theorem delete_home_leaves_no_reference_witness:
  "''h1'' \<notin> home_keys (snd (delete_home demo_ext (sample_token ''admin'') ''h1'' sample_db))"
  using delete_home_leaves_no_reference [OF sample_token_admin(2), of "''h1''"]
  by (simp add: Let_def del: sample_db_simps) (simp add: sample_db_def)

end
