(* ===== verification/Device_Groups.thy ===== *)
theory Device_Groups
  imports Homes
begin

text \<open>
  \<^verbatim>\<open>api/device_groups.py\<close>: named lists of devices. The lemmas show that a group has exactly the
  members of the last accepted list, that a list with an unknown device changes nothing, that a
  renaming is committed although its request ends in an error, and that a group survives the
  deletion of its devices.
\<close>

section \<open>Rows\<close>

text \<open>One INSERT of several rows; a device id too long for its column is reported before a missing device.\<close>

definition insert_members :: "int \<Rightarrow> string list \<Rightarrow> db \<Rightarrow> db res" where
  "insert_members gid ids db =
     (if \<not> list_all (fits 64) ids then Inl DBAPIError
      else if (\<exists>d \<in> set ids. (gid, d) \<in> set (device_group_members db) \<or> d \<notin> device_keys db) \<or>
              (ids \<noteq> [] \<and> gid \<notin> group_keys db) \<or> \<not> distinct ids
      then Inl IntegrityError
      else Inr (db\<lparr>device_group_members := device_group_members db @ map (\<lambda>d. (gid, d)) ids\<rparr>))"

definition delete_members :: "int \<Rightarrow> db \<Rightarrow> db" where
  "delete_members gid db =
     db\<lparr>device_group_members := delete_where (\<lambda>m. fst m = gid) (device_group_members db)\<rparr>"

definition members_of :: "ext \<Rightarrow> int \<Rightarrow> db \<Rightarrow> string list" where
  "members_of E gid db =
     map d_device_id (scan E (filter (\<lambda>d. (gid, d_device_id d) \<in> set (device_group_members db)) (devices db)))"

record group_response =
  gr_id :: int
  gr_name :: string
  gr_description :: "string option"
  gr_device_ids :: "string list"
  gr_member_count :: nat
  gr_created_at :: datetime
  gr_updated_at :: datetime

definition to_response :: "ext \<Rightarrow> device_group \<Rightarrow> db \<Rightarrow> group_response" where
  "to_response E g db =
     \<lparr> gr_id = g_id g, gr_name = g_name g, gr_description = g_description g,
       gr_device_ids = members_of E (g_id g) db, gr_member_count = length (members_of E (g_id g) db),
       gr_created_at = g_created_at g, gr_updated_at = g_updated_at g \<rparr>"

section \<open>The endpoints\<close>

definition list_groups :: "ext \<Rightarrow> string option \<Rightarrow> db \<Rightarrow> group_response list res" where
  "list_groups E token db =
     (case any_auth E token db of
        Inl e \<Rightarrow> Inl e
      | Inr _ \<Rightarrow> Inr (map (\<lambda>g. to_response E g db) (sort_key (\<lambda>g. collate E (g_name g)) (scan E (device_groups db)))))"

definition get_group :: "ext \<Rightarrow> string option \<Rightarrow> int \<Rightarrow> db \<Rightarrow> group_response res" where
  "get_group E token group_id db =
     (case any_auth E token db of
        Inl e \<Rightarrow> Inl e
      | Inr _ \<Rightarrow> if \<not> int4 group_id then Inl DBAPIError
                else (case lookup_key g_id group_id (device_groups db) of
                        None \<Rightarrow> Inl (HTTPException 404 ''Group not found'')
                      | Some g \<Rightarrow> Inr (to_response E g db)))"

record group_create =
  gc_name :: string
  gc_description :: "string option"
  gc_device_ids :: "string list"

text \<open>\<^verbatim>\<open>set(payload.device_ids)\<close> is the list without repetitions; the order of the rows is the database's.\<close>

definition create_group :: "ext \<Rightarrow> string option \<Rightarrow> group_create \<Rightarrow> db \<Rightarrow> group_response db_res" where
  "create_group E token payload db =
     (case route_user E (Some [''admin'', ''operator'']) token db of
        Inl e \<Rightarrow> (Inl e, db)
      | Inr user \<Rightarrow>
          if \<not> (1 \<le> length (gc_name payload) \<and> length (gc_name payload) \<le> 128) then (Inl RequestInvalid, db)
          else if gc_name payload \<in> g_name ` set (device_groups db)
          then (Inl (HTTPException 409 ''Group name already exists''), db)
          else
            (case insert_group
                    \<lparr> g_id = 0, g_name = gc_name payload, g_description = gc_description payload,
                      g_created_by = map_option u_id user, g_created_at = pg_now E 0, g_updated_at = pg_now E 0 \<rparr> db of
               (Inl e, db1) \<Rightarrow> (Inl e, rollback db db1)
             | (Inr g, db1) \<Rightarrow>
                 (case insert_members (g_id g) (remdups (gc_device_ids payload)) db1 of
                    Inl e \<Rightarrow> (Inl e, rollback db db1)
                  | Inr db2 \<Rightarrow>
                      returning (to_response E g db2)
                        (audit_service_log E 1 (map_option u_id user) ''create'' ''device_group''
                           (Some (JObj [(''id'', JInt (g_id g)), (''name'', JStr (g_name g)),
                                        (''member_count'', JInt (int (length (gc_device_ids payload))))])) db2))))"

record group_update =
  gu_name :: "string option option"
  gu_description :: "string option option"
  gu_device_ids :: "string list option option"

text \<open>\<^verbatim>\<open>if payload.x is not None\<close>: a null is treated like a field left out.\<close>

definition given :: "'a option option \<Rightarrow> 'a option" where
  "given field = (case field of None \<Rightarrow> None | Some v \<Rightarrow> v)"

definition changed_group :: "group_update \<Rightarrow> device_group \<Rightarrow> device_group" where
  "changed_group p g =
     g\<lparr>g_name := (case given (gu_name p) of None \<Rightarrow> g_name g | Some n \<Rightarrow> n),
       g_description := (case given (gu_description p) of None \<Rightarrow> g_description g | Some d \<Rightarrow> Some d)\<rparr>"

definition group_changes :: "group_update \<Rightarrow> json" where
  "group_changes p =
     JObj (json_field ''name'' (gu_name p) @ json_field ''description'' (gu_description p) @
           (case gu_device_ids p of None \<Rightarrow> []
            | Some ids \<Rightarrow> [(''device_ids'', case ids of None \<Rightarrow> JNull | Some xs \<Rightarrow> json_strings xs)]))"

text \<open>
  The statements of an update, in order: the changed row (if it changed), then the new membership.
\<close>

definition write_group :: "datetime \<Rightarrow> group_update \<Rightarrow> device_group \<Rightarrow> db \<Rightarrow> db res" where
  "write_group now p g db =
     (case (if changed_group p g = g then Inr db else flush_group ((changed_group p g)\<lparr>g_updated_at := now\<rparr>) db) of
        Inl e \<Rightarrow> Inl e
      | Inr db1 \<Rightarrow>
          (case given (gu_device_ids p) of
             None \<Rightarrow> Inr db1
           | Some ids \<Rightarrow> insert_members (g_id g) (remdups ids) (delete_members (g_id g) db1)))"

text \<open>
  \<^verbatim>\<open>updated_at\<close> is computed by the database when the row is written, which leaves the attribute of the
  object expired; \<^verbatim>\<open>refresh(group, ["members"])\<close> reloads the members only, so building the response
  of a request that changed the row tries to load the attribute and fails.
\<close>

definition update_group :: "ext \<Rightarrow> string option \<Rightarrow> int \<Rightarrow> group_update \<Rightarrow> db \<Rightarrow> group_response db_res" where
  "update_group E token group_id payload db =
     (case route_user E (Some [''admin'', ''operator'']) token db of
        Inl e \<Rightarrow> (Inl e, db)
      | Inr user \<Rightarrow>
          if \<not> int4 group_id then (Inl DBAPIError, db)
          else (case lookup_key g_id group_id (device_groups db) of
             None \<Rightarrow> (Inl (HTTPException 404 ''Group not found''), db)
           | Some g \<Rightarrow>
               (case write_group (pg_now E 0) payload g db of
                  Inl e \<Rightarrow> (Inl e, db)
                | Inr db1 \<Rightarrow>
                    (case audit_service_log E 1 (map_option u_id user) ''update'' ''device_group''
                            (Some (JObj [(''id'', JInt group_id), (''changes'', group_changes payload)])) db1 of
                       (Inl e, db2) \<Rightarrow> (Inl e, db2)
                     | (Inr _, db2) \<Rightarrow>
                         (if changed_group payload g = g then Inr (to_response E g db1)
                          else Inl MissingGreenlet, db2)))))"

definition delete_group :: "ext \<Rightarrow> string option \<Rightarrow> int \<Rightarrow> db \<Rightarrow> unit db_res" where
  "delete_group E token group_id db =
     (case route_user E (Some [''admin'', ''operator'']) token db of
        Inl e \<Rightarrow> (Inl e, db)
      | Inr user \<Rightarrow>
          if \<not> int4 group_id then (Inl DBAPIError, db)
          else (case lookup_key g_id group_id (device_groups db) of
             None \<Rightarrow> (Inl (HTTPException 404 ''Group not found''), db)
           | Some g \<Rightarrow>
               returning ()
                 (audit_service_log E 1 (map_option u_id user) ''delete'' ''device_group''
                    (Some (JObj [(''id'', JInt group_id), (''name'', JStr (g_name g))]))
                    (delete_group_row group_id db))))"

section \<open>Every statement keeps the schema invariant\<close>

lemma db_wf_insert_members [wf_intros]:
  assumes "db_wf db" "insert_members gid ids db = Inr db'"
  shows "db_wf db'"
proof -
  have db': "db' = db\<lparr>device_group_members := device_group_members db @ map (\<lambda>d. (gid, d)) ids\<rparr>"
    and new: "\<forall>d \<in> set ids. (gid, d) \<notin> set (device_group_members db) \<and> d \<in> device_keys db"
    and gid: "ids \<noteq> [] \<Longrightarrow> gid \<in> group_keys db" and dist: "distinct ids"
    using assms(2) by (auto simp: insert_members_def split: if_splits)
  have "distinct (device_group_members db @ map (\<lambda>d. (gid, d)) ids)"
    using db_wfD(12) [OF assms(1)] new dist by (auto simp: members_wf_def distinct_map inj_on_def)
  then have "members_wf (device_group_members db @ map (\<lambda>d. (gid, d)) ids) (group_keys db) (device_keys db)"
    using db_wfD(12) [OF assms(1)] new gid by (fastforce simp: members_wf_def fk_def)
  then show ?thesis unfolding db' by (rule db_wf_set_members [OF assms(1)])
qed

lemma db_wf_delete_members: "db_wf db \<Longrightarrow> db_wf (delete_members gid db)"
  unfolding delete_members_def using db_wfD(12) [of db]
  by (intro db_wf_set_members) (auto simp: members_wf_def distinct_delete_where fk_delete_where)

lemma db_wf_write_group [wf_intros]:
  assumes "db_wf db" "write_group now p g db = Inr db'"
  shows "db_wf db'"
proof -
  have "\<exists>db1. db_wf db1 \<and> (case given (gu_device_ids p) of None \<Rightarrow> Inr db1
      | Some ids \<Rightarrow> insert_members (g_id g) (remdups ids) (delete_members (g_id g) db1)) = Inr db'"
    using assms(2) assms(1) db_wf_flush_group [OF assms(1)]
    unfolding write_group_def by (cases "changed_group p g = g") (auto split: sum.splits)
  then show ?thesis
    using db_wf_insert_members [OF db_wf_delete_members] by (auto split: option.splits)
qed

section \<open>Membership\<close>

lemma members_of_set:
  assumes "db_wf db" "scan_ok E"
  shows "set (members_of E gid db) = {d. (gid, d) \<in> set (device_group_members db)}"
    and "distinct (members_of E gid db)"
proof -
  have "{d. (gid, d) \<in> set (device_group_members db)} \<subseteq> device_keys db"
    using db_wfD(12) [OF assms(1)] by (force simp: members_wf_def fk_def)
  then show "set (members_of E gid db) = {d. (gid, d) \<in> set (device_group_members db)}"
    using assms(2) by (auto simp: members_of_def)
  show "distinct (members_of E gid db)"
    using device_rows [OF assms(1)] assms(2) by (simp add: members_of_def distinct_scan_map distinct_map_filter)
qed

lemma members_of_frame:
  "devices db' = devices db \<Longrightarrow> device_group_members db' = device_group_members db \<Longrightarrow> members_of E gid db' = members_of E gid db"
  by (simp add: members_of_def)

lemma to_response_frame:
  "devices db' = devices db \<Longrightarrow> device_group_members db' = device_group_members db \<Longrightarrow> to_response E g db' = to_response E g db"
  by (simp add: to_response_def members_of_def)

lemma actor_fits:
  assumes "db_wf db" "route_user E roles token db = Inr user"
  shows "fits_opt 64 (map_option u_id user)"
proof -
  obtain u where "user = Some u" "u \<in> set (users db)" using assms(2) by (rule route_user_Inr)
  then show ?thesis
    using db_wfD(1) [OF assms(1)] by (auto simp: users_wf_def list_all_iff user_ok_def fits_opt_def)
qed

lemma group_audit_returns:
  assumes "db_wf db0" "route_user E roles token db0 = Inr user" "a \<in> {''create'', ''update'', ''delete''}"
  shows "audit_service_log E k (map_option u_id user) a ''device_group'' d db =
    (Inr (new_audit_entry E k (map_option u_id user) a ''device_group'' d db),
     snd (audit_service_log E k (map_option u_id user) a ''device_group'' d db))"
proof -
  have "fits 32 a" "fits 32 ''device_group''" using assms(3) by (auto simp: fits_def)
  from audit_service_log_returns(1) [OF actor_fits [OF assms(1,2)] this] show ?thesis by (simp add: prod_eq_iff)
qed

lemma group_audit_obtain:
  assumes "db_wf db0" "route_user E roles token db0 = Inr user" "a \<in> {''create'', ''update'', ''delete''}"
  obtains l db2 where "audit_service_log E k (map_option u_id user) a ''device_group'' d db = (Inr l, db2)"
    "devices db2 = devices db" "device_group_members db2 = device_group_members db" "device_groups db2 = device_groups db"
  by (rule that [OF group_audit_returns [OF assms, of k d db]]) simp_all

lemma insert_group_InrD:
  assumes "insert_group g0 db = (Inr g, db1)"
  shows "g = g0\<lparr>g_id := seq_groups (sequences db)\<rparr>" "device_groups db1 = device_groups db @ [g]"
    "users db1 = users db" "device_group_members db1 = device_group_members db" "devices db1 = devices db"
  using assms unfolding insert_group_def Let_def by (auto split: if_splits)

lemma returning_Inr: "fst r = Inr y \<Longrightarrow> returning x r = (Inr x, snd r)"
  by (simp add: returning_def)

lemma create_group_InrD:
  assumes "db_wf db" "create_group E token p db = (Inr r, db')"
  obtains g db1 db2 where "insert_group
                    \<lparr> g_id = 0, g_name = gc_name p, g_description = gc_description p,
                      g_created_by = g_created_by g, g_created_at = pg_now E 0, g_updated_at = pg_now E 0 \<rparr> db = (Inr g, db1)"
    "insert_members (g_id g) (remdups (gc_device_ids p)) db1 = Inr db2" "r = to_response E g db2"
    "devices db' = devices db2" "device_group_members db' = device_group_members db2" "device_groups db' = device_groups db2"
    "users db' = users db2"
proof -
  obtain user where ru: "route_user E (Some [''admin'', ''operator'']) token db = Inr user"
    using assms(2) by (auto simp: create_group_def split: sum.splits)
  let ?g = "\<lparr> g_id = 0, g_name = gc_name p, g_description = gc_description p,
                      g_created_by = map_option u_id user, g_created_at = pg_now E 0, g_updated_at = pg_now E 0 \<rparr>"
  obtain g db1 where ins: "insert_group ?g db = (Inr g, db1)"
    using assms(2) ru by (auto simp: create_group_def split: sum.splits prod.splits if_splits)
  then obtain db2 where mem: "insert_members (g_id g) (remdups (gc_device_ids p)) db1 = Inr db2"
    using assms(2) ru by (auto simp: create_group_def split: sum.splits if_splits)
  have "r = to_response E g db2" "devices db' = devices db2" "device_group_members db' = device_group_members db2"
    "device_groups db' = device_groups db2" "users db' = users db2"
    using assms(2) ru ins mem
    by (auto simp: create_group_def returning_Inr [OF arg_cong [where f = fst, OF group_audit_returns [OF assms(1) ru, of "''create''"], unfolded fst_conv]]
        split: if_splits)
  moreover have "g_created_by g = map_option u_id user"
    using insert_group_InrD(1) [OF ins] by simp
  ultimately show ?thesis using that [of g db1 db2] ins mem by simp
qed

text \<open>
  A created group has exactly the requested devices. The response names the new group under an
  id no other group has, lists each requested device once and counts them, and asking for that
  group afterwards gives the same answer.
\<close>

theorem create_group_roundtrip:
  assumes "db_wf db" "scan_ok E" "int4 (seq_groups (sequences db))" "create_group E token p db = (Inr r, db')"
  shows "gr_name r = gc_name p \<and> gr_id r \<notin> group_keys db \<and>
         set (gr_device_ids r) = set (gc_device_ids p) \<and> distinct (gr_device_ids r) \<and>
         gr_member_count r = card (set (gc_device_ids p)) \<and>
         get_group E token (gr_id r) db' = Inr r"
proof -
  obtain g db1 db2 where ins: "insert_group
                    \<lparr> g_id = 0, g_name = gc_name p, g_description = gc_description p,
                      g_created_by = g_created_by g, g_created_at = pg_now E 0, g_updated_at = pg_now E 0 \<rparr> db = (Inr g, db1)"
    and mem: "insert_members (g_id g) (remdups (gc_device_ids p)) db1 = Inr db2" and r: "r = to_response E g db2"
    and frame: "devices db' = devices db2" "device_group_members db' = device_group_members db2"
      "device_groups db' = device_groups db2" "users db' = users db2"
    using create_group_InrD [OF assms(1,4)] by blast
  have g: "g_id g = seq_groups (sequences db)" "g_name g = gc_name p" "device_groups db1 = device_groups db @ [g]"
    "users db1 = users db" "device_group_members db1 = device_group_members db"
    using insert_group_InrD(2-4) [OF ins] arg_cong [where f = g_id, OF insert_group_InrD(1) [OF ins]]
      arg_cong [where f = g_name, OF insert_group_InrD(1) [OF ins]] by simp_all
  have db2: "device_group_members db2 = device_group_members db1 @ map (\<lambda>d. (g_id g, d)) (remdups (gc_device_ids p))"
    "device_groups db2 = device_groups db1" "users db2 = users db1"
    using mem by (auto simp: insert_members_def split: if_splits)
  have wf2: "db_wf db2" using db_wf_insert_members [OF db_wf_insert_group [OF assms(1) ins] mem] .
  have fresh: "g_id g \<notin> group_keys db"
    using db_wfD(11) [OF assms(1)] g(1) by (auto simp: groups_wf_def serial_wf_def)
  moreover have "fst ` set (device_group_members db) \<subseteq> group_keys db"
    using db_wfD(12) [OF assms(1)] by (simp add: members_wf_def fk_def)
  ultimately have "{d. (g_id g, d) \<in> set (device_group_members db)} = {}"
    by (metis (mono_tags, lifting) empty_Collect_eq fst_conv image_subset_iff)
  then have set: "set (members_of E (g_id g) db2) = set (gc_device_ids p)" "distinct (members_of E (g_id g) db2)"
    using members_of_set [OF wf2 assms(2)] g(5) db2(1) by auto
  have "any_auth E token db' = any_auth E token db" using any_auth_frame frame(4) db2(3) g(4) by metis
  moreover obtain u where "any_auth E token db = Inr u"
    using assms(4) by (auto simp: create_group_def route_user_def split: sum.splits)
  moreover have "lookup_key g_id (g_id g) (device_groups db') = Some g"
    using fresh frame(3) db2(2) g(3)
    by (simp add: lookup_key_append_one lookup_key_None_iff [THEN iffD2])
  ultimately have "get_group E token (g_id g) db' = Inr r"
    using assms(3) g(1) r to_response_frame [OF frame(1,2)] by (simp add: get_group_def)
  then show ?thesis
    using r set fresh g(2) by (simp add: to_response_def distinct_card [symmetric])
qed

theorem create_group_roundtrip_witness:
  "\<exists>r db'. create_group demo_ext (sample_token ''admin'')
       \<lparr> gc_name = ''pilot'', gc_description = None, gc_device_ids = [''dev2'', ''dev1'', ''dev2''] \<rparr> sample_db = (Inr r, db') \<and>
     set (gr_device_ids r) = {''dev1'', ''dev2''} \<and> get_group demo_ext (sample_token ''admin'') (gr_id r) db' = Inr r"
proof -
  let ?p = "\<lparr> gc_name = ''pilot'', gc_description = None, gc_device_ids = [''dev2'', ''dev1'', ''dev2''] \<rparr>"
  let ?t = "sample_token ''admin''"
  have "\<exists>r. fst (create_group demo_ext ?t ?p sample_db) = Inr r"
    by (simp add: create_group_def insert_group_def insert_members_def Let_def group_ok_def fits_def
        fst_returning_Inr_iff audit_service_log_returns fits_opt_def)
  then obtain r db' where run: "create_group demo_ext ?t ?p sample_db = (Inr r, db')" by (metis prod.collapse)
  have "int4 (seq_groups (sequences sample_db))" by (simp add: int4_def)
  from create_group_roundtrip [OF db_wf_sample demo_ext_ok(1) this run] run show ?thesis by fastforce
qed

lemma write_group_members:
  assumes "write_group now p g db = Inr db'" "given (gu_device_ids p) = Some ids"
  shows "set (device_group_members db') =
      {m \<in> set (device_group_members db). fst m \<noteq> g_id g} \<union> {(g_id g, d) | d. d \<in> set ids}"
    and "devices db' = devices db" "set ids \<subseteq> device_keys db"
proof -
  obtain db1 where db1: "insert_members (g_id g) (remdups ids) (delete_members (g_id g) db1) = Inr db'"
    "devices db1 = devices db" "device_group_members db1 = device_group_members db"
    using assms unfolding write_group_def
    by (cases "changed_group p g = g") (auto simp: flush_group_def split: sum.splits if_splits)
  show "set (device_group_members db') =
      {m \<in> set (device_group_members db). fst m \<noteq> g_id g} \<union> {(g_id g, d) | d. d \<in> set ids}"
    "devices db' = devices db" "set ids \<subseteq> device_keys db"
    using db1 unfolding insert_members_def delete_members_def by (auto split: if_splits)
qed

text \<open>Whether a result stands for a committed update: an answer, or the error after the commit.\<close>

definition committed_update :: "group_response res \<Rightarrow> bool" where
  "committed_update r \<longleftrightarrow> (case r of Inr _ \<Rightarrow> True | Inl e \<Rightarrow> e = MissingGreenlet)"

lemma update_group_cases:
  assumes "db_wf db"
  obtains (refused) e where "update_group E token gid p db = (Inl e, db)" "e \<noteq> MissingGreenlet"
  | (written) g db1 db2 where "lookup_key g_id gid (device_groups db) = Some g" "write_group (pg_now E 0) p g db = Inr db1"
      "update_group E token gid p db =
         (if changed_group p g = g then Inr (to_response E g db1) else Inl MissingGreenlet, db2)"
      "devices db2 = devices db1" "device_group_members db2 = device_group_members db1" "device_groups db2 = device_groups db1"
proof (cases "route_user E (Some [''admin'', ''operator'']) token db")
  case (Inl e)
  have "e \<noteq> MissingGreenlet"
    using Inl by (auto simp: route_user_def any_auth_def require_role_def get_current_user_def select_user_def
        split: sum.splits option.splits if_splits)
  then show ?thesis using Inl refused by (simp add: update_group_def)
next
  case (Inr user)
  show ?thesis
  proof (cases "int4 gid \<and> (\<exists>g. lookup_key g_id gid (device_groups db) = Some g)")
    case False
    then consider "\<not> int4 gid" | "int4 gid" "lookup_key g_id gid (device_groups db) = None" by fastforce
    then show ?thesis
    proof cases
      case 1
      then show ?thesis using Inr refused [of DBAPIError] by (simp add: update_group_def)
    next
      case 2
      then show ?thesis using Inr refused [of "HTTPException 404 ''Group not found''"] by (simp add: update_group_def)
    qed
  next
    case True
    then obtain g where g: "lookup_key g_id gid (device_groups db) = Some g" by blast
    show ?thesis
    proof (cases "write_group (pg_now E 0) p g db")
      case (Inl e)
      have "e \<noteq> MissingGreenlet"
        using Inl by (auto simp: write_group_def flush_group_def insert_members_def split: sum.splits if_splits option.splits)
      then show ?thesis using True g Inr Inl refused by (simp add: update_group_def)
    next
      case w: (Inr db1)
      obtain l db2 where a: "audit_service_log E 1 (map_option u_id user) ''update'' ''device_group''
                  (Some (JObj [(''id'', JInt gid), (''changes'', group_changes p)])) db1 = (Inr l, db2)"
        and frame: "devices db2 = devices db1" "device_group_members db2 = device_group_members db1"
          "device_groups db2 = device_groups db1"
        by (rule group_audit_obtain [OF assms Inr, of "''update''" 1
              "Some (JObj [(''id'', JInt gid), (''changes'', group_changes p)])" db1]) simp_all
      have "update_group E token gid p db =
         (if changed_group p g = g then Inr (to_response E g db1) else Inl MissingGreenlet, db2)"
        using True g Inr w a by (simp add: update_group_def)
      then show ?thesis by (rule written [OF g w]) (rule frame)+
    qed
  qed
qed

text \<open>
  A membership list replaces the membership, or nothing happens. When an update with a list of
  devices is written, the group has exactly the devices of the list and every other group keeps
  its own; otherwise the database is as before, and that is so whenever the list names a device
  that does not exist.
\<close>

theorem update_group_replaces_members:
  assumes "db_wf db" "given (gu_device_ids p) = Some ids"
  shows "(if committed_update (fst (update_group E token gid p db))
          then {d. (gid, d) \<in> set (device_group_members (snd (update_group E token gid p db)))} = set ids \<and>
               {m \<in> set (device_group_members (snd (update_group E token gid p db))). fst m \<noteq> gid} =
               {m \<in> set (device_group_members db). fst m \<noteq> gid}
          else snd (update_group E token gid p db) = db) \<and>
         (\<not> set ids \<subseteq> device_keys db \<longrightarrow> snd (update_group E token gid p db) = db)"
proof (cases rule: update_group_cases [OF assms(1), where E = E and token = token and gid = gid and p = p])
  case (1 e)
  then show ?thesis by (simp add: committed_update_def)
next
  case written: (2 g db1 db2)
  have "g_id g = gid" using lookup_key_SomeD [OF written(1)] by simp
  then show ?thesis
    using written write_group_members [OF written(2) assms(2)] by (auto simp: committed_update_def)
qed

theorem update_group_replaces_members_witness:
  "\<exists>p. given (gu_device_ids p) = Some [''dev2'', ''dev9''] \<and>
     snd (update_group demo_ext (sample_token ''admin'') 1 p sample_db) = sample_db"
proof -
  let ?p = "\<lparr> gu_name = None, gu_description = None, gu_device_ids = Some (Some [''dev2'', ''dev9'']) \<rparr>"
  have "given (gu_device_ids ?p) = Some [''dev2'', ''dev9'']" by (simp add: given_def)
  from update_group_replaces_members [OF db_wf_sample this, of demo_ext "sample_token ''admin''" 1] this
  show ?thesis by (intro exI [of _ ?p]) simp
qed

text \<open>
  C31: a change of name or description is committed, and its request still ends with an internal
  error: the response needs the update time, which the object no longer holds.
\<close>

theorem update_group_rename_fails_late:
  assumes "db_wf db" "route_user E (Some [''admin'', ''operator'']) token db = Inr user" "int4 gid"
    and "lookup_key g_id gid (device_groups db) = Some g" "changed_group p g \<noteq> g"
    and "write_group (pg_now E 0) p g db = Inr db1"
  shows "fst (update_group E token gid p db) = Inl MissingGreenlet \<and>
         response_status 200 (fst (update_group E token gid p db)) = 500 \<and>
         lookup_key g_id gid (device_groups (snd (update_group E token gid p db))) =
           Some ((changed_group p g)\<lparr>g_updated_at := pg_now E 0\<rparr>)"
proof -
  have id: "g_id g = gid" using lookup_key_SomeD [OF assms(4)] by simp
  obtain l db2 where "audit_service_log E 1 (map_option u_id user) ''update'' ''device_group''
                  (Some (JObj [(''id'', JInt gid), (''changes'', group_changes p)])) db1 = (Inr l, db2)"
    "device_groups db2 = device_groups db1"
    by (rule group_audit_obtain [OF assms(1,2), of "''update''" 1
          "Some (JObj [(''id'', JInt gid), (''changes'', group_changes p)])" db1]) simp_all
  then have "fst (update_group E token gid p db) = Inl MissingGreenlet"
    "device_groups (snd (update_group E token gid p db)) = device_groups db1"
    using assms(2-6) by (simp_all add: update_group_def)
  moreover have "device_groups db1 = replace_row g_id ((changed_group p g)\<lparr>g_updated_at := pg_now E 0\<rparr>) (device_groups db)"
    using assms(5,6) unfolding write_group_def
    by (auto simp: flush_group_def insert_members_def delete_members_def split: sum.splits if_splits option.splits)
  ultimately show ?thesis
    using assms(4) id by (simp add: lookup_key_replace_row response_status_def changed_group_def)
qed

theorem update_group_rename_fails_late_witness:
  "\<exists>p. fst (update_group demo_ext (sample_token ''admin'') 1 p sample_db) = Inl MissingGreenlet"
proof -
  let ?p = "\<lparr> gu_name = Some (Some ''labs''), gu_description = None, gu_device_ids = None \<rparr>"
  obtain g where g: "lookup_key g_id 1 (device_groups sample_db) = Some g" "g_name g = ''lab''" "g_created_by g = Some ''admin''"
    by (simp add: lookup_key_def)
  have ch: "g_name (changed_group ?p g) = ''labs''" "g_created_by (changed_group ?p g) = Some ''admin''"
    using g by (simp_all add: changed_group_def given_def)
  then have ne: "changed_group ?p g \<noteq> g" using g(2) by auto
  have "\<exists>db1. write_group (pg_now demo_ext 0) ?p g sample_db = Inr db1"
    using ne ch by (simp add: write_group_def flush_group_def group_ok_def fits_def fits_opt_def given_def)
  then obtain db1 where w: "write_group (pg_now demo_ext 0) ?p g sample_db = Inr db1" by blast
  have "int4 1" by (simp add: int4_def)
  from update_group_rename_fails_late [OF db_wf_sample sample_token_admin(3) this g(1) ne w]
  show ?thesis by (intro exI [of _ ?p]) simp
qed

text \<open>
  A group survives its devices: deleting a device takes away exactly its memberships and leaves
  every group as it is.
\<close>

theorem group_survives_device_deletion:
  assumes "delete_device E token did db = (Inr (), db')"
  shows "device_groups db' = device_groups db \<and>
         set (device_group_members db') = {m \<in> set (device_group_members db). snd m \<noteq> did}"
proof -
  obtain db1 where "delete_device_row (pg_now E 0) did db = Inr db1"
    "device_groups db' = device_groups db1" "device_group_members db' = device_group_members db1"
    using assms by (auto simp: delete_device_def repo_delete_def returning_def split: sum.splits option.splits if_splits)
  then show ?thesis by (auto simp: delete_device_row_def split: if_splits)
qed

theorem group_survives_device_deletion_witness:
  "\<exists>db'. delete_device demo_ext (sample_token ''admin'') ''dev1'' sample_db = (Inr (), db') \<and>
     set (device_group_members db') = {} \<and> device_groups db' = device_groups sample_db"
proof -
  have "fst (delete_device demo_ext (sample_token ''admin'') ''dev1'' sample_db) = Inr ()"
    by (simp add: delete_device_def repo_delete_def get_by_id_def lookup_key_def delete_device_row_def
        fst_returning_Inr_iff audit_service_log_returns fits_def fits_opt_def)
  then obtain db' where "delete_device demo_ext (sample_token ''admin'') ''dev1'' sample_db = (Inr (), db')"
    by (metis prod.collapse)
  from group_survives_device_deletion [OF this] this show ?thesis
    by (intro exI [of _ db'] conjI) (auto simp del: set_empty)
qed

end
