(* ===== verification/Broadcasts.thy ===== *)
theory Broadcasts
  imports Homes
begin

text \<open>
  \<^verbatim>\<open>services/broadcast.py\<close>, \<^verbatim>\<open>services/fcm.py\<close> and \<^verbatim>\<open>api/broadcast.py\<close>: messages to the mobile apps of
  a community. The lemmas show which broadcasts a request records and pushes, what the delivery
  figures count, and when an acknowledgement can be recorded.
\<close>

section \<open>The push client\<close>

definition FCM_URL :: "string \<Rightarrow> string" where
  "FCM_URL project = ''https://fcm.googleapis.com/v1/projects/'' @ project @ ''/messages:send''"

definition fcm_payload :: "string \<Rightarrow> string \<Rightarrow> string \<Rightarrow> string \<Rightarrow> json" where
  "fcm_payload topic title body priority =
     JObj [(''message'', JObj
       [(''topic'', JStr topic),
        (''notification'', JObj [(''title'', JStr title), (''body'', JStr body)]),
        (''android'', JObj [(''priority'', JStr (if priority = ''urgent'' then ''high'' else ''normal''))]),
        (''apns'', JObj [(''headers'', JObj [(''apns-priority'', JStr (if priority = ''urgent'' then ''10'' else ''5''))])]),
        (''data'', JObj [(''community_id'', JStr topic), (''type'', JStr ''broadcast''), (''priority'', JStr priority)])])]"

text \<open>The access token is a placeholder so far: the header it makes names none.\<close>

definition get_access_token :: string where "get_access_token = []"

record push_request =
  pr_url :: string
  pr_headers :: "(string \<times> string) list"
  pr_json :: json

definition push_request_for :: "ext \<Rightarrow> string \<Rightarrow> string \<Rightarrow> string \<Rightarrow> string \<Rightarrow> push_request" where
  "push_request_for E topic title body priority =
     \<lparr> pr_url = FCM_URL (FCM_PROJECT_ID (cfg E)),
       pr_headers = [(''Authorization'', ''Bearer '' @ get_access_token), (''Content-Type'', ''application/json'')],
       pr_json = fcm_payload topic title body priority \<rparr>"

text \<open>The result, and the request sent, if any; without a project the client is disabled and reports success.\<close>

definition push_to_topic :: "ext \<Rightarrow> string \<Rightarrow> string \<Rightarrow> string \<Rightarrow> string \<Rightarrow> bool \<times> push_request list" where
  "push_to_topic E topic title body priority =
     (if FCM_PROJECT_ID (cfg E) = [] then (True, [])
      else (let req = push_request_for E topic title body priority
            in (http_post E (pr_url req) = Some 200, [req])))"

section \<open>The service\<close>

record broadcast_create =
  bc_community_ids :: "string list"
  bc_message :: string
  bc_type :: string
  bc_priority :: string
  bc_scheduled_at :: "datetime option"
  bc_sent_by :: "string option"

definition new_broadcast :: "ext \<Rightarrow> nat \<Rightarrow> broadcast_create \<Rightarrow> string \<Rightarrow> broadcast" where
  "new_broadcast E k p community_id =
     \<lparr> b_id = 0, b_community_id = community_id, b_message = bc_message p, b_type = bc_type p,
       b_priority = bc_priority p, b_scheduled_at = bc_scheduled_at p,
       b_sent_at = (if bc_scheduled_at p = None then Some (clock E k) else None),
       b_sent_by = bc_sent_by p, b_created_at = pg_now E 0 \<rparr>"

text \<open>The loop over the communities; \<open>k\<close> counts the broadcasts made so far.\<close>

fun make_broadcasts :: "ext \<Rightarrow> nat \<Rightarrow> broadcast_create \<Rightarrow> string list \<Rightarrow> db \<Rightarrow> broadcast list db_res" where
  "make_broadcasts E k p [] db = (Inr [], db)"
| "make_broadcasts E k p (community_id # ids) db =
     (if get_by_id community_model community_id db = None then make_broadcasts E k p ids db
      else (case insert_broadcast (new_broadcast E k p community_id) db of
              (Inl e, db1) \<Rightarrow> (Inl e, db1)
            | (Inr b, db1) \<Rightarrow>
                (case make_broadcasts E (k + 1) p ids db1 of
                   (Inl e, db2) \<Rightarrow> (Inl e, db2)
                 | (Inr bs, db2) \<Rightarrow> (Inr (b # bs), db2))))"

definition push_broadcast :: "ext \<Rightarrow> broadcast \<Rightarrow> db \<Rightarrow> push_request list" where
  "push_broadcast E b db =
     (let title = (case get_by_id community_model (b_community_id b) db of
                     None \<Rightarrow> b_community_id b | Some c \<Rightarrow> c_name c)
      in snd (push_to_topic E (b_community_id b) title (b_message b) (b_priority b)))"

definition broadcast_send :: "ext \<Rightarrow> broadcast_create \<Rightarrow> db \<Rightarrow> broadcast list res \<times> db \<times> push_request list" where
  "broadcast_send E p db =
     (case make_broadcasts E 0 p (bc_community_ids p) db of
        (Inl e, db1) \<Rightarrow> (Inl e, rollback db db1, [])
      | (Inr bs, db1) \<Rightarrow>
          (Inr bs, db1, if bc_scheduled_at p = None then concat (map (\<lambda>b. push_broadcast E b db1) bs) else []))"

definition get_broadcast_by_id :: "ext \<Rightarrow> int \<Rightarrow> db \<Rightarrow> (broadcast \<times> broadcast_ack list) option res" where
  "get_broadcast_by_id E broadcast_id db =
     (if \<not> int4 broadcast_id then Inl DBAPIError
      else Inr (map_option (\<lambda>b. (b, scan E (filter (\<lambda>a. a_broadcast_id a = broadcast_id) (broadcast_acks db))))
                  (lookup_key b_id broadcast_id (broadcasts db))))"

definition get_all_broadcasts :: "ext \<Rightarrow> string option \<Rightarrow> int \<Rightarrow> int \<Rightarrow> db \<Rightarrow> broadcast list res" where
  "get_all_broadcasts E community_id skip limit db =
     page_rows skip limit
       (sort_key (\<lambda>b. - b_created_at b)
          (scan E (filter (\<lambda>b. case community_id of None \<Rightarrow> True | Some c \<Rightarrow> c = [] \<or> b_community_id b = c) (broadcasts db))))"

definition record_ack ::
  "int \<Rightarrow> string \<Rightarrow> string \<Rightarrow> datetime option \<Rightarrow> db \<Rightarrow> broadcast_ack option db_res" where
  "record_ack broadcast_id home_id status received_at db =
     (if \<not> int4 broadcast_id then (Inl DBAPIError, db)
      else if lookup_key b_id broadcast_id (broadcasts db) = None then (Inr None, db)
      else (case insert_ack \<lparr> a_id = 0, a_broadcast_id = broadcast_id, a_home_id = home_id, a_status = status,
                              a_received_at = received_at \<rparr> db of
              (Inl e, db1) \<Rightarrow> (Inl e, rollback db db1)
            | (Inr a, db1) \<Rightarrow> (Inr (Some a), db1)))"

record delivery_stats =
  ds_total_targets :: nat
  ds_delivered_count :: nat
  ds_acks :: "broadcast_ack list"

definition get_delivery_stats :: "ext \<Rightarrow> int \<Rightarrow> db \<Rightarrow> delivery_stats option res" where
  "get_delivery_stats E broadcast_id db =
     (case get_broadcast_by_id E broadcast_id db of
        Inl e \<Rightarrow> Inl e
      | Inr None \<Rightarrow> Inr None
      | Inr (Some (b, acks)) \<Rightarrow>
          Inr (Some \<lparr> ds_total_targets = (case get_with_homes E (b_community_id b) db of
                                          None \<Rightarrow> 0 | Some (_, hs) \<Rightarrow> length hs),
                      ds_delivered_count = length acks, ds_acks = acks \<rparr>))"

section \<open>The endpoints\<close>

definition send_broadcast ::
  "ext \<Rightarrow> string option \<Rightarrow> broadcast_create \<Rightarrow> db \<Rightarrow> broadcast list res \<times> db \<times> push_request list" where
  "send_broadcast E token payload db =
     (case any_auth E token db of
        Inl e \<Rightarrow> (Inl e, db, [])
      | Inr _ \<Rightarrow>
          (case broadcast_send E payload db of
             (Inl e, db1, posts) \<Rightarrow> (Inl e, db1, posts)
           | (Inr bs, db1, posts) \<Rightarrow>
               (if bs = [] then Inl (HTTPException 400 ''No valid communities found'') else Inr bs, db1, posts)))"

definition list_broadcasts :: "ext \<Rightarrow> string option \<Rightarrow> string option \<Rightarrow> int \<Rightarrow> int \<Rightarrow> db \<Rightarrow> broadcast list res" where
  "list_broadcasts E token community_id skip limit db =
     (case any_auth E token db of
        Inl e \<Rightarrow> Inl e
      | Inr _ \<Rightarrow> if \<not> (0 \<le> skip \<and> 1 \<le> limit \<and> limit \<le> 200) then Inl RequestInvalid
                else get_all_broadcasts E community_id skip limit db)"

definition get_broadcast :: "ext \<Rightarrow> string option \<Rightarrow> int \<Rightarrow> db \<Rightarrow> (broadcast \<times> delivery_stats) res" where
  "get_broadcast E token broadcast_id db =
     (case any_auth E token db of
        Inl e \<Rightarrow> Inl e
      | Inr _ \<Rightarrow>
          (case get_broadcast_by_id E broadcast_id db of
             Inl e \<Rightarrow> Inl e
           | Inr None \<Rightarrow> Inl (HTTPException 404 ''Broadcast not found'')
           | Inr (Some (b, _)) \<Rightarrow>
               (case get_delivery_stats E broadcast_id db of
                  Inl e \<Rightarrow> Inl e
                | Inr None \<Rightarrow> Inr (b, \<lparr> ds_total_targets = 0, ds_delivered_count = 0, ds_acks = [] \<rparr>)
                | Inr (Some stats) \<Rightarrow> Inr (b, stats))))"

record ack_create =
  ac_msg_id :: int
  ac_status :: string
  ac_received_at :: "datetime option"

definition acknowledge_broadcast :: "ext \<Rightarrow> string option \<Rightarrow> int \<Rightarrow> ack_create \<Rightarrow> db \<Rightarrow> unit db_res" where
  "acknowledge_broadcast E token broadcast_id payload db =
     (case any_auth E token db of
        Inl e \<Rightarrow> (Inl e, db)
      | Inr _ \<Rightarrow>
          (case record_ack broadcast_id (str_int (ac_msg_id payload)) (ac_status payload) (ac_received_at payload) db of
             (Inl e, db1) \<Rightarrow> (Inl e, db1)
           | (Inr None, db1) \<Rightarrow> (Inl (HTTPException 404 ''Broadcast not found''), db1)
           | (Inr (Some _), db1) \<Rightarrow> (Inr (), db1)))"

section \<open>What a request records and pushes\<close>

definition sendable :: "broadcast_create \<Rightarrow> bool" where
  "sendable p \<longleftrightarrow> fits 16 (bc_type p) \<and> fits 16 (bc_priority p) \<and> fits_opt 64 (bc_sent_by p)"

fun planned_broadcasts :: "ext \<Rightarrow> nat \<Rightarrow> int \<Rightarrow> broadcast_create \<Rightarrow> string list \<Rightarrow> broadcast list" where
  "planned_broadcasts E k n p [] = []"
| "planned_broadcasts E k n p (c # cs) = (new_broadcast E k p c)\<lparr>b_id := n\<rparr> # planned_broadcasts E (k + 1) (n + 1) p cs"

definition with_broadcasts :: "broadcast list \<Rightarrow> db \<Rightarrow> db" where
  "with_broadcasts bs db =
     db\<lparr>broadcasts := broadcasts db @ bs,
        sequences := (sequences db)\<lparr>seq_broadcasts := seq_broadcasts (sequences db) + int (length bs)\<rparr>\<rparr>"

lemma make_broadcasts_run:
  assumes "db_wf db" "sendable p"
  shows "make_broadcasts E k p ids db =
    (let bs = planned_broadcasts E k (seq_broadcasts (sequences db)) p (filter (\<lambda>c. c \<in> community_keys db) ids)
     in (Inr bs, with_broadcasts bs db))"
  using assms(1)
proof (induction ids arbitrary: k db)
  case Nil
  then show ?case by (simp add: with_broadcasts_def Let_def)
next
  case (Cons c ids)
  show ?case
  proof (cases "c \<in> community_keys db")
    case False
    then show ?thesis using Cons by (simp add: get_by_id_def lookup_key_None_iff)
  next
    case True
    let ?n = "seq_broadcasts (sequences db)" and ?b = "(new_broadcast E k p c)\<lparr>b_id := seq_broadcasts (sequences db)\<rparr>"
    let ?db1 = "with_broadcasts [?b] db"
    have "fits 32 c" using True db_wfD(3) [OF Cons.prems] by (auto simp: communities_wf_def list_all_iff community_ok_def)
    then have ins: "insert_broadcast (new_broadcast E k p c) db = (Inr ?b, ?db1)"
      using True assms(2)
      by (simp add: insert_broadcast_def Let_def broadcast_ok_def new_broadcast_def sendable_def with_broadcasts_def)
    have wf1: "db_wf ?db1" using Cons.prems ins by (rule db_wf_insert_broadcast)
    have keys: "community_keys ?db1 = community_keys db" and seq: "seq_broadcasts (sequences ?db1) = ?n + 1"
      by (simp_all add: with_broadcasts_def)
    have app: "with_broadcasts bs ?db1 = with_broadcasts (?b # bs) db" for bs
      by (simp add: with_broadcasts_def)
    show ?thesis
      using True ins Cons.IH [OF wf1, of "k + 1"]
      by (simp add: get_by_id_def lookup_key_None_iff keys seq Let_def app)
  qed
qed

lemma planned_broadcasts_props:
  "map b_community_id (planned_broadcasts E k n p cs) = cs"
  "map b_id (planned_broadcasts E k n p cs) = map (\<lambda>i. n + int i) [0..<length cs]"
  "\<forall>b \<in> set (planned_broadcasts E k n p cs). b_message b = bc_message p \<and> b_type b = bc_type p \<and>
     b_priority b = bc_priority p \<and> b_sent_by b = bc_sent_by p \<and> b_scheduled_at b = bc_scheduled_at p \<and>
     (b_sent_at b = None \<longleftrightarrow> bc_scheduled_at p \<noteq> None)"
proof -
  show "map b_community_id (planned_broadcasts E k n p cs) = cs"
    by (induction cs arbitrary: k n) (simp_all add: new_broadcast_def)
  show "map b_id (planned_broadcasts E k n p cs) = map (\<lambda>i. n + int i) [0..<length cs]"
  proof (induction cs arbitrary: k n)
    case (Cons c cs)
    have "map (\<lambda>i. n + int i) [0..<length (c # cs)] = n # map (\<lambda>i. (n + 1) + int i) [0..<length cs]"
      by (simp add: upt_conv_Cons map_Suc_upt [symmetric] del: upt_Suc)
    then show ?case using Cons by simp
  qed simp
  show "\<forall>b \<in> set (planned_broadcasts E k n p cs). b_message b = bc_message p \<and> b_type b = bc_type p \<and>
     b_priority b = bc_priority p \<and> b_sent_by b = bc_sent_by p \<and> b_scheduled_at b = bc_scheduled_at p \<and>
     (b_sent_at b = None \<longleftrightarrow> bc_scheduled_at p \<noteq> None)"
    by (induction cs arbitrary: k n) (auto simp: new_broadcast_def)
qed

lemma push_broadcast_posts:
  "push_broadcast E b db =
     (if FCM_PROJECT_ID (cfg E) = [] then []
      else [push_request_for E (b_community_id b)
              (case get_by_id community_model (b_community_id b) db of None \<Rightarrow> b_community_id b | Some c \<Rightarrow> c_name c)
              (b_message b) (b_priority b)])"
  by (simp add: push_broadcast_def push_to_topic_def Let_def)

text \<open>
  C32: a broadcast request records one broadcast for each community of the request that exists, in the
  order of the request and with its text, and skips the others; when none exists the answer is a
  400 and nothing is recorded. Without a date the broadcasts count as sent and, if the push service
  is configured, one message goes to the topic of each community under the community's name; with
  a date nothing is pushed.
\<close>

theorem send_broadcast_exact:
  assumes "db_wf db" "any_auth E token db = Inr u" "sendable p"
  shows "\<exists>bs. map b_community_id bs = filter (\<lambda>c. c \<in> community_keys db) (bc_community_ids p) \<and>
    (\<forall>b \<in> set bs. b_message b = bc_message p \<and> b_type b = bc_type p \<and> b_priority b = bc_priority p \<and>
       b_sent_by b = bc_sent_by p \<and> b_scheduled_at b = bc_scheduled_at p \<and>
       (b_sent_at b = None \<longleftrightarrow> bc_scheduled_at p \<noteq> None)) \<and>
    send_broadcast E token p db =
      (if bs = [] then Inl (HTTPException 400 ''No valid communities found'') else Inr bs,
       with_broadcasts bs db,
       if bc_scheduled_at p = None \<and> FCM_PROJECT_ID (cfg E) \<noteq> []
       then map (\<lambda>b. push_request_for E (b_community_id b) (c_name (the (table community_model db (b_community_id b))))
                        (bc_message p) (bc_priority p)) bs
       else [])"
proof -
  let ?cs = "filter (\<lambda>c. c \<in> community_keys db) (bc_community_ids p)"
  let ?bs = "planned_broadcasts E 0 (seq_broadcasts (sequences db)) p ?cs"
  note props = planned_broadcasts_props [of E 0 "seq_broadcasts (sequences db)" p ?cs]
  have tab: "table community_model (with_broadcasts bs db) = table community_model db" for bs
    by (simp add: get_by_id_def with_broadcasts_def)
  have known: "b_community_id b \<in> community_keys db" if "b \<in> set ?bs" for b
  proof -
    have "b_community_id ` set ?bs = set ?cs" using arg_cong [OF props(1), of set] by simp
    then have "b_community_id b \<in> set ?cs" using that by blast
    then show ?thesis by simp
  qed
  have push: "push_broadcast E b (with_broadcasts ?bs db) =
      (if FCM_PROJECT_ID (cfg E) = [] then []
       else [push_request_for E (b_community_id b) (c_name (the (table community_model db (b_community_id b))))
               (bc_message p) (bc_priority p)])" if mem: "b \<in> set ?bs" for b
  proof -
    obtain c where "table community_model db (b_community_id b) = Some c"
      using known [OF mem] by (metis get_by_id_def lookup_key_None_iff model_simps(13,14) option.exhaust)
    then show ?thesis
      using props(3) mem fun_cong [OF tab [of ?bs], of "b_community_id b"] by (simp add: push_broadcast_posts)
  qed
  have "concat (map (\<lambda>b. push_broadcast E b (with_broadcasts ?bs db)) ?bs) =
      (if FCM_PROJECT_ID (cfg E) = [] then []
       else map (\<lambda>b. push_request_for E (b_community_id b) (c_name (the (table community_model db (b_community_id b))))
               (bc_message p) (bc_priority p)) ?bs)"
    by (subst map_cong [OF refl push]) (auto simp: concat_map_singleton)
  then show ?thesis
    using props(1,3) assms(2) make_broadcasts_run [OF assms(1,3), of E 0 "bc_community_ids p"]
    by (intro exI [of _ ?bs]) (simp add: send_broadcast_def broadcast_send_def Let_def)
qed

theorem send_broadcast_exact_witness:
  "\<exists>p b. bc_community_ids p = [''zz'', ''c1''] \<and> b_community_id b = ''c1'' \<and>
     send_broadcast demo_ext (sample_token ''admin'') p sample_db = (Inr [b], with_broadcasts [b] sample_db, [])"
proof -
  let ?p = "\<lparr> bc_community_ids = [''zz'', ''c1''], bc_message = ''hello'', bc_type = ''info'', bc_priority = ''normal'',
     bc_scheduled_at = None, bc_sent_by = None \<rparr>"
  have "sendable ?p" by (simp add: sendable_def fits_def fits_opt_def)
  from send_broadcast_exact [OF db_wf_sample sample_token_admin(2) this]
  obtain bs where bs: "map b_community_id bs = filter (\<lambda>c. c \<in> community_keys sample_db) (bc_community_ids ?p)"
    "send_broadcast demo_ext (sample_token ''admin'') ?p sample_db =
      (if bs = [] then Inl (HTTPException 400 ''No valid communities found'') else Inr bs, with_broadcasts bs sample_db, [])"
    by (auto simp: default_settings_def simp del: sample_db_simps)
  have "map b_community_id bs = [''c1'']" using bs(1) by simp
  then obtain b where "bs = [b]" "b_community_id b = ''c1''" by (cases bs) auto
  then show ?thesis using bs(2) by (intro exI [of _ ?p] exI [of _ b]) simp
qed

text \<open>
  C33: an acknowledgement of an existing broadcast is recorded exactly when some home has, as its id,
  the decimal number of the message the app acknowledges; the acknowledgement is filed under that
  home. For the homes of a fleet whose ids are not numbers, every acknowledgement is refused.
\<close>

theorem acknowledge_needs_numeric_home:
  assumes "any_auth E token db = Inr u" "int4 i" "i \<in> broadcast_keys db" "fits 16 (ac_status p)"
    and "fits 64 (str_int (ac_msg_id p))"
  shows "(fst (acknowledge_broadcast E token i p db) = Inr () \<longleftrightarrow> str_int (ac_msg_id p) \<in> home_keys db) \<and>
    (if str_int (ac_msg_id p) \<in> home_keys db
     then map a_home_id (broadcast_acks (snd (acknowledge_broadcast E token i p db))) =
            map a_home_id (broadcast_acks db) @ [str_int (ac_msg_id p)]
     else fst (acknowledge_broadcast E token i p db) = Inl IntegrityError \<and>
          broadcast_acks (snd (acknowledge_broadcast E token i p db)) = broadcast_acks db)"
proof -
  have "lookup_key b_id i (broadcasts db) \<noteq> None" using assms(3) by (simp add: lookup_key_None_iff)
  then show ?thesis
    using assms by (simp add: acknowledge_broadcast_def record_ack_def insert_ack_def Let_def ack_ok_def rollback_def)
qed

theorem acknowledge_needs_numeric_home_witness:
  "\<exists>db p. home_keys db = {''h1''} \<and>
     fst (acknowledge_broadcast demo_ext (sample_token ''admin'') 1 p db) = Inl IntegrityError"
proof -
  let ?b = "\<lparr> b_id = 1, b_community_id = ''c1'', b_message = ''hello'', b_type = ''info'', b_priority = ''normal'',
     b_scheduled_at = None, b_sent_at = None, b_sent_by = None, b_created_at = seconds 5 \<rparr>"
  let ?db = "sample_db\<lparr>broadcasts := [?b]\<rparr>"
  let ?p = "\<lparr> ac_msg_id = 1, ac_status = ''read'', ac_received_at = None \<rparr>"
  have auth: "any_auth demo_ext (sample_token ''admin'') ?db = Inr (sample_user ''admin'' ''admin'')"
    using any_auth_frame [of ?db sample_db demo_ext] by simp
  have one: "str_int 1 = ''1''" by code_simp
  have hyps: "int4 1" "1 \<in> broadcast_keys ?db" "fits 16 (ac_status ?p)" "fits 64 (str_int (ac_msg_id ?p))"
    by (simp_all add: int4_def fits_def one)
  have "str_int (ac_msg_id ?p) \<notin> home_keys ?db" "home_keys ?db = {''h1''}" by (simp_all add: one)
  then show ?thesis
    using acknowledge_needs_numeric_home [OF auth hyps] by (intro exI [of _ ?db] exI [of _ ?p]) (simp del: sample_db_simps)
qed

text \<open>
  The delivery figures of a broadcast are right: the targets are the homes assigned to its
  community, and the acknowledgements shown and counted are exactly the recorded ones of that
  broadcast.
\<close>

theorem broadcast_figures:
  assumes "db_wf db" "scan_ok E" "get_broadcast E token i db = Inr (b, stats)"
  shows "b \<in> set (broadcasts db) \<and> b_id b = i \<and>
         ds_total_targets stats = card {h. (h, b_community_id b) \<in> set (home_community db)} \<and>
         mset (ds_acks stats) = mset (filter (\<lambda>a. a_broadcast_id a = i) (broadcast_acks db)) \<and>
         ds_delivered_count stats = length (ds_acks stats)"
proof -
  have look: "lookup_key b_id i (broadcasts db) = Some b"
    and stats: "ds_total_targets stats = (case get_with_homes E (b_community_id b) db of None \<Rightarrow> 0 | Some (_, hs) \<Rightarrow> length hs)"
      "ds_acks stats = scan E (filter (\<lambda>a. a_broadcast_id a = i) (broadcast_acks db))"
      "ds_delivered_count stats = length (ds_acks stats)"
    using assms(3)
    by (auto simp: get_broadcast_def get_delivery_stats_def get_broadcast_by_id_def split: sum.splits if_splits option.splits)
  have b: "b \<in> set (broadcasts db)" "b_id b = i" using lookup_key_SomeD [OF look] by auto
  have "b_community_id b \<in> community_keys db"
    using db_wfD(6) [OF assms(1)] b(1) by (auto simp: broadcasts_wf_def fk_def)
  then obtain c where "lookup_key c_community_id (b_community_id b) (communities db) = Some c"
    by (metis lookup_key_None_iff option.exhaust)
  then have "ds_total_targets stats = length (homes_of E (b_community_id b) db)"
    by (simp add: stats(1) get_with_homes_def)
  also have "\<dots> = length (filter (\<lambda>h. (h_home_id h, b_community_id b) \<in> set (home_community db)) (homes db))"
    using assms(2) by (simp add: homes_of_def)
  also have "\<dots> = card (set (map h_home_id (filter (\<lambda>h. (h_home_id h, b_community_id b) \<in> set (home_community db)) (homes db))))"
    using db_wfD(2) [OF assms(1)] by (subst distinct_card) (simp_all add: homes_wf_def distinct_map_filter)
  also have "\<dots> = card (h_home_id ` {h \<in> set (homes db). (h_home_id h, b_community_id b) \<in> set (home_community db)})"
    by simp
  also have "h_home_id ` {h \<in> set (homes db). (h_home_id h, b_community_id b) \<in> set (home_community db)} =
      {h. (h, b_community_id b) \<in> set (home_community db)}"
  proof (intro equalityI subsetI)
    fix h assume h: "h \<in> {h. (h, b_community_id b) \<in> set (home_community db)}"
    then have mem: "(h, b_community_id b) \<in> set (home_community db)" by simp
    have "fst ` set (home_community db) \<subseteq> home_keys db"
      using db_wfD(5) [OF assms(1)] by (simp add: home_community_wf_def fk_def)
    from subsetD [OF this imageI [OF mem, of fst]] have "h \<in> home_keys db" by simp
    then show "h \<in> h_home_id ` {h \<in> set (homes db). (h_home_id h, b_community_id b) \<in> set (home_community db)}"
      using mem by auto
  qed auto
  finally show ?thesis using b stats(2,3) by (simp add: mset_scan [OF assms(2)])
qed

theorem broadcast_figures_witness:
  "\<exists>db b stats. db_wf db \<and> get_broadcast demo_ext (sample_token ''admin'') 1 db = Inr (b, stats) \<and>
     ds_total_targets stats = 1 \<and> ds_delivered_count stats = 0"
proof -
  let ?b = "\<lparr> b_id = 0, b_community_id = ''c1'', b_message = ''hello'', b_type = ''info'', b_priority = ''normal'',
     b_scheduled_at = None, b_sent_at = None, b_sent_by = None, b_created_at = seconds 5 \<rparr>"
  let ?db = "snd (insert_broadcast ?b sample_db)"
  have wf: "db_wf ?db" using db_wf_insert_broadcast [OF db_wf_sample, of ?b] by (metis prod.collapse)
  have rows: "broadcasts ?db = [?b\<lparr>b_id := 1\<rparr>]" "users ?db = users sample_db" "homes ?db = homes sample_db"
    "communities ?db = communities sample_db" "home_community ?db = [(''h1'', ''c1'')]" "broadcast_acks ?db = []"
    by (simp_all add: insert_broadcast_def Let_def broadcast_ok_def fits_def fits_opt_def)
  have auth: "any_auth demo_ext (sample_token ''admin'') ?db = Inr (sample_user ''admin'' ''admin'')"
    using any_auth_frame [OF rows(2), of demo_ext] by simp
  have "\<exists>stats. get_broadcast demo_ext (sample_token ''admin'') 1 ?db = Inr (?b\<lparr>b_id := 1\<rparr>, stats)"
    using auth by (simp add: get_broadcast_def get_broadcast_by_id_def get_delivery_stats_def rows lookup_key_def int4_def)
  then obtain stats where run: "get_broadcast demo_ext (sample_token ''admin'') 1 ?db = Inr (?b\<lparr>b_id := 1\<rparr>, stats)" by blast
  have "{h. (h, ''c1'') \<in> set (home_community ?db)} = {''h1''}" by (auto simp: rows)
  then have "ds_total_targets stats = 1" "ds_delivered_count stats = 0"
    using broadcast_figures [OF wf demo_ext_ok(1) run] by (simp_all add: rows)
  then show ?thesis using run wf by blast
qed

end
