(* ===== verification/Provisioning.thy ===== *)
theory Provisioning
  imports Firmware Homes Row_History
begin

text \<open>
  \<^verbatim>\<open>services/provisioning.py\<close> and \<^verbatim>\<open>api/provisioning.py\<close>: building the firmware of a new device. A job
  goes through the states pending, rendering, compiling, ready or failed, each committed so that a
  client can poll it; the model of a run returns every committed database. The lemmas show that
  a run goes through the states in this order and always ends, and that the binary a ready job
  promises is the one the download serves.

  Texts of exceptions and of the compiler are taken to be free of NUL characters.
\<close>

section \<open>The build environment\<close>

text \<open>
  What a job calls that is not the server's own code: the random source (\<^verbatim>\<open>secrets\<close>), the template
  engine, the container runtime (which may change files), the search for build products (in
  ascending order of paths) and \<^verbatim>\<open>shutil.copy2\<close>. A left result is the text of the exception raised.
\<close>

record build_env =
  rand_device :: string
  rand_token :: string
  rand_job :: string
  render_template :: "string \<Rightarrow> (string \<times> string option) list \<Rightarrow> string + string"
  docker_run :: "string list \<Rightarrow> files \<Rightarrow> (string + int \<times> string) \<times> files"
  rglob_sorted :: "string \<Rightarrow> files \<Rightarrow> string list"
  copy_raises :: "string \<Rightarrow> string \<Rightarrow> string option"

definition PROVISION_DIR :: string where "PROVISION_DIR = ''/app/esphome/provision''"

section \<open>Starting a job\<close>

definition start_job :: "ext \<Rightarrow> build_env \<Rightarrow> string \<Rightarrow> db \<Rightarrow> provision_job db_res" where
  "start_job E B device_type db =
     (let device_id = ''esp32-'' @ rand_device B;
          device = (default_device device_id (pg_now E 0))
            \<lparr>d_device_type := device_type, d_provision_token := Some (rand_token B), d_role := ''sensor'',
             d_status := ''provisioning'', d_firmware_version := Some ''1.0.0''\<rparr>;
          job = \<lparr> j_id = rand_job B, j_device_id = device_id, j_device_type = device_type, j_status = ''pending'',
                  j_firmware_path = None, j_error = None, j_created_at = pg_now E 0, j_updated_at = pg_now E 0 \<rparr>
      in case insert_device device db of
           Inl e \<Rightarrow> (Inl e, db)
         | Inr db1 \<Rightarrow> (case insert_job job db1 of Inl e \<Rightarrow> (Inl e, db) | Inr db2 \<Rightarrow> (Inr job, db2)))"

section \<open>Running a job\<close>

text \<open>
  The session of a run: the job object, the database, the databases committed so far, the files and
  the number of the current transaction.
\<close>

record run =
  ru_job :: provision_job
  ru_db :: db
  ru_commits :: "db list"
  ru_files :: files
  ru_txn :: nat

text \<open>Changing the job and committing.\<close>

definition commit_job :: "ext \<Rightarrow> provision_job \<Rightarrow> run \<Rightarrow> exn + run" where
  "commit_job E job s =
     (if job = ru_job s then Inr (s\<lparr>ru_commits := ru_commits s @ [ru_db s], ru_txn := ru_txn s + 1\<rparr>)
      else
        let job' = job\<lparr>j_updated_at := pg_now E (ru_txn s)\<rparr>
        in case flush_job job' (ru_db s) of
             Inl e \<Rightarrow> Inl e
           | Inr db1 \<Rightarrow> Inr (s\<lparr>ru_job := job', ru_db := db1, ru_commits := ru_commits s @ [db1],
                               ru_txn := ru_txn s + 1\<rparr>))"

definition set_status :: "ext \<Rightarrow> string \<Rightarrow> run \<Rightarrow> exn + run" where
  "set_status E status s = commit_job E ((ru_job s)\<lparr>j_status := status\<rparr>) s"

definition fail_job :: "ext \<Rightarrow> string \<Rightarrow> run \<Rightarrow> exn + run" where
  "fail_job E error s = commit_job E ((ru_job s)\<lparr>j_status := ''failed'', j_error := Some error\<rparr>) s"

definition render :: "ext \<Rightarrow> build_env \<Rightarrow> device \<Rightarrow> files \<Rightarrow> (string + string) \<times> files" where
  "render E B device fs =
     (case render_template B (d_device_type device @ ''.yaml.j2'')
             [(''device_id'', Some (d_device_id device)),
              (''firmware_version'', Some (case d_firmware_version device of
                                       None \<Rightarrow> ''1.0.0'' | Some v \<Rightarrow> if v = [] then ''1.0.0'' else v)),
              (''fleet_url'', Some (SERVER_URL (cfg E))), (''provision_token'', d_provision_token device)] of
        Inl err \<Rightarrow> (Inl err, fs)
      | Inr rendered \<Rightarrow>
          (let path = path_str (path_join PROVISION_DIR (d_device_id device @ ''.yaml''))
           in if write_raises E path then (Inl (exn_text E FileError), fs)
              else (Inr path, fs(path \<mapsto> rendered))))"

definition path_name :: "string \<Rightarrow> string" where
  "path_name p = (case path_parts p of [] \<Rightarrow> [] | xs \<Rightarrow> last xs)"

definition compile_command :: "ext \<Rightarrow> string \<Rightarrow> string list" where
  "compile_command E yaml_path =
     [''docker'', ''run'', ''--rm'', ''-v'',
      rstrip_by (\<lambda>c. c = CHR ''/'') (HOST_PROJECT_DIR (cfg E)) @ ''/esphome:/config'',
      ESPHOME_IMAGE (cfg E), ''compile'', ''provision/'' @ path_name yaml_path]"

definition candidates :: "build_env \<Rightarrow> string \<Rightarrow> files \<Rightarrow> string list" where
  "candidates B device_id fs =
     (let factory = rglob_sorted B (''.esphome/build/'' @ device_id @ ''/**/firmware.factory.bin'') fs
      in if factory \<noteq> [] then factory
         else rglob_sorted B (''.esphome/build/'' @ device_id @ ''/**/firmware.bin'') fs)"

definition compile_firmware :: "ext \<Rightarrow> build_env \<Rightarrow> string \<Rightarrow> string \<Rightarrow> files \<Rightarrow> (string + string) \<times> files" where
  "compile_firmware E B yaml_path device_id fs =
     (case docker_run B (compile_command E yaml_path) fs of
        (Inl err, fs1) \<Rightarrow> (Inl err, fs1)
      | (Inr (returncode, stdout), fs1) \<Rightarrow>
          if returncode \<noteq> 0
          then (Inl (''esphome compile failed: '' @ drop (length stdout - 2000) stdout), fs1)
          else
            (case candidates B device_id fs1 of
               [] \<Rightarrow> (Inl (''firmware.bin not found for '' @ device_id), fs1)
             | cs \<Rightarrow>
                 (let src = last cs; dst = binary_path E device_id
                  in if write_raises E dst then (Inl (exn_text E FileError), fs1)
                     else (case copy_raises B src dst of
                             Some err \<Rightarrow> (Inl err, fs1)
                           | None \<Rightarrow>
                               (case fs1 src of
                                  None \<Rightarrow> (Inl (exn_text E FileError), fs1)
                                | Some content \<Rightarrow> (Inr dst, fs1(dst \<mapsto> content)))))))"

text \<open>
  What the \<^verbatim>\<open>try\<close> block raises: the text of an error outside the database, which is then recorded, or
  an error of the database, after which the session cannot record anything.
\<close>

datatype build_failure = Failed string | Broken exn

definition build :: "ext \<Rightarrow> build_env \<Rightarrow> device \<Rightarrow> run \<Rightarrow> build_failure option \<times> run" where
  "build E B device s =
     (case set_status E ''rendering'' s of
        Inl e \<Rightarrow> (Some (Broken e), s)
      | Inr s1 \<Rightarrow>
          (case render E B device (ru_files s1) of
             (Inl err, fs) \<Rightarrow> (Some (Failed err), s1\<lparr>ru_files := fs\<rparr>)
           | (Inr yaml_path, fs) \<Rightarrow>
               (let s2 = s1\<lparr>ru_files := fs\<rparr>
                in case set_status E ''compiling'' s2 of
                     Inl e \<Rightarrow> (Some (Broken e), s2)
                   | Inr s3 \<Rightarrow>
                       (case compile_firmware E B yaml_path (d_device_id device) (ru_files s3) of
                          (Inl err, fs) \<Rightarrow> (Some (Failed err), s3\<lparr>ru_files := fs\<rparr>)
                        | (Inr bin_path, fs) \<Rightarrow>
                            (let s4 = s3\<lparr>ru_files := fs\<rparr>
                             in case commit_job E ((ru_job s4)\<lparr>j_firmware_path := Some bin_path, j_status := ''ready''\<rparr>) s4 of
                                  Inl e \<Rightarrow> (Some (Broken e), s4)
                                | Inr s5 \<Rightarrow> (None, s5))))))"

definition finish :: "ext \<Rightarrow> string \<Rightarrow> run \<Rightarrow> exn option \<times> run" where
  "finish E err s = (case fail_job E err s of Inl e \<Rightarrow> (Some e, s) | Inr s1 \<Rightarrow> (None, s1))"

text \<open>The exception a run ends with, if any, the databases it committed, and the database and files it leaves.\<close>

definition run_job :: "ext \<Rightarrow> build_env \<Rightarrow> string \<Rightarrow> db \<Rightarrow> files \<Rightarrow> exn option \<times> db list \<times> db \<times> files" where
  "run_job E B job_id db fs =
     (case lookup_key j_id job_id (provision_jobs db) of
        None \<Rightarrow> (None, [], db, fs)
      | Some job \<Rightarrow>
          (let s = \<lparr> ru_job = job, ru_db = db, ru_commits = [], ru_files = fs, ru_txn = 0 \<rparr>;
               (r, s') =
                 (case lookup_key d_device_id (j_device_id job) (devices db) of
                    None \<Rightarrow> finish E ''device row missing'' s
                  | Some device \<Rightarrow>
                      (case build E B device s of
                         (None, s1) \<Rightarrow> (None, s1)
                       | (Some (Failed err), s1) \<Rightarrow> finish E err s1
                       | (Some (Broken e), s1) \<Rightarrow> (Some e, s1)))
           in (r, ru_commits s', ru_db s', ru_files s')))"

section \<open>The endpoints\<close>

text \<open>The job of the response; \<^verbatim>\<open>run_job\<close> of its id is started after the response.\<close>

definition provision :: "ext \<Rightarrow> build_env \<Rightarrow> string option \<Rightarrow> string \<Rightarrow> db \<Rightarrow> provision_job db_res" where
  "provision E B token device_type db =
     (case require_role E [''admin'', ''operator''] token db of
        Inl e \<Rightarrow> (Inl e, db)
      | Inr _ \<Rightarrow> start_job E B device_type db)"

definition get_job :: "ext \<Rightarrow> string option \<Rightarrow> string \<Rightarrow> db \<Rightarrow> provision_job res" where
  "get_job E token job_id db =
     (case require_role E [''admin'', ''operator'', ''viewer''] token db of
        Inl e \<Rightarrow> Inl e
      | Inr _ \<Rightarrow> (case lookup_key j_id job_id (provision_jobs db) of
                   None \<Rightarrow> Inl (HTTPException 404 ''job not found'')
                 | Some job \<Rightarrow> Inr job))"

text \<open>The content served and the file name offered.\<close>

definition download_firmware :: "ext \<Rightarrow> string \<Rightarrow> files \<Rightarrow> (string \<times> string) res" where
  "download_firmware E device_id fs =
     (case fs (binary_path E device_id) of
        None \<Rightarrow> Inl (HTTPException 404 ''firmware not built yet'')
      | Some content \<Rightarrow> Inr (content, device_id @ ''.bin''))"

definition manifest :: "ext \<Rightarrow> string \<Rightarrow> json" where
  "manifest E device_id =
     JObj [(''name'', JStr (''SmartHome '' @ device_id)), (''version'', JStr ''1.0.0''),
           (''home_assistant_domain'', JStr ''esphome''), (''new_install_prompt_erase'', JBool True),
           (''builds'', JList [JObj [(''chipFamily'', JStr ''ESP32''),
              (''parts'', JList [JObj [
                 (''path'', JStr (SERVER_URL (cfg E) @ ''/api/provisioning/devices/'' @ device_id @ ''/firmware.bin'')),
                 (''offset'', JInt 0)]])]])]"

section \<open>The session of a run\<close>

lemma replace_row_same:
  assumes "distinct (map key rows)" "r \<in> set rows"
  shows "replace_row key r rows = rows"
  using assms unfolding replace_row_def update_where_def
  by (intro map_idI) (auto simp: distinct_map inj_on_def)

lemma replace_row_twice: "key a = key b \<Longrightarrow> replace_row key a (replace_row key b rows) = replace_row key a rows"
  by (simp add: replace_row_def update_where_def)

text \<open>What a client that polls the job sees in a database.\<close>

definition polled :: "string \<Rightarrow> db \<Rightarrow> string option" where
  "polled job_id db = map_option j_status (lookup_key j_id job_id (provision_jobs db))"

text \<open>Throughout a run only the row of the job differs from the database the run started with.\<close>

definition run_inv :: "string \<Rightarrow> db \<Rightarrow> run \<Rightarrow> bool" where
  "run_inv jid db0 s \<longleftrightarrow> db_wf (ru_db s) \<and> j_id (ru_job s) = jid \<and> jid \<in> j_id ` set (provision_jobs db0) \<and>
     ru_db s = db0\<lparr>provision_jobs := replace_row j_id (ru_job s) (provision_jobs db0)\<rparr>"

lemma run_inv_lookup: "run_inv jid db0 s \<Longrightarrow> lookup_key j_id jid (provision_jobs (ru_db s)) = Some (ru_job s)"
  by (auto simp: run_inv_def lookup_key_replace_row lookup_key_None_iff)

lemma run_inv_job_ok:
  assumes "run_inv jid db0 s"
  shows "job_ok (ru_job s)"
proof -
  have "ru_job s \<in> set (provision_jobs (ru_db s))" using lookup_key_SomeD [OF run_inv_lookup [OF assms]] by simp
  moreover have "db_wf (ru_db s)" using assms unfolding run_inv_def by blast
  note db_wfD(10) [OF this]
  ultimately show ?thesis by (simp only: jobs_wf_def list_all_iff)
qed

lemma run_inv_frame: "ru_db s' = ru_db s \<Longrightarrow> ru_job s' = ru_job s \<Longrightarrow> run_inv jid db0 s' = run_inv jid db0 s"
  by (simp add: run_inv_def)

lemma run_inv_files [simp]: "run_inv jid db0 (s\<lparr>ru_files := fs\<rparr>) = run_inv jid db0 s"
  by (simp add: run_inv_def)

lemma commit_job_run:
  assumes inv: "run_inv jid db0 s" and job: "j_id job = jid" "job_ok job"
  obtains s' where "commit_job E job s = Inr s'" "run_inv jid db0 s'" "ru_files s' = ru_files s"
    "ru_commits s' = ru_commits s @ [ru_db s']" "j_status (ru_job s') = j_status job"
    "j_error (ru_job s') = j_error job" "j_firmware_path (ru_job s') = j_firmware_path job"
    "j_device_id (ru_job s') = j_device_id job"
proof (cases "job = ru_job s")
  case True
  let ?s = "s\<lparr>ru_commits := ru_commits s @ [ru_db s], ru_txn := ru_txn s + 1\<rparr>"
  have "run_inv jid db0 ?s" using inv run_inv_frame [of ?s s] by simp
  then show ?thesis using True by (intro that [of ?s]) (simp_all add: commit_job_def)
next
  case False
  let ?job = "job\<lparr>j_updated_at := pg_now E (ru_txn s)\<rparr>"
  let ?db = "(ru_db s)\<lparr>provision_jobs := replace_row j_id ?job (provision_jobs (ru_db s))\<rparr>"
  have fl: "flush_job ?job (ru_db s) = Inr ?db" using job(2) by (simp add: flush_job_def job_ok_def)
  have wf: "db_wf ?db" using inv fl db_wf_flush_job by (auto simp: run_inv_def)
  have "provision_jobs (ru_db s) = replace_row j_id (ru_job s) (provision_jobs db0)" "j_id (ru_job s) = jid"
    using inv by (simp_all add: run_inv_def)
  then have "?db = db0\<lparr>provision_jobs := replace_row j_id ?job (provision_jobs db0)\<rparr>"
    using inv job(1) by (simp add: run_inv_def replace_row_twice)
  then have "run_inv jid db0 (s\<lparr>ru_job := ?job, ru_db := ?db, ru_commits := ru_commits s @ [?db], ru_txn := ru_txn s + 1\<rparr>)"
    using inv wf job(1) by (simp add: run_inv_def)
  moreover have "commit_job E job s = Inr (s\<lparr>ru_job := ?job, ru_db := ?db, ru_commits := ru_commits s @ [?db], ru_txn := ru_txn s + 1\<rparr>)"
    using False fl by (simp add: commit_job_def Let_def)
  ultimately show ?thesis
    by (intro that [of "s\<lparr>ru_job := ?job, ru_db := ?db, ru_commits := ru_commits s @ [?db], ru_txn := ru_txn s + 1\<rparr>"]) simp_all
qed

lemma set_status_run:
  assumes "run_inv jid db0 s" "fits 16 status"
  obtains s' where "set_status E status s = Inr s'" "run_inv jid db0 s'" "ru_files s' = ru_files s"
    "ru_commits s' = ru_commits s @ [ru_db s']" "polled jid (ru_db s') = Some status"
    "j_device_id (ru_job s') = j_device_id (ru_job s)"
proof -
  have "j_id ((ru_job s)\<lparr>j_status := status\<rparr>) = jid" "job_ok ((ru_job s)\<lparr>j_status := status\<rparr>)"
    using assms run_inv_job_ok [OF assms(1)] by (simp_all add: run_inv_def job_ok_def)
  then obtain s' where s': "commit_job E ((ru_job s)\<lparr>j_status := status\<rparr>) s = Inr s'" "run_inv jid db0 s'"
    "ru_files s' = ru_files s" "ru_commits s' = ru_commits s @ [ru_db s']" "j_status (ru_job s') = status"
    "j_device_id (ru_job s') = j_device_id (ru_job s)"
    using commit_job_run [OF assms(1), of "(ru_job s)\<lparr>j_status := status\<rparr>" E] by auto
  show ?thesis
    by (rule that [of s']) (use s' run_inv_lookup [OF s'(2)] in \<open>simp_all add: set_status_def polled_def\<close>)
qed

lemma fail_job_run:
  assumes "run_inv jid db0 s"
  obtains s' where "finish E err s = (None, s')" "run_inv jid db0 s'" "ru_files s' = ru_files s"
    "ru_commits s' = ru_commits s @ [ru_db s']" "polled jid (ru_db s') = Some ''failed''"
    "j_status (ru_job s') = ''failed''" "j_error (ru_job s') = Some err"
proof -
  let ?job = "(ru_job s)\<lparr>j_status := ''failed'', j_error := Some err\<rparr>"
  have "j_id ?job = jid" "job_ok ?job"
    using assms run_inv_job_ok [OF assms] by (simp_all add: run_inv_def job_ok_def fits_def)
  then obtain s' where s': "commit_job E ?job s = Inr s'" "run_inv jid db0 s'" "ru_files s' = ru_files s"
    "ru_commits s' = ru_commits s @ [ru_db s']" "j_status (ru_job s') = ''failed''" "j_error (ru_job s') = Some err"
    using commit_job_run [OF assms, of ?job E] by auto
  show ?thesis
    by (rule that [of s']) (use s' run_inv_lookup [OF s'(2)] in \<open>simp_all add: finish_def fail_job_def polled_def\<close>)
qed

text \<open>One run of the \<^verbatim>\<open>try\<close> block: how far it gets, and what it leaves.\<close>

lemma build_run:
  assumes "run_inv jid db0 s" "fits 512 (binary_path E (d_device_id device))"
  shows "\<exists>r s'. build E B device s = (r, s') \<and> run_inv jid db0 s' \<and>
    (r = None \<and> (\<exists>d1 d2. ru_commits s' = ru_commits s @ [d1, d2, ru_db s'] \<and>
         map (polled jid) [d1, d2, ru_db s'] = map Some [''rendering'', ''compiling'', ''ready'']) \<and>
       j_firmware_path (ru_job s') = Some (binary_path E (d_device_id device)) \<and>
       j_status (ru_job s') = ''ready'' \<and> ru_files s' (binary_path E (d_device_id device)) \<noteq> None \<or>
     (\<exists>err. r = Some (Failed err)) \<and>
       (\<exists>ds. ru_commits s' = ru_commits s @ ds \<and> map (polled jid) ds \<in> {[Some ''rendering''], [Some ''rendering'', Some ''compiling'']}))"
proof -
  obtain s1 where s1: "set_status E ''rendering'' s = Inr s1" "run_inv jid db0 s1" "ru_files s1 = ru_files s"
    "ru_commits s1 = ru_commits s @ [ru_db s1]" "polled jid (ru_db s1) = Some ''rendering''"
    using set_status_run [OF assms(1), of "''rendering''" E] by (auto simp: fits_def)
  obtain r fs where ren: "render E B device (ru_files s1) = (r, fs)" by (cases "render E B device (ru_files s1)")
  show ?thesis
  proof (cases r)
    case (Inl err)
    then have "build E B device s = (Some (Failed err), s1\<lparr>ru_files := fs\<rparr>)" using s1(1) ren by (simp add: build_def)
    then show ?thesis using s1 by auto
  next
    case (Inr yaml)
    let ?s2 = "s1\<lparr>ru_files := fs\<rparr>"
    obtain s3 where s3: "set_status E ''compiling'' ?s2 = Inr s3" "run_inv jid db0 s3" "ru_files s3 = fs"
      "ru_commits s3 = ru_commits s1 @ [ru_db s3]" "polled jid (ru_db s3) = Some ''compiling''"
      using set_status_run [of jid db0 ?s2 "''compiling''" E] s1(2) by (auto simp: fits_def)
    obtain r' fs' where com: "compile_firmware E B yaml (d_device_id device) (ru_files s3) = (r', fs')"
      by (cases "compile_firmware E B yaml (d_device_id device) (ru_files s3)")
    show ?thesis
    proof (cases r')
      case inl: (Inl err)
      then have "build E B device s = (Some (Failed err), s3\<lparr>ru_files := fs'\<rparr>)"
        using s1(1) ren Inr s3(1) com by (simp add: build_def)
      then show ?thesis using s1(4,5) s3 by auto
    next
      case inr: (Inr bin)
      let ?s4 = "s3\<lparr>ru_files := fs'\<rparr>"
      let ?job = "(ru_job ?s4)\<lparr>j_firmware_path := Some bin, j_status := ''ready''\<rparr>"
      have bin: "bin = binary_path E (d_device_id device)" "fs' bin \<noteq> None"
        using com inr by (auto simp: compile_firmware_def Let_def split: prod.splits sum.splits if_splits list.splits option.splits)
      have inv4: "run_inv jid db0 ?s4" using s3(2) by simp
      have "j_id ?job = jid" "job_ok ?job"
        using s3(2) run_inv_job_ok [OF s3(2)] assms(2) bin(1)
        by (simp_all add: run_inv_def job_ok_def fits_opt_def fits_def)
      then obtain s5 where s5: "commit_job E ?job ?s4 = Inr s5" "run_inv jid db0 s5" "ru_files s5 = fs'"
        "ru_commits s5 = ru_commits s3 @ [ru_db s5]" "j_status (ru_job s5) = ''ready''"
        "j_firmware_path (ru_job s5) = Some bin"
        using commit_job_run [OF inv4, of ?job E] by auto
      have "build E B device s = (None, s5)"
        using s1(1) ren Inr s3(1) com inr s5(1) by (simp add: build_def Let_def)
      moreover have "polled jid (ru_db s5) = Some ''ready''"
        using run_inv_lookup [OF s5(2)] s5(5) by (simp add: polled_def)
      ultimately show ?thesis using s1(4,5) s3(4,5) s5 bin by auto
    qed
  qed
qed


section \<open>From request to download\<close>

text \<open>An environment in which every step of a build of a device works and leaves a binary with the given content.\<close>

definition build_works :: "ext \<Rightarrow> build_env \<Rightarrow> string \<Rightarrow> string \<Rightarrow> string \<Rightarrow> bool" where
  "build_works E B device_type device_id content \<longleftrightarrow>
     (\<forall>path. \<not> write_raises E path) \<and>
     (\<forall>args. \<exists>t. render_template B (device_type @ ''.yaml.j2'') args = Inr t) \<and>
     (\<forall>cmd fs. \<exists>out fs1. docker_run B cmd fs = (Inr (0, out), fs1) \<and> candidates B device_id fs1 \<noteq> [] \<and>
        fs1 (last (candidates B device_id fs1)) = Some content) \<and>
     (\<forall>src dst. copy_raises B src dst = None)"

lemma render_works: "build_works E B (d_device_type d) i content \<Longrightarrow> \<exists>p fs'. render E B d fs = (Inr p, fs')"
proof -
  assume w: "build_works E B (d_device_type d) i content"
  let ?args = "[(''device_id'', Some (d_device_id d)),
              (''firmware_version'', Some (case d_firmware_version d of
                                       None \<Rightarrow> ''1.0.0'' | Some v \<Rightarrow> if v = [] then ''1.0.0'' else v)),
              (''fleet_url'', Some (SERVER_URL (cfg E))), (''provision_token'', d_provision_token d)]"
  obtain t where "render_template B (d_device_type d @ ''.yaml.j2'') ?args = Inr t"
    using w unfolding build_works_def by blast
  moreover have "\<not> write_raises E p" for p using w by (simp add: build_works_def)
  ultimately show ?thesis by (simp add: render_def Let_def)
qed

lemma compile_works:
  assumes "build_works E B ty did content"
  shows "\<exists>fs'. compile_firmware E B y did fs = (Inr (binary_path E did), fs') \<and> fs' (binary_path E did) = Some content"
proof -
  obtain out fs1 where d: "docker_run B (compile_command E y) fs = (Inr (0, out), fs1)" "candidates B did fs1 \<noteq> []"
    "fs1 (last (candidates B did fs1)) = Some content"
    using assms unfolding build_works_def by blast
  then obtain c cs where c: "candidates B did fs1 = c # cs" by (cases "candidates B did fs1") auto
  have "\<not> write_raises E (binary_path E did)" "copy_raises B (last (c # cs)) (binary_path E did) = None"
    using assms by (simp_all add: build_works_def)
  then show ?thesis using d c by (simp add: compile_firmware_def Let_def)
qed

lemma commit_job_files: "commit_job E job s = Inr s' \<Longrightarrow> ru_files s' = ru_files s"
  by (auto simp: commit_job_def Let_def split: if_splits sum.splits)

lemma build_works_run:
  assumes "run_inv jid db0 s" "fits 512 (binary_path E (d_device_id device))"
    and "build_works E B (d_device_type device) (d_device_id device) content"
  obtains s' where "build E B device s = (None, s')" "run_inv jid db0 s'" "j_status (ru_job s') = ''ready''"
    "ru_files s' (binary_path E (d_device_id device)) = Some content"
proof -
  obtain r s' where run: "build E B device s = (r, s')" "run_inv jid db0 s'"
    and out: "r = None \<and> j_status (ru_job s') = ''ready'' \<or> (\<exists>err. r = Some (Failed err))"
    using build_run [OF assms(1,2), of B] by blast
  have ren: "\<exists>p fs'. render E B device fs = (Inr p, fs')" for fs using render_works [OF assms(3)] .
  note com = compile_works [OF assms(3)]
  have "r = None"
  proof (rule ccontr)
    assume "r \<noteq> None"
    then obtain err where "build E B device s = (Some (Failed err), s')" using run(1) out by auto
    then have "(\<exists>fs fs'. render E B device fs = (Inl err, fs')) \<or>
        (\<exists>y fs fs'. compile_firmware E B y (d_device_id device) fs = (Inl err, fs'))"
      by (auto simp: build_def Let_def split: sum.splits prod.splits)
    then show False using ren com by (metis Inl_Inr_False fst_conv)
  qed
  then have built: "build E B device s = (None, s')" "j_status (ru_job s') = ''ready''" using run(1) out by auto
  then obtain y fs p where "compile_firmware E B y (d_device_id device) fs = (Inr p, ru_files s')"
    by (auto simp: build_def Let_def split: sum.splits prod.splits dest!: commit_job_files)
  then have "ru_files s' (binary_path E (d_device_id device)) = Some content" using com [of y fs] by auto
  then show ?thesis using that built run(2) by blast
qed

lemma start_job_rows:
  assumes "start_job E B ty db = (Inr job, db1)"
  shows "j_id job = rand_job B" "j_device_id job = ''esp32-'' @ rand_device B" "users db1 = users db"
    "provision_jobs db1 = provision_jobs db @ [job]"
    "j_id job \<notin> j_id ` set (provision_jobs db)" "j_status job = ''pending''"
    "\<exists>d. devices db1 = devices db @ [d] \<and> d_device_id d = j_device_id job \<and> d_device_type d = ty \<and>
       d_status d = ''provisioning'' \<and> d_device_id d \<notin> device_keys db"
  using assms
  by (auto simp: start_job_def Let_def insert_job_def insert_device_def default_device_def split: sum.splits if_splits)

lemma db_wf_start_job [wf_intros]:
  assumes "db_wf db"
  shows "db_wf (snd (start_job E B ty db))"
  using assms db_wf_insert_device [OF assms]
  by (auto simp: start_job_def Let_def split: sum.split dest: db_wf_insert_job)

lemma require_role_mono:
  assumes "require_role E roles token db = Inr u" "set roles \<subseteq> set roles'" "users db' = users db"
  shows "require_role E roles' token db' = Inr u"
proof -
  have sel: "select_user E s db' = select_user E s db" for s unfolding select_user_def assms(3) ..
  show ?thesis using assms(1,2) unfolding require_role_def sel
    by (auto split: option.splits if_splits sum.splits)
qed

text \<open>
  C35: when every step of the build works, provisioning delivers: after the background run of an
  accepted request the job is ready for the client that polls it, and the public download of the
  new device serves exactly the content the compiler built.
\<close>

theorem provision_delivers:
  assumes "db_wf db" "provision E B token ty db = (Inr job, db1)"
    and "build_works E B ty (j_device_id job) content" "fits 512 (binary_path E (j_device_id job))"
  shows "\<exists>commits db2 fs2. run_job E B (j_id job) db1 fs = (None, commits, db2, fs2) \<and>
    (\<exists>job'. get_job E token (j_id job) db2 = Inr job' \<and> j_status job' = ''ready'') \<and>
    download_firmware E (j_device_id job) fs2 = Inr (content, j_device_id job @ ''.bin'')"
proof -
  obtain u where role: "require_role E [''admin'', ''operator''] token db = Inr u"
    and start: "start_job E B ty db = (Inr job, db1)"
    using assms(2) by (auto simp: provision_def split: sum.splits)
  note rows = start_job_rows [OF start]
  obtain d where d: "devices db1 = devices db @ [d]" "d_device_id d = j_device_id job" "d_device_type d = ty"
    "d_device_id d \<notin> device_keys db"
    using rows(7) by blast
  have wf1: "db_wf db1" using db_wf_start_job [OF assms(1), of E B ty] start by simp
  have look: "lookup_key j_id (j_id job) (provision_jobs db1) = Some job"
    using rows(4,5) by (simp add: lookup_key_append_one lookup_key_None_iff [THEN iffD2])
  have dev: "lookup_key d_device_id (j_device_id job) (devices db1) = Some d"
    using d by (simp add: lookup_key_append_one lookup_key_None_iff [THEN iffD2])
  let ?s = "\<lparr> ru_job = job, ru_db = db1, ru_commits = [], ru_files = fs, ru_txn = 0 \<rparr>"
  have inv: "run_inv (j_id job) db1 ?s"
    using wf1 rows(4) db_wfD(10) [OF wf1] by (auto simp: run_inv_def jobs_wf_def replace_row_same)
  have path: "fits 512 (binary_path E (d_device_id d))" and works: "build_works E B (d_device_type d) (d_device_id d) content"
    using assms(3,4) d(2,3) by simp_all
  obtain s' where s': "build E B d ?s = (None, s')" "run_inv (j_id job) db1 s'" "j_status (ru_job s') = ''ready''"
    "ru_files s' (binary_path E (d_device_id d)) = Some content"
    by (rule build_works_run [OF inv path works])
  have "run_job E B (j_id job) db1 fs = (None, ru_commits s', ru_db s', ru_files s')"
    using look dev s'(1) by (simp add: run_job_def Let_def)
  moreover have "users (ru_db s') = users db"
  proof -
    have "ru_db s' = db1\<lparr>provision_jobs := replace_row j_id (ru_job s') (provision_jobs db1)\<rparr>"
      using s'(2) unfolding run_inv_def by blast
    then show ?thesis using rows(3) by simp
  qed
  then have "get_job E token (j_id job) (ru_db s') = Inr (ru_job s')"
    using require_role_mono [OF role, of "[''admin'', ''operator'', ''viewer'']" "ru_db s'"] run_inv_lookup [OF s'(2)]
    by (simp add: get_job_def)
  moreover have "download_firmware E (j_device_id job) (ru_files s') = Inr (content, j_device_id job @ ''.bin'')"
    using s'(4) d(2) by (simp add: download_firmware_def)
  ultimately show ?thesis using s'(3) by blast
qed

text \<open>An environment whose compiler always leaves the same binary, for the witnesses.\<close>

definition demo_build :: build_env where
  "demo_build =
     \<lparr> rand_device = ''0a1b2c3d'', rand_token = ''secret'', rand_job = ''job1'',
       render_template = (\<lambda>name args. Inr ''yaml''),
       docker_run = (\<lambda>cmd fs. (Inr (0, ''done''), fs(''/app/esphome/firmware.bin'' \<mapsto> ''BIN''))),
       rglob_sorted = (\<lambda>pattern fs. [''/app/esphome/firmware.bin'']), copy_raises = (\<lambda>src dst. None) \<rparr>"

lemma demo_build_works: "build_works demo_ext demo_build ty did ''BIN''"
  by (simp add: build_works_def demo_build_def candidates_def)

lemma demo_provision:
  obtains job db1 where "provision demo_ext demo_build (sample_token ''admin'') ''room_sensor'' sample_db = (Inr job, db1)"
    "j_device_id job = ''esp32-0a1b2c3d''" "lookup_key j_id ''job1'' (provision_jobs db1) = Some job" "db_wf db1"
proof -
  have "\<exists>job. fst (provision demo_ext demo_build (sample_token ''admin'') ''room_sensor'' sample_db) = Inr job"
    by (simp add: provision_def start_job_def demo_build_def Let_def insert_device_def insert_job_def default_device_def
        device_ok_def job_ok_def fits_def fits_opt_def int4_opt_def mac_free_def home_exists_def)
  then obtain job db1 where run: "provision demo_ext demo_build (sample_token ''admin'') ''room_sensor'' sample_db = (Inr job, db1)"
    by (metis prod.collapse)
  then have start: "start_job demo_ext demo_build ''room_sensor'' sample_db = (Inr job, db1)"
    by (simp add: provision_def)
  have wf: "db_wf db1" using db_wf_start_job [OF db_wf_sample, of demo_ext demo_build "''room_sensor''"] start by simp
  note rows = start_job_rows [OF start]
  have "j_device_id job = ''esp32-0a1b2c3d''" "lookup_key j_id ''job1'' (provision_jobs db1) = Some job"
    using rows(1,2,4) by (simp_all add: demo_build_def lookup_key_def)
  then show ?thesis using that run wf by blast
qed

lemma demo_binary_path: "fits 512 (binary_path demo_ext ''esp32-0a1b2c3d'')"
proof -
  have "binary_path demo_ext ''esp32-0a1b2c3d'' = ''data/firmware/esp32-0a1b2c3d/firmware.bin''"
    unfolding binary_path_def demo_ext_simps default_settings_def settings.select_convs by code_simp
  then show ?thesis by (simp add: fits_def)
qed


theorem provision_delivers_witness:
  "\<exists>job db1 commits db2 fs2.
     provision demo_ext demo_build (sample_token ''admin'') ''room_sensor'' sample_db = (Inr job, db1) \<and>
     run_job demo_ext demo_build (j_id job) db1 Map.empty = (None, commits, db2, fs2) \<and>
     download_firmware demo_ext ''esp32-0a1b2c3d'' fs2 = Inr (''BIN'', ''esp32-0a1b2c3d.bin'')"
proof -
  obtain job db1 where p: "provision demo_ext demo_build (sample_token ''admin'') ''room_sensor'' sample_db = (Inr job, db1)"
    "j_device_id job = ''esp32-0a1b2c3d''"
    by (rule demo_provision)
  have "fits 512 (binary_path demo_ext (j_device_id job))" using demo_binary_path p(2) by simp
  from provision_delivers [OF db_wf_sample p(1) demo_build_works this, of Map.empty] p show ?thesis by fastforce
qed

end
