(* ===== verification/Seed.thy ===== *)
theory Seed
  imports Auth
begin

text \<open>
  \<^verbatim>\<open>scripts/seed.py\<close>: the script that fills a fresh database with the communities, homes, devices,
  firmware version and accounts the first deployment starts from. Everything happens in one
  transaction: the communities and the homes are flushed first, the assignments follow in one
  statement, and the commit flushes the devices, the firmware version and the accounts (independent
  of each other, here in the order the script adds them). An error on the way leaves the session
  without a commit. The lemmas show that the script fills an empty database with a valid fleet that
  has a working administrator, that it is atomic, and that it runs once.
\<close>

section \<open>The rows\<close>

definition seed_communities :: "ext \<Rightarrow> community list" where
  "seed_communities E =
     map (\<lambda>(cid, name, descr). \<lparr> c_community_id = cid, c_name = name, c_description = Some descr,
                                 c_created_at = pg_now E 0 \<rparr>)
       [(''nrh'', ''NRH'', ''Neuro Rehab Hospital patients''),
        (''kaiser'', ''Kaiser Permanente'', ''Kaiser patients in smart home program''),
        (''stjude'', ''St Jude'', ''St Jude affiliated patients''),
        (''sutterhealth'', ''Sutter Health'', ''Sutter Health patients''),
        (''all'', ''All Homes'', ''Broadcast to entire fleet'')]"

definition seed_homes :: "ext \<Rightarrow> home list" where
  "seed_homes E =
     map (\<lambda>(hid, name, addr). \<lparr> h_home_id = hid, h_patient_name = name, h_address = Some addr,
                                h_created_at = pg_now E 0 \<rparr>)
       [(''home-001'', ''Test Patient A'', ''123 NRH Lane, Salt Lake City, UT''),
        (''home-002'', ''Test Patient B'', ''456 Kaiser Blvd, San Francisco, CA''),
        (''home-003'', ''Test Patient C'', ''789 Multi Ave, Sacramento, CA'')]"

definition seed_assignments :: "(string \<times> string) list" where
  "seed_assignments =
     [(''home-001'', ''nrh''), (''home-001'', ''all''), (''home-002'', ''kaiser''), (''home-002'', ''all''),
      (''home-003'', ''nrh''), (''home-003'', ''sutterhealth''), (''home-003'', ''all'')]"

definition seed_devices :: "ext \<Rightarrow> device list" where
  "seed_devices E =
     map (\<lambda>(did, mac, role, hid).
            (default_device did (pg_now E 0))
              \<lparr>d_mac := Some mac, d_firmware_version := Some ''1.0.0'', d_role := role,
               d_status := ''unknown'', d_home_id := Some hid\<rparr>)
       [(''esp32-living-room-001'', ''AA:BB:CC:DD:E0:01'', ''hub'', ''home-001''),
        (''esp32-fall-sensor-001'', ''AA:BB:CC:DD:E0:02'', ''sensor'', ''home-001''),
        (''esp32-motion-002'', ''AA:BB:CC:DD:E0:03'', ''sensor'', ''home-002''),
        (''esp32-door-003'', ''AA:BB:CC:DD:E0:04'', ''sensor'', ''home-003'')]"

definition seed_firmware :: "ext \<Rightarrow> firmware_version" where
  "seed_firmware E =
     \<lparr> f_id = 0, f_version = ''1.0.0'', f_binary_path = ''./data/firmware/1.0.0/firmware.bin'',
       f_checksum = ''placeholder-sha256'', f_release_notes = Some ''Initial firmware release'',
       f_created_at = pg_now E 0 \<rparr>"

definition seed_users :: "ext \<Rightarrow> user list" where
  "seed_users E =
     map (\<lambda>(uid, email, pw, role).
            \<lparr> u_id = uid, u_email = email, u_hashed_password = hash_password E pw, u_role = role,
              u_is_active = True, u_created_at = pg_now E 0 \<rparr>)
       [(''admin'', ''admin@tetradapt.com'', ''admin123'', ''admin''),
        (''operator1'', ''operator@tetradapt.com'', ''operator123'', ''operator''),
        (''viewer1'', ''viewer@tetradapt.com'', ''viewer123'', ''viewer'')]"

section \<open>The script\<close>

text \<open>\<^verbatim>\<open>session.add_all(rows)\<close> and its flush: the rows in order, up to the first error.\<close>

fun insert_all :: "('r \<Rightarrow> db \<Rightarrow> db res) \<Rightarrow> 'r list \<Rightarrow> db \<Rightarrow> db res" where
  "insert_all ins [] db = Inr db"
| "insert_all ins (r # rows) db =
     (case ins r db of Inl e \<Rightarrow> Inl e | Inr db1 \<Rightarrow> insert_all ins rows db1)"

text \<open>The statements of the transaction. The result carries the printed line.\<close>

definition seed_rows :: "ext \<Rightarrow> db \<Rightarrow> unit db_res" where
  "seed_rows E db =
     (case insert_all insert_community (seed_communities E) db of
        Inl e \<Rightarrow> (Inl e, db)
      | Inr db1 \<Rightarrow>
          (case insert_all insert_home (seed_homes E) db1 of
             Inl e \<Rightarrow> (Inl e, db1)
           | Inr db2 \<Rightarrow>
               (case insert_all (\<lambda>(h, c). insert_home_community h c) seed_assignments db2 of
                  Inl e \<Rightarrow> (Inl e, db2)
                | Inr db3 \<Rightarrow>
                    (case insert_all insert_device (seed_devices E) db3 of
                       Inl e \<Rightarrow> (Inl e, db3)
                     | Inr db4 \<Rightarrow>
                         (case insert_firmware (seed_firmware E) db4 of
                            (Inl e, db5) \<Rightarrow> (Inl e, db5)
                          | (Inr _, db5) \<Rightarrow>
                              (case insert_all insert_user (seed_users E) db5 of
                                 Inl e \<Rightarrow> (Inl e, db5)
                               | Inr db6 \<Rightarrow> (Inr (), db6)))))))"

definition seed :: "ext \<Rightarrow> db \<Rightarrow> string db_res" where
  "seed E db =
     (if scan E (communities db) \<noteq> [] then (Inr ''Database already seeded, skipping.'', db)
      else case seed_rows E db of
        (Inl e, db') \<Rightarrow> (Inl e, rollback db db')
      | (Inr _, db') \<Rightarrow>
          (Inr ''Seed complete: 5 communities, 3 homes, 4 devices, 1 firmware, 3 users'', db'))"

section \<open>What the script does to any database\<close>

lemma insert_all_inv:
  assumes "insert_all ins rows db = Inr db'" "P db"
    and "\<And>r d d'. ins r d = Inr d' \<Longrightarrow> P d \<Longrightarrow> P d'"
  shows "P db'"
  using assms(1,2) by (induction rows arbitrary: db) (auto split: sum.splits dest: assms(3))

lemma insert_all_wf:
  assumes "insert_all ins rows db = Inr db'" "db_wf db"
    and "\<And>r d d'. db_wf d \<Longrightarrow> ins r d = Inr d' \<Longrightarrow> db_wf d'"
  shows "db_wf db'"
  using assms by (blast intro: insert_all_inv [where P = db_wf])

text \<open>The steps of a transaction that went through.\<close>

lemma seed_rows_InrE:
  assumes "seed_rows E db = (Inr u, db')"
  obtains db1 db2 db3 db4 db5 f where
    "insert_all insert_community (seed_communities E) db = Inr db1"
    "insert_all insert_home (seed_homes E) db1 = Inr db2"
    "insert_all (\<lambda>(h, c). insert_home_community h c) seed_assignments db2 = Inr db3"
    "insert_all insert_device (seed_devices E) db3 = Inr db4"
    "insert_firmware (seed_firmware E) db4 = (Inr f, db5)"
    "insert_all insert_user (seed_users E) db5 = Inr db'"
  using assms unfolding seed_rows_def by (auto split: sum.splits prod.splits)

lemma db_wf_insert_assignment: "db_wf d \<Longrightarrow> (case r of (h, c) \<Rightarrow> insert_home_community h c) d = Inr d' \<Longrightarrow> db_wf d'"
  by (cases r) (simp add: db_wf_insert_home_community)

lemma db_wf_seed_rows:
  assumes "seed_rows E db = (Inr u, db')" "db_wf db"
  shows "db_wf db'"
  using assms(1)
proof (rule seed_rows_InrE)
  fix db1 db2 db3 db4 db5 f
  assume s: "insert_all insert_community (seed_communities E) db = Inr db1"
    "insert_all insert_home (seed_homes E) db1 = Inr db2"
    "insert_all (\<lambda>(h, c). insert_home_community h c) seed_assignments db2 = Inr db3"
    "insert_all insert_device (seed_devices E) db3 = Inr db4"
    "insert_firmware (seed_firmware E) db4 = (Inr f, db5)"
    "insert_all insert_user (seed_users E) db5 = Inr db'"
  have 1: "db_wf db1" using s(1) assms(2) db_wf_insert_community by (rule insert_all_wf)
  have 2: "db_wf db2" using s(2) 1 db_wf_insert_home by (rule insert_all_wf)
  have 3: "db_wf db3" using s(3) 2 db_wf_insert_assignment by (rule insert_all_wf)
  have 4: "db_wf db4" using s(4) 3 db_wf_insert_device by (rule insert_all_wf)
  have 5: "db_wf db5" using db_wf_insert_firmware [OF 4, of "seed_firmware E"] s(5) by simp
  show ?thesis using s(6) 5 db_wf_insert_user by (rule insert_all_wf)
qed

text \<open>An INSERT of rows without serial id adds the rows and changes nothing else.\<close>

lemma insert_InrD:
  "insert_community c db = Inr db' \<Longrightarrow> db' = db\<lparr>communities := communities db @ [c]\<rparr>"
  "insert_home h db = Inr db' \<Longrightarrow> db' = db\<lparr>homes := homes db @ [h]\<rparr>"
  "insert_home_community hid cid db = Inr db' \<Longrightarrow> db' = db\<lparr>home_community := home_community db @ [(hid, cid)]\<rparr>"
  "insert_device d db = Inr db' \<Longrightarrow> db' = db\<lparr>devices := devices db @ [d]\<rparr>"
  "insert_user u db = Inr db' \<Longrightarrow> db' = db\<lparr>users := users db @ [u]\<rparr>"
  by (simp_all add: insert_community_def insert_home_def insert_home_community_def insert_device_def
      insert_user_def split: if_splits)

lemma insert_all_appends:
  assumes "insert_all ins rows db = Inr db'"
    and "\<And>r d d'. ins r d = Inr d' \<Longrightarrow> d' = put [r] d"
    and "\<And>d. put [] d = d" "\<And>xs ys d. put ys (put xs d) = put (xs @ ys) d"
  shows "db' = put rows db"
  using assms(1)
proof (induction rows arbitrary: db)
  case (Cons r rows)
  then obtain db1 where db1: "ins r db = Inr db1" "insert_all ins rows db1 = Inr db'"
    by (auto split: sum.splits)
  have "db' = put rows (put [r] db)"
    using Cons.IH [OF db1(2)] assms(2) [OF db1(1)] by simp
  then show ?case by (simp add: assms(4))
qed (simp add: assms(3))

lemma insert_all_InrD:
  "insert_all insert_community cs db = Inr db' \<Longrightarrow> db' = db\<lparr>communities := communities db @ cs\<rparr>"
  "insert_all insert_home hs db = Inr db' \<Longrightarrow> db' = db\<lparr>homes := homes db @ hs\<rparr>"
  "insert_all (\<lambda>(h, c). insert_home_community h c) hc db = Inr db' \<Longrightarrow>
     db' = db\<lparr>home_community := home_community db @ hc\<rparr>"
  "insert_all insert_device ds db = Inr db' \<Longrightarrow> db' = db\<lparr>devices := devices db @ ds\<rparr>"
  "insert_all insert_user us db = Inr db' \<Longrightarrow> db' = db\<lparr>users := users db @ us\<rparr>"
  apply (drule insert_all_appends [where put = "\<lambda>rows d. d\<lparr>communities := communities d @ rows\<rparr>"];
      auto dest: insert_InrD)
  apply (drule insert_all_appends [where put = "\<lambda>rows d. d\<lparr>homes := homes d @ rows\<rparr>"];
      auto dest: insert_InrD)
  apply (drule insert_all_appends [where put = "\<lambda>rows d. d\<lparr>home_community := home_community d @ rows\<rparr>"];
      auto dest: insert_InrD)
  apply (drule insert_all_appends [where put = "\<lambda>rows d. d\<lparr>devices := devices d @ rows\<rparr>"];
      auto dest: insert_InrD)
  apply (drule insert_all_appends [where put = "\<lambda>rows d. d\<lparr>users := users d @ rows\<rparr>"];
      auto dest: insert_InrD)
  done

lemma insert_firmware_InrD:
  "insert_firmware f db = (Inr f', db') \<Longrightarrow>
     f' = f\<lparr>f_id := seq_firmware (sequences db)\<rparr> \<and>
     db' = db\<lparr>firmware_versions := firmware_versions db @ [f'],
             sequences := (sequences db)\<lparr>seq_firmware := seq_firmware (sequences db) + 1\<rparr>\<rparr>"
  by (auto simp: insert_firmware_def Let_def split: if_splits)

lemma seed_rows_tables:
  assumes "seed_rows E db = (Inr u, db')"
  shows "db' = db\<lparr>communities := communities db @ seed_communities E,
                  homes := homes db @ seed_homes E,
                  home_community := home_community db @ seed_assignments,
                  devices := devices db @ seed_devices E,
                  firmware_versions := firmware_versions db @
                    [(seed_firmware E)\<lparr>f_id := seq_firmware (sequences db)\<rparr>],
                  users := users db @ seed_users E,
                  sequences := (sequences db)\<lparr>seq_firmware := seq_firmware (sequences db) + 1\<rparr>\<rparr>"
  using assms
  by (rule seed_rows_InrE) (drule insert_all_InrD insert_firmware_InrD; simp)+

lemma seed_rows_sequences:
  assumes "seed_rows E db = (Inl e, db')"
  shows "seqs_le (sequences db) (sequences db')"
proof -
  have f: "insert_firmware f d = (r, d') \<Longrightarrow> seqs_le (sequences d) (sequences d')" for f d r d'
    by (auto simp: insert_firmware_def Let_def seqs_le_def split: if_splits)
  show ?thesis
    using assms unfolding seed_rows_def
    by (auto split: sum.splits prod.splits dest!: insert_all_InrD f)
qed

lemma db_wf_seed [wf_intros]:
  assumes "db_wf db"
  shows "db_wf (snd (seed E db))"
proof -
  obtain r db' where r: "seed_rows E db = (r, db')" by fastforce
  show ?thesis
  proof (cases r)
    case (Inl e)
    with r assms show ?thesis
      using seed_rows_sequences [of E db e db'] by (simp add: seed_def db_wf_rollback)
  next
    case (Inr u)
    with r assms show ?thesis
      using db_wf_seed_rows [of E db u db'] by (simp add: seed_def)
  qed
qed

section \<open>Properties\<close>

text \<open>
  The seed script is atomic and runs once. Whatever the database holds, a run either fails and
  leaves every table as it was (only sequence values are spent), or ends with at least one
  community in the database, and then every later run changes nothing. The schema stays valid
  throughout.
\<close>

theorem seed_once:
  assumes "scan_ok E" "scan_ok E'" "db_wf db"
  shows "db_wf (snd (seed E db)) \<and>
         (case fst (seed E db) of
            Inl _ \<Rightarrow> (snd (seed E db))\<lparr>sequences := sequences db\<rparr> = db
          | Inr _ \<Rightarrow> seed E' (snd (seed E db)) = (Inr ''Database already seeded, skipping.'', snd (seed E db)))"
proof -
  have undone: "(snd (seed E db))\<lparr>sequences := sequences db\<rparr> = db" if "fst (seed E db) = Inl e" for e
    using that
    by (auto simp: seed_def rollback_def split: if_splits sum.splits prod.splits)
  have ne: "scan X rows \<noteq> [] \<longleftrightarrow> rows \<noteq> []" if "scan_ok X" for X and rows :: "community list"
    using length_scan [OF that, of rows] by (metis length_0_conv)
  have "communities (snd (seed E db)) \<noteq> []" if "fst (seed E db) = Inr line" for line
  proof (cases "communities db = []")
    case True
    obtain r db' where r: "seed_rows E db = (r, db')" by fastforce
    with that True obtain u where "r = Inr u"
      using ne [OF assms(1)] by (cases r) (simp_all add: seed_def)
    with r True show ?thesis
      using seed_rows_tables [of E db u db'] ne [OF assms(1)] by (simp add: seed_def seed_communities_def)
  qed (use ne [OF assms(1)] in \<open>simp add: seed_def\<close>)
  then have again: "seed E' (snd (seed E db)) = (Inr ''Database already seeded, skipping.'', snd (seed E db))"
    if "fst (seed E db) = Inr line" for line
    using that ne [OF assms(2)] by (simp add: seed_def [of E'])
  show ?thesis
    using db_wf_seed [OF assms(3), of E] undone again by (cases "fst (seed E db)") simp_all
qed

lemmas seed_row_defs = seed_communities_def seed_homes_def seed_assignments_def seed_devices_def
  seed_firmware_def seed_users_def default_device_def

lemmas seed_insert_defs = insert_community_def insert_home_def insert_home_community_def
  insert_device_def insert_firmware_def insert_user_def mac_free_def home_exists_def

lemmas row_ok_defs = user_ok_def home_ok_def community_ok_def device_ok_def firmware_ok_def
  fits_def fits_opt_def int4_opt_def

lemma seed_rows_empty:
  assumes "bcrypt_ok E"
  shows "\<exists>db'. seed_rows E empty_db = (Inr (), db')"
proof -
  have h: "length (hashpw E p s) \<le> 256" for p s
    using assms by (simp add: bcrypt_ok_def)
  show ?thesis
    by (simp add: seed_rows_def empty_db_def seed_row_defs seed_insert_defs row_ok_defs h hash_password_def Let_def)
qed

lemma seed_empty:
  assumes "scan_ok E" "bcrypt_ok E"
  shows "seed E empty_db =
           (Inr ''Seed complete: 5 communities, 3 homes, 4 devices, 1 firmware, 3 users'',
            empty_db\<lparr>communities := seed_communities E, homes := seed_homes E,
                     home_community := seed_assignments, devices := seed_devices E,
                     firmware_versions := [(seed_firmware E)\<lparr>f_id := 1\<rparr>], users := seed_users E,
                     sequences := (sequences empty_db)\<lparr>seq_firmware := 2\<rparr>\<rparr>)"
proof -
  obtain db' where db': "seed_rows E empty_db = (Inr (), db')"
    using seed_rows_empty [OF assms(2)] ..
  have e: "communities empty_db = []" by (simp add: empty_db_def)
  show ?thesis
    using seed_rows_tables [OF db'] assms(1) unfolding seed_def e db' by (simp add: empty_db_def)
qed

text \<open>The credentials are accepted, for an account with this id and role.\<close>

definition logs_in :: "ext \<Rightarrow> string \<Rightarrow> string \<Rightarrow> db \<Rightarrow> string \<Rightarrow> string \<Rightarrow> bool" where
  "logs_in E email password db uid role =
     (case fst (login E email password db) of
        Inl _ \<Rightarrow> False
      | Inr resp \<Rightarrow> token_user_id resp = uid \<and> token_role resp = role)"

lemma logs_in_accepts:
  assumes "strip email = ident" "filter (\<lambda>u. u_email u = ident \<or> u_id u = ident) (users db) = [u]"
    and "verify_password E password (u_hashed_password u)" "u_is_active u" "user_ok u"
  shows "logs_in E email password db (u_id u) (u_role u)"
  using assms
  by (simp add: logs_in_def login_def Let_def audit_service_log_def insert_audit_def audit_ok_def user_ok_def
      fits_def fits_opt_def returning_def)

lemma strip_seed_emails:
  "strip ''admin@tetradapt.com'' = ''admin@tetradapt.com''"
  "strip ''operator@tetradapt.com'' = ''operator@tetradapt.com''"
  "strip ''viewer@tetradapt.com'' = ''viewer@tetradapt.com''"
  by code_simp+

lemma seed_users_log_in:
  assumes "bcrypt_ok E" "users db = seed_users E"
  shows "logs_in E ''admin@tetradapt.com'' ''admin123'' db ''admin'' ''admin'' \<and>
         logs_in E ''operator@tetradapt.com'' ''operator123'' db ''operator1'' ''operator'' \<and>
         logs_in E ''viewer@tetradapt.com'' ''viewer123'' db ''viewer1'' ''viewer''"
proof -
  have pw: "verify_password E p (hash_password E p)" and h: "length (hash_password E p) \<le> 256" for p
    using assms(1) by (simp_all add: bcrypt_ok_def verify_password_def hash_password_def)
  show ?thesis
    using logs_in_accepts [OF strip_seed_emails(1), of db "seed_users E ! 0" E "''admin123''"]
      logs_in_accepts [OF strip_seed_emails(2), of db "seed_users E ! 1" E "''operator123''"]
      logs_in_accepts [OF strip_seed_emails(3), of db "seed_users E ! 2" E "''viewer123''"]
    by (simp add: assms(2) seed_users_def pw h user_ok_def fits_def)
qed

text \<open>
  C36: on an empty database the script succeeds: the result satisfies the schema, every seeded home
  belongs to the community \<^verbatim>\<open>all\<close>, exactly one active administrator exists, and each of the three
  accounts can log in with its password and gets its own role.
\<close>

theorem seed_fresh:
  assumes "scan_ok E" "bcrypt_ok E" "seed E empty_db = (r, db)"
  shows "r = Inr ''Seed complete: 5 communities, 3 homes, 4 devices, 1 firmware, 3 users'' \<and>
         db_wf db \<and> count_active_admins db = 1 \<and>
         (length (communities db), length (homes db), length (devices db), length (firmware_versions db),
          length (users db)) = (5, 3, 4, 1, 3) \<and>
         list_all (\<lambda>h. (h_home_id h, ''all'') \<in> set (home_community db)) (homes db) \<and>
         logs_in E ''admin@tetradapt.com'' ''admin123'' db ''admin'' ''admin'' \<and>
         logs_in E ''operator@tetradapt.com'' ''operator123'' db ''operator1'' ''operator'' \<and>
         logs_in E ''viewer@tetradapt.com'' ''viewer123'' db ''viewer1'' ''viewer''"
proof -
  note s = seed_empty [OF assms(1,2), unfolded assms(3) prod.inject]
  have "db_wf db" using db_wf_seed [OF db_wf_empty, of E] assms(3) by simp
  moreover have us: "users db = seed_users E" by (simp add: s)
  moreover have "count_active_admins db = 1" by (simp add: count_active_admins_def us seed_users_def)
  moreover have "list_all (\<lambda>h. (h_home_id h, ''all'') \<in> set (home_community db)) (homes db)"
    by (simp add: s seed_homes_def seed_assignments_def)
  moreover have "(length (communities db), length (homes db), length (devices db),
      length (firmware_versions db), length (users db)) = (5, 3, 4, 1, 3)"
    by (simp add: s seed_communities_def seed_homes_def seed_devices_def seed_users_def)
  ultimately show ?thesis
    using seed_users_log_in [OF assms(2) us] s by blast
qed

theorem seed_fresh_witness:
  "fst (seed demo_ext empty_db) = Inr ''Seed complete: 5 communities, 3 homes, 4 devices, 1 firmware, 3 users'' \<and>
   count_active_admins (snd (seed demo_ext empty_db)) = 1"
  using seed_fresh [of demo_ext "fst (seed demo_ext empty_db)" "snd (seed demo_ext empty_db)"] by simp

theorem seed_once_witness:
  "db_wf (snd (seed demo_ext empty_db)) \<and>
   seed demo_ext (snd (seed demo_ext empty_db)) =
     (Inr ''Database already seeded, skipping.'', snd (seed demo_ext empty_db))"
proof -
  have "fst (seed demo_ext empty_db) = Inr ''Seed complete: 5 communities, 3 homes, 4 devices, 1 firmware, 3 users''"
    by (simp add: seed_empty)
  then show ?thesis
    using seed_once [of demo_ext demo_ext empty_db] by simp
qed

end
