(* ===== verification/Fleet_Records.thy ===== *)
theory Fleet_Records
  imports Scheduler Mqtt_Handlers Device_Groups Broadcasts Provisioning Seed
begin

text \<open>
  What an operation of the server may do to the tables that keep the past: accounts, OTA events,
  scheduled rollouts, broadcasts, acknowledgements, firmware versions and the audit log. \<open>archive\<close> is the relation
  every operation satisfies: no row of these tables is deleted; broadcasts, acknowledgements,
  firmware rows and audit entries never change, accounts keep their id, email and creation time,
  and events and rollouts move along their life cycles. Most operations are \<open>quiet\<close>: they leave all
  these tables alone but for new audit entries.
\<close>

named_theorems quiet_intros \<open>a statement or operation leaves the record tables alone\<close>

section \<open>The relation\<close>

definition user_step :: "user \<Rightarrow> user \<Rightarrow> bool" where
  "user_step u u' \<longleftrightarrow> u_id u' = u_id u \<and> u_email u' = u_email u \<and> u_created_at u' = u_created_at u"

interpretation user_history: row_history user_step
  by unfold_locales (auto simp: user_step_def)

text \<open>Tables whose rows, once written, stay as they are (the history of the audit log, for other rows).\<close>

definition frozen_tables :: "db \<Rightarrow> db \<Rightarrow> bool" where
  "frozen_tables db db' \<longleftrightarrow> history (=) (broadcasts db) (broadcasts db') \<and>
     history (=) (broadcast_acks db) (broadcast_acks db') \<and>
     history (=) (firmware_versions db) (firmware_versions db')"

definition archive :: "db \<Rightarrow> db \<Rightarrow> bool" where
  "archive db db' \<longleftrightarrow> chronicle db db' \<and> frozen_tables db db' \<and>
     history user_step (users db) (users db')"

lemma archive_refl [simp]: "archive db db"
  by (simp add: archive_def frozen_tables_def)

lemma archive_trans: "archive db db' \<Longrightarrow> archive db' db'' \<Longrightarrow> archive db db''"
  unfolding archive_def frozen_tables_def
  by (blast intro: chronicle_trans audit_history.trans user_history.trans)

section \<open>Quiet operations\<close>

definition quiet :: "db \<Rightarrow> db \<Rightarrow> bool" where
  "quiet db db' \<longleftrightarrow> users db' = users db \<and> ota_events db' = ota_events db \<and>
     scheduled_rollouts db' = scheduled_rollouts db \<and> broadcasts db' = broadcasts db \<and>
     broadcast_acks db' = broadcast_acks db \<and> firmware_versions db' = firmware_versions db \<and>
     history (=) (audit_log db) (audit_log db')"

lemma quiet_refl [simp, quiet_intros]: "quiet db db"
  by (simp add: quiet_def)

lemma quiet_trans: "quiet db db' \<Longrightarrow> quiet db' db'' \<Longrightarrow> quiet db db''"
  using audit_history.trans [of "audit_log db" "audit_log db'" "audit_log db''"] by (simp add: quiet_def)

lemma quiet_archive: "quiet db db' \<Longrightarrow> archive db db'"
  by (simp add: quiet_def archive_def chronicle_def frozen_tables_def)

lemma quiet_users: "quiet db db' \<Longrightarrow> users db' = users db"
  by (simp add: quiet_def)

lemma quiet_rollback [simp, quiet_intros]: "quiet db (rollback db db')"
  by (simp add: quiet_def rollback_def)

lemma quiet_audit: "quiet db (snd (audit_service_log E k u a r d db))"
  using chronicle_audit [OF chronicle_refl, of db E k u a r d] by (simp add: quiet_def chronicle_def)

lemma quiet_audit_after [simp, quiet_intros]: "quiet db db' \<Longrightarrow> quiet db (snd (audit_service_log E k u a r d db'))"
  using quiet_audit quiet_trans by blast

text \<open>The statements on the other tables.\<close>

lemma quiet_statements:
  "insert_device x1 db = Inr db' \<Longrightarrow> quiet db db'"
  "insert_home x2 db = Inr db' \<Longrightarrow> quiet db db'"
  "insert_community x3 db = Inr db' \<Longrightarrow> quiet db db'"
  "insert_home_community h c db = Inr db' \<Longrightarrow> quiet db db'"
  "insert_job x4 db = Inr db' \<Longrightarrow> quiet db db'"
  "insert_members gid ids db = Inr db' \<Longrightarrow> quiet db db'"
  "flush_device x1 db = Inr db' \<Longrightarrow> quiet db db'"
  "flush_home x2 db = Inr db' \<Longrightarrow> quiet db db'"
  "flush_community x3 db = Inr db' \<Longrightarrow> quiet db db'"
  "flush_job x4 db = Inr db' \<Longrightarrow> quiet db db'"
  "flush_group x5 db = Inr db' \<Longrightarrow> quiet db db'"
  "delete_device_row t k db = Inr db' \<Longrightarrow> quiet db db'"
  "delete_home_row t k db = Inr db' \<Longrightarrow> quiet db db'"
  "delete_community_row t k db = Inr db' \<Longrightarrow> quiet db db'"
  "insert_group x5 db = (r, db') \<Longrightarrow> quiet db db'"
  by (auto simp: quiet_def insert_device_def insert_home_def insert_community_def insert_home_community_def
      insert_job_def insert_members_def flush_device_def flush_home_def flush_community_def flush_job_def
      flush_group_def delete_device_row_def delete_home_row_def delete_community_row_def insert_group_def Let_def
      split: if_splits)

lemma quiet_updates [simp, quiet_intros]:
  "quiet db (db\<lparr>devices := ds\<rparr>)" "quiet db (db\<lparr>home_community := hc\<rparr>)"
  "quiet db (delete_members gid db)" "quiet db (delete_group_row gid db)"
  by (simp_all add: quiet_def delete_members_def delete_group_row_def)

text \<open>A repository is quiet when its three statements are.\<close>

definition quiet_model :: "'r model \<Rightarrow> bool" where
  "quiet_model M \<longleftrightarrow> (\<forall>r db db'. m_insert M r db = Inr db' \<longrightarrow> quiet db db') \<and>
     (\<forall>r db db'. m_update M r db = Inr db' \<longrightarrow> quiet db db') \<and>
     (\<forall>t k db db'. m_delete M t k db = Inr db' \<longrightarrow> quiet db db')"

lemma quiet_models [simp]: "quiet_model device_model" "quiet_model home_model" "quiet_model community_model"
  by (auto simp: quiet_model_def dest: quiet_statements)

lemma quiet_repo:
  assumes "quiet_model M"
  shows "quiet db (snd (repo_create M x db))" "quiet db (snd (repo_update M t k ch db))"
    "quiet db (snd (repo_delete M t k db))"
  using assms
  by (auto simp: quiet_model_def repo_create_def repo_update_def repo_delete_def Let_def
      split: sum.split option.split prod.split)

lemmas quiet_repos [quiet_intros] = quiet_repo [OF quiet_models(1)] quiet_repo [OF quiet_models(2)] quiet_repo [OF quiet_models(3)]

lemma quiet_snd: "r = (x, db') \<Longrightarrow> quiet db (snd r) \<Longrightarrow> quiet db db'"
  by simp

lemma quiet_device_endpoints [quiet_intros]:
  "quiet db (snd (create_device E token dc db))" "quiet db (snd (update_device E token did du db))"
  "quiet db (snd (delete_device E token did db))"
  by (auto simp: create_device_def update_device_def delete_device_def split: sum.split option.split prod.split
      dest: quiet_snd [OF _ quiet_repo(1) [OF quiet_models(1)]] quiet_snd [OF _ quiet_repo(2) [OF quiet_models(1)]]
        quiet_snd [OF _ quiet_repo(3) [OF quiet_models(1)]])

lemma quiet_home_endpoints [quiet_intros]:
  "quiet db (snd (create_home E token hc db))" "quiet db (snd (update_home E token hid hu db))"
  "quiet db (snd (delete_home E token hid db))" "quiet db (snd (assign_community E token hid cid db))"
  "quiet db (snd (remove_community E token hid cid db))"
proof -
  show "quiet db (snd (create_home E token hc db))"
    using quiet_repos(4) by (simp add: create_home_def split: sum.split option.split)
  show "quiet db (snd (update_home E token hid hu db))"
    using quiet_repos(5) [of db "pg_now E 0" hid "change_home hu"]
    by (auto simp: update_home_def or_not_found_def split: sum.split option.split prod.split)
  show "quiet db (snd (delete_home E token hid db))"
    using quiet_repos(6) [of db "pg_now E 0" hid]
    by (auto simp: delete_home_def unless_not_found_def split: sum.split prod.split)
  show "quiet db (snd (assign_community E token hid cid db))"
    by (auto simp: assign_community_def repo_assign_community_def split: sum.split dest: quiet_statements)
  show "quiet db (snd (remove_community E token hid cid db))"
    by (simp add: remove_community_def unless_not_found_def repo_remove_community_def Let_def split: sum.split)
qed

lemma quiet_community_endpoints [quiet_intros]:
  "quiet db (snd (create_community E token cc db))" "quiet db (snd (update_community E token cid cu db))"
  "quiet db (snd (delete_community E token cid db))"
proof -
  show "quiet db (snd (create_community E token cc db))"
    using quiet_repos(7) by (simp add: create_community_def split: sum.split option.split)
  show "quiet db (snd (update_community E token cid cu db))"
    using quiet_repos(8) [of db "pg_now E 0" cid "change_community cu"]
    by (auto simp: update_community_def or_not_found_def split: sum.split option.split prod.split)
  show "quiet db (snd (delete_community E token cid db))"
    using quiet_repos(9) [of db "pg_now E 0" cid]
    by (auto simp: delete_community_def unless_not_found_def split: sum.split prod.split)
qed

lemma quiet_write_group: "write_group now p g db = Inr db' \<Longrightarrow> quiet db db'"
  unfolding write_group_def
  by (auto split: if_splits sum.splits option.splits dest!: quiet_statements quiet_trans [OF quiet_updates(3)]
      intro: quiet_trans)

lemma quiet_group_endpoints [quiet_intros]:
  "quiet db (snd (create_group E token gc db))" "quiet db (snd (update_group E token gid gu db))"
  "quiet db (snd (delete_group E token gid db))"
proof -
  have ins: "quiet db db2" if "insert_group g db = (r, db1)" "insert_members i ids db1 = Inr db2" for g r db1 i ids db2
    using that quiet_statements(6,15) quiet_trans by blast
  show "quiet db (snd (create_group E token gc db))"
    by (auto simp: create_group_def split: sum.split prod.split dest: ins)
  have "quiet db db2" if "write_group now p g db = Inr db1" "audit_service_log E k u a r d db1 = (x, db2)" for now p g db1 k u a r d x db2
    using quiet_audit_after [OF quiet_write_group [OF that(1)], of E k u a r d] that(2) by simp
  then show "quiet db (snd (update_group E token gid gu db))"
    by (auto simp: update_group_def split: sum.split option.split prod.split)
  show "quiet db (snd (delete_group E token gid db))"
    by (simp add: delete_group_def split: sum.split option.split)
qed

lemma quiet_check_dead [quiet_intros]: "quiet db (fst (snd (check_dead_devices E db)))"
  by (simp add: check_dead_devices_def Let_def)

lemma quiet_provision [quiet_intros]: "quiet db (snd (provision E B token ty db))"
proof -
  have "quiet db db2" if "insert_device d db = Inr db1" "insert_job j db1 = Inr db2" for d db1 j db2
    using that quiet_statements(1,5) quiet_trans by blast
  then show ?thesis by (auto simp: provision_def start_job_def Let_def split: sum.split)
qed

text \<open>A provisioning run writes its job and nothing else, and keeps the schema, however it ends.\<close>

definition run_safe :: "db \<Rightarrow> run \<Rightarrow> bool" where
  "run_safe db0 s \<longleftrightarrow> quiet db0 (ru_db s) \<and> (db_wf db0 \<longrightarrow> db_wf (ru_db s))"

lemma run_safe_files [simp]: "run_safe db0 (s\<lparr>ru_files := fs\<rparr>) = run_safe db0 s"
  by (simp add: run_safe_def)

lemma commit_job_safe: "commit_job E job s = Inr s' \<Longrightarrow> run_safe db0 s \<Longrightarrow> run_safe db0 s'"
  by (auto simp: commit_job_def run_safe_def Let_def split: if_splits sum.splits
      dest: quiet_statements(10) quiet_trans db_wf_flush_job)

lemma set_status_safe: "set_status E st s = Inr s' \<Longrightarrow> run_safe db0 s \<Longrightarrow> run_safe db0 s'"
  unfolding set_status_def by (rule commit_job_safe)

lemma finish_safe: "finish E err s = (r, s') \<Longrightarrow> run_safe db0 s \<Longrightarrow> run_safe db0 s'"
  by (auto simp: finish_def fail_job_def split: sum.splits dest: commit_job_safe)

lemma build_safe: "build E B d s = (r, s') \<Longrightarrow> run_safe db0 s \<Longrightarrow> run_safe db0 s'"
  unfolding build_def Let_def
  by (auto split: sum.splits prod.splits dest!: set_status_safe commit_job_safe)

lemma run_job_safe:
  "quiet db (fst (snd (snd (run_job E B jid db fs)))) \<and>
   (db_wf db \<longrightarrow> db_wf (fst (snd (snd (run_job E B jid db fs)))))"
proof (cases "lookup_key j_id jid (provision_jobs db)")
  case (Some job)
  let ?s = "\<lparr> ru_job = job, ru_db = db, ru_commits = [], ru_files = fs, ru_txn = 0 \<rparr>"
  have s: "run_safe db ?s" by (simp add: run_safe_def)
  obtain r s' where res: "run_job E B jid db fs = (r, ru_commits s', ru_db s', ru_files s')" and s': "run_safe db s'"
  proof (cases "lookup_key d_device_id (j_device_id job) (devices db)")
    case None
    obtain r s' where f: "finish E ''device row missing'' ?s = (r, s')" by fastforce
    then show ?thesis using that [of r s'] finish_safe [OF f s] Some None by (simp add: run_job_def)
  next
    case dev: (Some d)
    obtain b s1 where b: "build E B d ?s = (b, s1)" by fastforce
    note s1 = build_safe [OF b s]
    consider "b = None" | err where "b = Some (Failed err)" | e where "b = Some (Broken e)"
      by (metis build_failure.exhaust option.exhaust)
    then show ?thesis
    proof cases
      case 2
      obtain r s2 where f: "finish E err s1 = (r, s2)" by fastforce
      then show ?thesis using that [of r s2] finish_safe [OF f s1] Some dev b 2 by (simp add: run_job_def)
    qed (use that [of _ s1] s1 Some dev b in \<open>simp_all add: run_job_def\<close>)
  qed
  then show ?thesis by (simp add: run_safe_def)
qed (simp add: run_job_def)

section \<open>Operations on accounts\<close>

lemma archive_audit [simp]: "archive db db' \<Longrightarrow> archive db (snd (audit_service_log E k u a r d db'))"
  using archive_trans quiet_archive [OF quiet_audit] by blast

lemma archive_users:
  "history user_step (users db) us \<Longrightarrow> archive db (db\<lparr>users := us\<rparr>)"
  by (simp add: archive_def chronicle_def frozen_tables_def)

lemma insert_user_archive: "insert_user u db = Inr db' \<Longrightarrow> archive db db'"
  using archive_users [OF user_history.append [of "users db" "[u]"]] by (auto dest: insert_InrD)

lemma flush_user_db: "flush_user u db = Inr db' \<Longrightarrow> db' = db\<lparr>users := replace_row u_id u (users db)\<rparr>"
  by (simp add: flush_user_def split: if_splits)

lemma flush_user_archive:
  assumes "db_wf db" "r \<in> set (users db)" "user_step r u" "flush_user u db = Inr db'"
  shows "archive db db'"
proof -
  have "distinct (map u_id (users db))" using db_wfD(1) [OF assms(1)] by (simp add: users_wf_def)
  then have "history user_step (users db) (replace_row u_id u (users db))"
    using assms(2,3) by (intro user_history.replace_row [of u_id _ r]) (simp_all add: user_step_def)
  then show ?thesis using flush_user_db [OF assms(4)] archive_users by simp
qed

lemma archive_login: "archive db (snd (login E email pw db))"
  by (simp add: login_def Let_def split: list.split)

lemma archive_create_user: "archive db (snd (create_user E token p db))"
  by (auto simp: create_user_def Let_def split: sum.split dest: insert_user_archive)

lemma archive_change_my_password:
  assumes "db_wf db"
  shows "archive db (snd (change_my_password E token cur new db))"
proof -
  have "archive db db1" if "require_auth E token db = Inr u" "flush_user (u\<lparr>u_hashed_password := h\<rparr>) db = Inr db1" for u h db1
    using flush_user_archive [OF assms require_auth_InrD(1) [OF that(1)] _ that(2)] by (simp add: user_step_def)
  then show ?thesis by (auto simp: change_my_password_def split: sum.split)
qed

lemma archive_update_user:
  assumes "db_wf db"
  shows "archive db (snd (update_user E token uid p db))"
proof -
  have fl: "archive db db1" if "lookup_key u_id k (users db) = Some t" "flush_user u db = Inr db1" "user_step t u" for k t u db1
    using flush_user_archive [OF assms conjunct1 [OF lookup_key_SomeD [OF that(1)]] that(3,2)] .
  show ?thesis
    by (auto simp: update_user_def Let_def split: sum.split option.split intro!: archive_audit)
       (erule fl, assumption, simp add: user_step_def)+
qed

lemma archive_reset_user_password:
  assumes "db_wf db"
  shows "archive db (snd (reset_user_password E token uid db))"
proof -
  have "archive db db1" if "lookup_key u_id k (users db) = Some t"
      "flush_user (t\<lparr>u_hashed_password := h\<rparr>) db = Inr db1" for k t h db1
    using flush_user_archive [OF assms conjunct1 [OF lookup_key_SomeD [OF that(1)]] _ that(2)] by (simp add: user_step_def)
  then show ?thesis by (auto simp: reset_user_password_def Let_def split: sum.split option.split)
qed

text \<open>Passwords have no influence on who administers the server, and creating an account takes nobody away.\<close>

lemma password_keeps_admins:
  assumes "db_wf db" "1 \<le> count_active_admins db" "t \<in> set (users db)"
    and "users db' = replace_row u_id (t\<lparr>u_hashed_password := h\<rparr>) (users db)"
  shows "1 \<le> count_active_admins db'"
proof -
  obtain u where u: "u \<in> set (users db)" "u_role u = ''admin''" "u_is_active u"
    using assms(2) unfolding count_active_admins_pos by blast
  have "\<exists>v \<in> set (replace_row u_id (t\<lparr>u_hashed_password := h\<rparr>) (users db)). u_role v = ''admin'' \<and> u_is_active v"
  proof (cases "u_id u = u_id t")
    case True
    then have t: "t = u"
      using users_lookup [OF assms(1) u(1)] users_lookup [OF assms(1,3)] by (metis option.inject)
    have "t\<lparr>u_hashed_password := h\<rparr> \<in> set (replace_row u_id (t\<lparr>u_hashed_password := h\<rparr>) (users db))"
      using assms(3) by (rule replace_row_mem) simp
    then show ?thesis by (rule bexI [rotated]) (simp add: t u(2,3))
  next
    case False
    then show ?thesis by (intro active_admin_survives [OF u]) simp
  qed
  then show ?thesis unfolding count_active_admins_pos assms(4) .
qed

lemma change_my_password_admins:
  assumes "db_wf db" "1 \<le> count_active_admins db"
  shows "1 \<le> count_active_admins (snd (change_my_password E token cur new db))"
proof -
  have "1 \<le> count_active_admins (snd (audit_service_log E k a c d e db1))"
    if "require_auth E token db = Inr u" "flush_user (u\<lparr>u_hashed_password := h\<rparr>) db = Inr db1" for u h db1 k a c d e
    using password_keeps_admins [OF assms require_auth_InrD(1) [OF that(1)]] flush_user_users [OF that(2)] by simp
  with assms(2) show ?thesis by (auto simp: change_my_password_def split: sum.split)
qed

lemma reset_user_password_admins:
  assumes "db_wf db" "1 \<le> count_active_admins db"
  shows "1 \<le> count_active_admins (snd (reset_user_password E token uid db))"
proof -
  have "1 \<le> count_active_admins (snd (audit_service_log E k a c d e db1))"
    if "lookup_key u_id i (users db) = Some t" "flush_user (t\<lparr>u_hashed_password := h\<rparr>) db = Inr db1" for i t h db1 k a c d e
    using password_keeps_admins [OF assms conjunct1 [OF lookup_key_SomeD [OF that(1)]]] flush_user_users [OF that(2)] by simp
  with assms(2) show ?thesis by (auto simp: reset_user_password_def Let_def split: sum.split option.split)
qed

lemma create_user_admins:
  assumes "1 \<le> count_active_admins db"
  shows "1 \<le> count_active_admins (snd (create_user E token p db))"
proof -
  have "1 \<le> count_active_admins (snd (audit_service_log E k a c d e db1))" if "insert_user u db = Inr db1" for u db1 k a c d e
    using assms insert_InrD(5) [OF that] unfolding count_active_admins_pos by auto
  with assms show ?thesis by (auto simp: create_user_def Let_def split: sum.split)
qed

section \<open>Firmware, rollouts and the scheduler\<close>

text \<open>The tables the OTA service and the scheduler never write to.\<close>

definition ota_frame :: "db \<Rightarrow> db \<Rightarrow> bool" where
  "ota_frame db db' \<longleftrightarrow> users db' = users db \<and> broadcasts db' = broadcasts db \<and>
     broadcast_acks db' = broadcast_acks db \<and> firmware_versions db' = firmware_versions db"

lemma ota_frame_refl [simp]: "ota_frame db db"
  by (simp add: ota_frame_def)

lemma ota_frame_trans: "ota_frame db db' \<Longrightarrow> ota_frame db' db'' \<Longrightarrow> ota_frame db db''"
  by (simp add: ota_frame_def)

lemma ota_frame_archive: "ota_frame db db' \<Longrightarrow> chronicle db db' \<Longrightarrow> archive db db'"
  by (simp add: ota_frame_def archive_def frozen_tables_def)

lemma ota_frame_steps [simp]:
  "ota_frame db (rollback db' db'') = ota_frame db db'"
  "ota_frame db (snd (audit_service_log E k u a r d db')) = ota_frame db db'"
  "ota_frame db (snd (insert_event e db')) = ota_frame db db'"
  "ota_frame db (snd (insert_rollout ro db')) = ota_frame db db'"
  "ota_frame db (db'\<lparr>ota_events := es\<rparr>) = ota_frame db db'"
  by (simp_all add: ota_frame_def rollback_def insert_event_def insert_rollout_def Let_def)

lemma ota_frame_flush: "flush_rollout r db = Inr db' \<Longrightarrow> ota_frame db db'"
  by (auto simp: ota_frame_def flush_rollout_def split: if_splits)

lemma ota_frame_create_events: "ota_frame db (snd (create_events E k v ds db))"
proof (induction ds arbitrary: db)
  case (Cons d ds)
  have ins: "ota_frame db db1" if "insert_event e db = (r, db1)" for e r db1
    using ota_frame_steps(3) [of db e db] that by simp
  have "ota_frame db1 db2" if "create_events E k v ds db1 = (r, db2)" for r db1 db2
    using Cons.IH [of db1] that by simp
  then show ?case by (auto split: option.split sum.split prod.split dest: ins intro: ota_frame_trans)
qed simp

lemma ota_frame_start_rollout: "ota_frame db (fst (snd (start_rollout E k q db)))"
proof -
  have "ota_frame db db1" if "create_events E k v ds db = (r, db1)" for v ds r db1
    using ota_frame_create_events [of db E k v ds] that by simp
  then show ?thesis
    by (auto simp: start_rollout_def simp del: create_events.simps publish_commands.simps
        split: option.split sum.split list.split prod.split)
qed

lemma archive_start_rollout: "archive db (fst (snd (start_rollout E k q db)))"
  by (rule ota_frame_archive [OF ota_frame_start_rollout adds_events_chronicle [OF adds_events_start_rollout]])

lemma archive_api_start_rollout:
  "archive db (fst (snd (api_start_rollout E token q db)))" "users (fst (snd (api_start_rollout E token q db))) = users db"
proof -
  have s: "archive db db1 \<and> users db1 = users db" if "start_rollout E k q db = (r, db1, ms)" for k r db1 ms
    using archive_start_rollout [of db E k q] ota_frame_start_rollout [of db E k q] that by (simp add: ota_frame_def)
  then show "archive db (fst (snd (api_start_rollout E token q db)))"
    "users (fst (snd (api_start_rollout E token q db))) = users db"
    by (auto simp: api_start_rollout_def Let_def split: sum.split prod.split)
qed

lemma archive_api_abort_rollout:
  "archive db (snd (api_abort_rollout E token v db))" "users (snd (api_abort_rollout E token v db)) = users db"
proof -
  have "history event_step (ota_events db) (update_where (\<lambda>e. e_to_version e = v \<and> event_active e) (\<lambda>e. e\<lparr>e_status := ''cancelled''\<rparr>) (ota_events db))"
    by (rule event_history.update_where) (simp add: event_step_def)
  then have "archive db (snd (abort_rollout v db))"
    by (intro ota_frame_archive) (simp_all add: abort_rollout_def Let_def chronicle_def)
  then show "archive db (snd (api_abort_rollout E token v db))" "users (snd (api_abort_rollout E token v db)) = users db"
    by (simp_all add: api_abort_rollout_def abort_rollout_def Let_def split: sum.split)
qed

lemma archive_upload_firmware:
  "archive db (fst (snd (upload_firmware E token v n c db fs)))" "users (fst (snd (upload_firmware E token v n c db fs))) = users db"
proof -
  have ins: "archive db db1 \<and> users db1 = users db" if "insert_firmware f db = (r, db1)" for f r db1
    using that audit_history.append [of "firmware_versions db"]
    by (auto simp: insert_firmware_def Let_def archive_def chronicle_def frozen_tables_def split: if_splits)
  have up: "archive db db1 \<and> users db1 = users db" if "upload E v c n db fs = (r, db1, fs1)" for r db1 fs1
    using that by (auto simp: upload_def Let_def split: if_splits prod.splits dest: ins)
  show "archive db (fst (snd (upload_firmware E token v n c db fs)))" "users (fst (snd (upload_firmware E token v n c db fs))) = users db"
    by (auto simp: upload_firmware_def Let_def split: sum.split prod.split dest: up)
qed

lemma archive_scheduled:
  assumes "db_wf db"
  shows "archive db (snd (create_scheduled E token p db))" "users (snd (create_scheduled E token p db)) = users db"
    "archive db (snd (cancel_scheduled E token i db))" "users (snd (cancel_scheduled E token i db)) = users db"
proof -
  have ins: "ota_frame db db1" if "insert_rollout r db = (x, db1)" for r x db1
    using ota_frame_steps(4) [of db r db] that by simp
  have c: "ota_frame db (snd (create_scheduled E token p db))"
    by (auto simp: create_scheduled_def split: sum.split prod.split dest: ins)
  have d: "ota_frame db (snd (cancel_scheduled E token i db))"
    by (auto simp: cancel_scheduled_def split: sum.split option.split dest: ota_frame_flush)
  show "archive db (snd (create_scheduled E token p db))" "archive db (snd (cancel_scheduled E token i db))"
    using ota_frame_archive c d create_scheduled_inv [OF assms] cancel_scheduled_inv [OF assms] by blast+
  show "users (snd (create_scheduled E token p db)) = users db" "users (snd (cancel_scheduled E token i db)) = users db"
    using c d by (simp_all add: ota_frame_def)
qed

text \<open>Through the loop over due rollouts.\<close>

definition sweep_frame :: "db \<Rightarrow> sweep \<Rightarrow> bool" where
  "sweep_frame db0 s \<longleftrightarrow> ota_frame db0 (sw_committed s) \<and> ota_frame db0 (sw_working s)"

lemma fail_row_frame: "sweep_frame db0 s \<Longrightarrow> sweep_frame db0 (snd (fail_row row err s))"
  by (auto simp: fail_row_def sweep_frame_def split: sum.split dest: ota_frame_flush intro: ota_frame_trans)

lemma fire_row_frame:
  assumes "sweep_frame db0 s"
  shows "sweep_frame db0 (snd (fire_row E row s))"
proof -
  obtain r db1 ms where run: "start_rollout E (sw_txn s) (request_of row) (sw_working s) = (r, db1, ms)"
    by (cases "start_rollout E (sw_txn s) (request_of row) (sw_working s)")
  have db1: "ota_frame db0 db1"
    using ota_frame_trans [OF _ ota_frame_start_rollout [of "sw_working s" E "sw_txn s" "request_of row"]] run assms
    by (simp add: sweep_frame_def)
  have commit: "sweep_frame db0 (s\<lparr>sw_committed := db1, sw_working := db1, sw_txn := n, sw_sent := m\<rparr>)" for n m
    using db1 by (simp add: sweep_frame_def)
  have flush: "ota_frame db0 db3" if "flush_rollout ro w = Inr db2" "audit_service_log E k u a x d db2 = (y, db3)" "ota_frame db0 w"
    for ro w db2 k u a x d y db3
    using ota_frame_trans [OF that(3) ota_frame_flush [OF that(1)]] ota_frame_steps(2) [of db0 E k u a x d db2] that(2) by simp
  show ?thesis
  proof (cases r)
    case (Inl e)
    then show ?thesis
      using run assms db1 fail_row_frame [OF assms] fail_row_frame [OF commit]
      by (cases e) (simp_all add: fire_row_def sweep_frame_def)
  next
    case (Inr events)
    then show ?thesis
      using run assms db1
      by (auto simp: fire_row_def Let_def sweep_frame_def split: sum.split prod.split dest: flush)
  qed
qed

lemma fire_rows_frame: "sweep_frame db0 s \<Longrightarrow> sweep_frame db0 (snd (fire_rows E rows s))"
proof (induction rows arbitrary: s)
  case (Cons row rows)
  obtain eo s1 where run: "fire_row E row s = (eo, s1)" by (cases "fire_row E row s")
  then have "sweep_frame db0 s1" using fire_row_frame [OF Cons.prems, of E row] by simp
  then show ?case using run Cons.IH by (simp split: option.split)
qed simp

lemma archive_fire_due:
  assumes "db_wf db" "scan_ok E"
  shows "archive db (fst (snd (fire_due_scheduled_rollouts E db)))"
    and "users (fst (snd (fire_due_scheduled_rollouts E db))) = users db"
proof -
  have "sweep_frame db (start_sweep db)" by (simp add: sweep_frame_def start_sweep_def)
  from fire_rows_frame [OF this]
  have f: "ota_frame db (fst (snd (fire_due_scheduled_rollouts E db)))"
    by (auto simp: fire_due_scheduled_rollouts_def sweep_frame_def split: prod.split option.split)
       (metis fst_conv snd_conv)+
  then show "archive db (fst (snd (fire_due_scheduled_rollouts E db)))"
    using fire_due_inv [OF assms] ota_frame_archive by blast
  show "users (fst (snd (fire_due_scheduled_rollouts E db))) = users db" using f by (simp add: ota_frame_def)
qed

section \<open>Broadcasts\<close>

lemma archive_make_broadcasts:
  "archive db (snd (make_broadcasts E k p ids db)) \<and> users (snd (make_broadcasts E k p ids db)) = users db"
proof (induction ids arbitrary: k db)
  case (Cons c ids)
  have ins: "archive db db1 \<and> users db1 = users db" if "insert_broadcast b db = (r, db1)" for b r db1
    using that audit_history.append [of "broadcasts db"]
    by (auto simp: insert_broadcast_def Let_def archive_def chronicle_def frozen_tables_def split: if_splits)
  have "archive db1 db2 \<and> users db2 = users db1" if "make_broadcasts E k p ids db1 = (r, db2)" for k r db1 db2
    using Cons.IH [of db1 k] that by simp
  then show ?case
    using Cons.IH by (auto split: sum.split prod.split dest!: ins intro: archive_trans)
qed simp

lemma archive_rollback: "archive db (rollback db db')"
  by (rule quiet_archive) simp

lemma archive_send_broadcast:
  "archive db (fst (snd (send_broadcast E token p db)))" "users (fst (snd (send_broadcast E token p db))) = users db"
proof -
  have "archive db db1 \<and> users db1 = users db" if "make_broadcasts E k p ids db = (r, db1)" for k ids r db1
    using archive_make_broadcasts [of db E k p ids] that by simp
  moreover have "users (rollback db db') = users db" for db' by (simp add: rollback_def)
  ultimately show "archive db (fst (snd (send_broadcast E token p db)))"
    "users (fst (snd (send_broadcast E token p db))) = users db"
    using archive_rollback by (auto simp: send_broadcast_def broadcast_send_def split: sum.split prod.split)
qed

lemma archive_acknowledge:
  "archive db (snd (acknowledge_broadcast E token i p db))" "users (snd (acknowledge_broadcast E token i p db)) = users db"
proof -
  have ins: "archive db db1 \<and> users db1 = users db" if "insert_ack a db = (r, db1)" for a r db1
    using that audit_history.append [of "broadcast_acks db"]
    by (auto simp: insert_ack_def Let_def archive_def chronicle_def frozen_tables_def split: if_splits)
  have "users (rollback db db') = users db" for db' by (simp add: rollback_def)
  then show "archive db (snd (acknowledge_broadcast E token i p db))"
    "users (snd (acknowledge_broadcast E token i p db)) = users db"
    using archive_rollback
    by (auto simp: acknowledge_broadcast_def record_ack_def split: sum.split option.split prod.split dest: ins)
qed

section \<open>Device messages and the seed script\<close>

text \<open>A message of a device can change homes, devices and OTA events only.\<close>

definition device_frame :: "db \<Rightarrow> db \<Rightarrow> bool" where
  "device_frame db db' \<longleftrightarrow> ota_frame db db' \<and> scheduled_rollouts db' = scheduled_rollouts db \<and> audit_log db' = audit_log db"

lemma device_frame_archive: "device_frame db db' \<Longrightarrow> events_evolve db db' \<Longrightarrow> archive db db'"
  by (auto simp: device_frame_def chronicle_def intro: ota_frame_archive)

lemma device_frame_refl [simp]: "device_frame db db" "device_frame db (db\<lparr>devices := ds\<rparr>)"
  by (simp_all add: device_frame_def ota_frame_def)

lemma device_frame_steps:
  "insert_device d db = Inr db' \<Longrightarrow> device_frame db db'" "flush_device d db = Inr db' \<Longrightarrow> device_frame db db'"
  "insert_home h db = Inr db' \<Longrightarrow> device_frame db db'" "flush_event e db = Inr db' \<Longrightarrow> device_frame db db'"
  "update_firmware t n v db = Inr db' \<Longrightarrow> device_frame db db'"
  by (auto simp: device_frame_def ota_frame_def insert_device_def flush_device_def insert_home_def flush_event_def
      update_firmware_def split: if_splits)

lemma device_frame_trans: "device_frame db db' \<Longrightarrow> device_frame db' db'' \<Longrightarrow> device_frame db db''"
  by (auto simp: device_frame_def intro: ota_frame_trans)

lemma device_frame_promote: "device_frame db (snd (promote_ota E n db))"
  by (auto simp: promote_ota_def Let_def split: option.split sum.split dest!: device_frame_steps
      intro: device_frame_trans)

lemma device_frame_heartbeat: "device_frame db (snd (handle_heartbeat E n raw db))"
proof -
  have "device_frame db db2" if "promote_ota E n (db\<lparr>devices := ds\<rparr>) = (r, db2)" for ds r db2
    using device_frame_trans [OF device_frame_refl(2) device_frame_promote] that by (metis snd_conv)
  moreover have "device_frame db (snd (promote_ota E n (db\<lparr>devices := ds\<rparr>)))" for ds
    using device_frame_trans [OF device_frame_refl(2) device_frame_promote] .
  ultimately show ?thesis
    by (auto simp: handle_heartbeat_def Let_def split: option.split sum.split bool.split prod.split
        dest: device_frame_steps)
qed

lemma device_frame_registration: "device_frame db (snd (handle_registration E n raw db))"
proof -
  have e: "device_frame db db1" if "ensure_home E hid db = Inr db1" for hid db1
    using that by (auto simp: ensure_home_def split: option.splits if_splits dest: device_frame_steps)
  have w: "device_frame db1 db2" if "write_registration E n reg db1 = Inr (d, db2)" for reg db1 d db2
    using that
    by (auto simp: write_registration_def Let_def split: option.splits sum.splits if_splits dest: device_frame_steps)
  show ?thesis
    by (auto simp: handle_registration_def split: option.split sum.split intro: device_frame_trans dest!: e w)
qed

lemma device_frame_ota_status: "device_frame db (snd (handle_ota_status E n raw db))"
  by (auto simp: handle_ota_status_def split: option.split sum.split dest!: device_frame_steps
      intro: device_frame_trans)

lemma archive_on_message:
  assumes "db_wf db" "scan_ok E" "bind_ok E"
  shows "archive db (snd (on_message E topic payload db))" "users (snd (on_message E topic payload db)) = users db"
proof -
  have f: "device_frame db (snd (on_message E topic payload db))"
    by (auto simp: on_message_def split: option.split route.split
        intro: device_frame_heartbeat device_frame_registration device_frame_ota_status)
  have "events_evolve db (snd (on_message E topic payload db))"
    using assms
    by (auto simp: on_message_def split: option.split route.split
        intro: handle_heartbeat_evolves handle_ota_status_evolves)
  with f show "archive db (snd (on_message E topic payload db))" by (rule device_frame_archive)
  show "users (snd (on_message E topic payload db)) = users db"
    using f by (simp add: device_frame_def ota_frame_def)
qed

lemma archive_seed: "archive db (snd (seed E db))"
proof -
  obtain r db' where r: "seed_rows E db = (r, db')" by fastforce
  show ?thesis
  proof (cases r)
    case (Inr u)
    have "archive db db'"
      using seed_rows_tables [of E db u db'] r Inr user_history.append [of "users db"] audit_history.append [of "firmware_versions db"]
      by (simp add: archive_def chronicle_def frozen_tables_def)
    with r Inr show ?thesis by (simp add: seed_def)
  qed (use r archive_rollback in \<open>simp add: seed_def\<close>)
qed

lemma seed_admins:
  assumes "1 \<le> count_active_admins db"
  shows "1 \<le> count_active_admins (snd (seed E db))"
proof -
  obtain r db' where r: "seed_rows E db = (r, db')" by fastforce
  have "\<exists>us. users (snd (seed E db)) = users db @ us"
  proof (cases r)
    case (Inr u)
    with r show ?thesis using seed_rows_tables [of E db u db'] by (simp add: seed_def)
  qed (use r in \<open>simp add: seed_def rollback_def\<close>)
  with assms show ?thesis unfolding count_active_admins_pos by fastforce
qed

section \<open>The schema under the remaining endpoints\<close>

lemma db_wf_home_endpoints [wf_intros]:
  assumes "db_wf db"
  shows "db_wf (snd (create_home E token hc db))" "db_wf (snd (update_home E token hid hu db))"
    "db_wf (snd (delete_home E token hid db))" "db_wf (snd (assign_community E token hid cid db))"
    "db_wf (snd (remove_community E token hid cid db))"
proof -
  show "db_wf (snd (create_home E token hc db))"
    using assms home_repo.wf(1) [OF assms] by (simp add: create_home_def split: sum.split option.split)
  show "db_wf (snd (update_home E token hid hu db))"
    using assms home_repo.wf(2) [OF assms, of "pg_now E 0" hid "change_home hu"]
    by (auto simp: update_home_def or_not_found_def split: sum.split option.split prod.split)
  show "db_wf (snd (delete_home E token hid db))"
    using assms home_repo.wf(3) [OF assms, of "pg_now E 0" hid]
    by (auto simp: delete_home_def unless_not_found_def split: sum.split prod.split)
  show "db_wf (snd (assign_community E token hid cid db))"
    using assms by (auto simp: assign_community_def repo_assign_community_def split: sum.split dest: db_wf_insert_home_community)
  have "home_community_wf (delete_where (\<lambda>p. fst p = hid \<and> snd p = cid) (home_community db)) (home_keys db) (community_keys db)"
    using db_wfD(5) [OF assms] by (simp add: home_community_wf_def distinct_delete_where fk_delete_where)
  then show "db_wf (snd (remove_community E token hid cid db))"
    using assms by (simp add: remove_community_def unless_not_found_def repo_remove_community_def Let_def
        db_wf_set_home_community split: sum.split)
qed

lemma db_wf_community_endpoints [wf_intros]:
  assumes "db_wf db"
  shows "db_wf (snd (create_community E token cc db))" "db_wf (snd (update_community E token cid cu db))"
    "db_wf (snd (delete_community E token cid db))"
proof -
  show "db_wf (snd (create_community E token cc db))"
    using assms community_repo.wf(1) [OF assms] by (simp add: create_community_def split: sum.split option.split)
  show "db_wf (snd (update_community E token cid cu db))"
    using assms community_repo.wf(2) [OF assms, of "pg_now E 0" cid "change_community cu"]
    by (auto simp: update_community_def or_not_found_def split: sum.split option.split prod.split)
  show "db_wf (snd (delete_community E token cid db))"
    using assms community_repo.wf(3) [OF assms, of "pg_now E 0" cid]
    by (auto simp: delete_community_def unless_not_found_def split: sum.split prod.split)
qed

lemma db_wf_device_endpoints [wf_intros]:
  assumes "db_wf db"
  shows "db_wf (snd (create_device E token dc db))" "db_wf (snd (update_device E token did du db))"
    "db_wf (snd (delete_device E token did db))"
proof -
  have sn: "r = (x, db') \<Longrightarrow> db_wf (snd r) \<Longrightarrow> db_wf db'" for r :: "'a \<times> db" and x db' by simp
  show "db_wf (snd (create_device E token dc db))"
    using assms by (auto simp: create_device_def split: sum.split option.split prod.split dest: sn [OF _ device_repo.wf(1) [OF assms]])
  show "db_wf (snd (update_device E token did du db))"
    using assms by (auto simp: update_device_def split: sum.split option.split prod.split dest: sn [OF _ device_repo.wf(2) [OF assms]])
  show "db_wf (snd (delete_device E token did db))"
    using assms by (auto simp: delete_device_def split: sum.split option.split prod.split dest: sn [OF _ device_repo.wf(3) [OF assms]])
qed

lemma insert_seqs:
  "insert_group g db = (r, db1) \<Longrightarrow> seqs_le (sequences db) (sequences db1)"
  "insert_ack a db = (r', db1) \<Longrightarrow> seqs_le (sequences db) (sequences db1)"
  "insert_broadcast b db = (r'', db1) \<Longrightarrow> seqs_le (sequences db) (sequences db1)"
  by (auto simp: insert_group_def insert_ack_def insert_broadcast_def Let_def seqs_le_def split: if_splits)

lemma db_wf_group_endpoints [wf_intros]:
  assumes "db_wf db"
  shows "db_wf (snd (create_group E token gc db))" "db_wf (snd (update_group E token gid gu db))"
    "db_wf (snd (delete_group E token gid db))"
proof -
  have rb: "db_wf (rollback db db1)" if "insert_group g db = (r, db1)" for g r db1
    using db_wf_rollback [OF assms insert_seqs(1) [OF that]] .
  have ins: "db_wf db2" if "insert_group g db = (r, db1)" "insert_members i ids db1 = Inr db2" for g r db1 i ids db2
    using db_wf_insert_members [OF db_wf_insert_group [OF assms that(1)] that(2)] .
  show "db_wf (snd (create_group E token gc db))"
    using assms by (auto simp: create_group_def split: sum.split prod.split dest: ins rb)
  have "db_wf db2" if "write_group now p g db = Inr db1" "audit_service_log E k u a r d db1 = (x, db2)" for now p g db1 k u a r d x db2
    using db_wf_audit_service_log [OF db_wf_write_group [OF assms that(1)], of E k u a r d] that(2) by simp
  then show "db_wf (snd (update_group E token gid gu db))"
    using assms by (auto simp: update_group_def split: sum.split option.split prod.split)
  show "db_wf (snd (delete_group E token gid db))"
    using assms by (simp add: delete_group_def db_wf_delete_group split: sum.split option.split)
qed

lemma make_broadcasts_wf:
  assumes "db_wf db"
  shows "db_wf (snd (make_broadcasts E k p ids db)) \<and> seqs_le (sequences db) (sequences (snd (make_broadcasts E k p ids db)))"
  using assms
proof (induction ids arbitrary: k db)
  case (Cons c ids)
  have ins: "db_wf db1 \<and> seqs_le (sequences db) (sequences db1)" if "insert_broadcast b db = (r, db1)" for b r db1
    using db_wf_insert_broadcast [OF Cons.prems that] insert_seqs(3) [OF that] by blast
  have "db_wf db2 \<and> seqs_le (sequences db1) (sequences db2)" if "make_broadcasts E k p ids db1 = (r, db2)" "db_wf db1" for k r db1 db2
    using Cons.IH [OF that(2), of k] that(1) by simp
  then show ?case
    using Cons by (auto split: sum.split prod.split dest!: ins) (meson seqs_le_trans)+
qed simp

lemma db_wf_broadcast_endpoints [wf_intros]:
  assumes "db_wf db"
  shows "db_wf (fst (snd (send_broadcast E token p db)))" "db_wf (snd (acknowledge_broadcast E token i a db))"
proof -
  have "db_wf db1 \<and> db_wf (rollback db db1)" if "make_broadcasts E k p ids db = (r, db1)" for k ids r db1
    using make_broadcasts_wf [OF assms, of E k p ids] that db_wf_rollback [OF assms] by simp
  then show "db_wf (fst (snd (send_broadcast E token p db)))"
    using assms by (auto simp: send_broadcast_def broadcast_send_def split: sum.split prod.split)
  have "db_wf db1 \<and> db_wf (rollback db db1)" if "insert_ack x db = (r, db1)" for x r db1
    using db_wf_insert_ack [OF assms that] db_wf_rollback [OF assms insert_seqs(2) [OF that]] by blast
  then show "db_wf (snd (acknowledge_broadcast E token i a db))"
    using assms by (auto simp: acknowledge_broadcast_def record_ack_def split: sum.split option.split prod.split)
qed

lemma db_wf_provision [wf_intros]: "db_wf db \<Longrightarrow> db_wf (snd (provision E B token ty db))"
  by (simp add: provision_def db_wf_start_job split: sum.split)

end
