(* ===== verification/Http_Server.thy ===== *)
theory Http_Server
  imports Audit_Log Mqtt_Handlers Scheduler
begin

text \<open>
  What surrounds the handlers: the middleware stack of \<^verbatim>\<open>main.py\<close> (\<^verbatim>\<open>middleware/request_id.py\<close>,
  \<^verbatim>\<open>middleware/logging_middleware.py\<close>, \<^verbatim>\<open>middleware/error_handler.py\<close>), the health endpoint, and the
  connection life cycle of \<^verbatim>\<open>mqtt/client.py\<close> that the application's lifespan drives. A middleware
  is a function of the \<open>call_next\<close> below it. The framework's rules, as documented, are three: the middleware
  added last is the outermost; a context variable set inside a middleware is seen by what it calls
  and not by what called it; an exception that has a handler of its own is answered inside the
  stack, any other one by the error layer around it, which answers 500 and logs. Cross-origin preflight requests, which
  the outermost middleware answers by itself, are left out.
\<close>

section \<open>Requests, responses, log lines\<close>

record http_request =
  rq_method :: string
  rq_path :: string
  rq_request_id :: "string option"
  rq_client :: "string option"

text \<open>
  A body is the endpoint's own payload, a detail (with the request id where the server's handlers
  add one), or the framework's list of validation errors.
\<close>

datatype body = Payload json | Detail string | DetailId string string | ValidationErrors

record http_response =
  rs_status :: nat
  rs_body :: body
  rs_request_id :: "string option"

datatype level = INFO | WARNING | ERROR

record access_line =
  al_level :: level
  al_request_id :: string
  al_method :: string
  al_path :: string
  al_status :: nat
  al_client :: "string option"

text \<open>A line of the access log, or a line of an error handler with the request id it prints.\<close>

datatype log_line = Access access_line | Handled level string

type_synonym outcome = "http_response res \<times> log_line list"

text \<open>An endpoint is called with the value of \<^verbatim>\<open>request_id_var\<close> it can see.\<close>

type_synonym endpoint = "string \<Rightarrow> http_request \<Rightarrow> http_response res"

section \<open>Error handlers\<close>

text \<open>The handlers the framework runs inside the stack; \<open>None\<close> for an exception without one.\<close>

fun handle_error :: "string \<Rightarrow> exn \<Rightarrow> (http_response \<times> log_line list) option" where
  "handle_error rid IntegrityError =
     Some (\<lparr> rs_status = 409, rs_body = DetailId ''Database constraint violation'' rid, rs_request_id = None \<rparr>,
           [Handled WARNING rid])"
| "handle_error rid OperationalError =
     Some (\<lparr> rs_status = 503, rs_body = DetailId ''Database unavailable'' rid, rs_request_id = None \<rparr>,
           [Handled ERROR rid])"
| "handle_error rid (HTTPException code detail) =
     Some (\<lparr> rs_status = code, rs_body = Detail detail, rs_request_id = None \<rparr>, [])"
| "handle_error rid RequestInvalid =
     Some (\<lparr> rs_status = 422, rs_body = ValidationErrors, rs_request_id = None \<rparr>, [])"
| "handle_error rid _ = None"

definition unhandled_error_handler :: "string \<Rightarrow> http_response \<times> log_line list" where
  "unhandled_error_handler rid =
     (\<lparr> rs_status = 500, rs_body = DetailId ''Internal server error'' rid, rs_request_id = None \<rparr>,
      [Handled ERROR rid])"

definition call_endpoint :: "endpoint \<Rightarrow> string \<Rightarrow> http_request \<Rightarrow> outcome" where
  "call_endpoint app rid req =
     (case app rid req of
        Inr resp \<Rightarrow> (Inr resp, [])
      | Inl e \<Rightarrow> (case handle_error rid e of None \<Rightarrow> (Inl e, []) | Some (resp, ls) \<Rightarrow> (Inr resp, ls)))"

section \<open>Middleware\<close>

text \<open>\<open>uid\<close> is \<^verbatim>\<open>str(uuid.uuid4())\<close>.\<close>

definition choose_request_id :: "string \<Rightarrow> http_request \<Rightarrow> string" where
  "choose_request_id uid req = (case rq_request_id req of Some rid \<Rightarrow> rid | None \<Rightarrow> take 8 uid)"

definition request_id_dispatch ::
  "string \<Rightarrow> (string \<Rightarrow> http_request \<Rightarrow> outcome) \<Rightarrow> http_request \<Rightarrow> outcome" where
  "request_id_dispatch uid call_next req =
     (let rid = choose_request_id uid req in
      case call_next rid req of
        (Inl e, ls) \<Rightarrow> (Inl e, ls)
      | (Inr resp, ls) \<Rightarrow> (Inr (resp\<lparr>rs_request_id := Some rid\<rparr>), ls))"

definition status_level :: "nat \<Rightarrow> level" where
  "status_level code = (if code \<ge> 500 then ERROR else if code \<ge> 400 then WARNING else INFO)"

text \<open>The line also carries the measured duration, left out here.\<close>

definition logging_dispatch ::
  "string \<Rightarrow> (string \<Rightarrow> http_request \<Rightarrow> outcome) \<Rightarrow> http_request \<Rightarrow> outcome" where
  "logging_dispatch var call_next req =
     (case call_next var req of
        (Inl e, ls) \<Rightarrow> (Inl e, ls)
      | (Inr resp, ls) \<Rightarrow>
          if rq_path req = ''/health'' then (Inr resp, ls)
          else (Inr resp, ls @ [Access \<lparr> al_level = status_level (rs_status resp), al_request_id = var,
                                         al_method = rq_method req, al_path = rq_path req,
                                         al_status = rs_status resp, al_client = rq_client req \<rparr>]))"

section \<open>The stack\<close>

datatype middleware = RequestIDMiddleware | LoggingMiddleware

definition add_middleware :: "middleware \<Rightarrow> middleware list \<Rightarrow> middleware list" where
  "add_middleware m ms = m # ms"

definition app_middleware :: "middleware list" where
  "app_middleware = add_middleware LoggingMiddleware (add_middleware RequestIDMiddleware [])"

text \<open>The outermost middleware is the head; the request runs with \<open>var\<close> in \<^verbatim>\<open>request_id_var\<close>.\<close>

fun run_stack :: "string \<Rightarrow> endpoint \<Rightarrow> middleware list \<Rightarrow> string \<Rightarrow> http_request \<Rightarrow> outcome" where
  "run_stack uid app [] var req = call_endpoint app var req"
| "run_stack uid app (RequestIDMiddleware # ms) var req = request_id_dispatch uid (run_stack uid app ms) req"
| "run_stack uid app (LoggingMiddleware # ms) var req = logging_dispatch var (run_stack uid app ms) req"

definition serve_with :: "middleware list \<Rightarrow> string \<Rightarrow> endpoint \<Rightarrow> http_request \<Rightarrow> http_response \<times> log_line list" where
  "serve_with ms uid app req =
     (case run_stack uid app ms [] req of
        (Inr resp, ls) \<Rightarrow> (resp, ls)
      | (Inl e, ls) \<Rightarrow> (case unhandled_error_handler [] of (resp, ls') \<Rightarrow> (resp, ls @ ls')))"

definition serve :: "string \<Rightarrow> endpoint \<Rightarrow> http_request \<Rightarrow> http_response \<times> log_line list" where
  "serve = serve_with app_middleware"

section \<open>The MQTT connection\<close>

text \<open>
  \<open>mc_client\<close> says whether \<^verbatim>\<open>_client\<close> is set, \<open>mc_subscribed\<close> lists what the broker was asked for,
  \<open>mc_listening\<close> whether the listener task exists. The broker is given by whether connecting,
  each subscription and disconnecting raise.
\<close>

record mqtt_client =
  mc_client :: bool
  mc_subscribed :: "string list"
  mc_listening :: bool

record broker =
  connect_raises :: bool
  subscribe_raises :: "string \<Rightarrow> bool"
  disconnect_raises :: bool

definition mqtt_init :: mqtt_client where
  "mqtt_init = \<lparr> mc_client = False, mc_subscribed = [], mc_listening = False \<rparr>"

fun subscribe_all :: "broker \<Rightarrow> string list \<Rightarrow> mqtt_client \<Rightarrow> unit res \<times> mqtt_client" where
  "subscribe_all B [] c = (Inr (), c)"
| "subscribe_all B (t # ts) c =
     (if subscribe_raises B t then (Inl MqttError, c)
      else subscribe_all B ts (c\<lparr>mc_subscribed := mc_subscribed c @ [t]\<rparr>))"

definition mqtt_start :: "broker \<Rightarrow> mqtt_client \<Rightarrow> unit res \<times> mqtt_client" where
  "mqtt_start B c =
     (let c1 = c\<lparr>mc_client := True\<rparr> in
      if connect_raises B then (Inl MqttError, c1)
      else case subscribe_all B [TOPIC_HEARTBEAT, TOPIC_REGISTER, TOPIC_OTA_STATUS, TOPIC_LOG] c1 of
        (Inl e, c2) \<Rightarrow> (Inl e, c2)
      | (Inr _, c2) \<Rightarrow> (Inr (), c2\<lparr>mc_listening := True\<rparr>))"

text \<open>
  Stopping cancels the listener, waits for it and leaves the connection; the attributes keep their
  values. \<open>died\<close> is the exception the listener task ended with, if it has: waiting for the task
  raises it again, and only a cancellation is caught. The second component says whether the
  connection was left.
\<close>

definition mqtt_stop :: "broker \<Rightarrow> exn option \<Rightarrow> mqtt_client \<Rightarrow> unit res \<times> bool" where
  "mqtt_stop B died c =
     (case (if mc_listening c then died else None) of
        Some e \<Rightarrow> (Inl e, False)
      | None \<Rightarrow>
          if mc_client c then (if disconnect_raises B then Inl MqttError else Inr (), True)
          else (Inr (), False))"

text \<open>A publish hands the message to the client, if there is one; without a client it does nothing.\<close>

definition mqtt_publish :: "ext \<Rightarrow> mqtt_client \<Rightarrow> string \<Rightarrow> string \<Rightarrow> unit res \<times> (string \<times> string) list" where
  "mqtt_publish E c topic payload =
     (if mc_client c
      then if publish_raises E topic then (Inl MqttError, []) else (Inr (), [(topic, payload)])
      else (Inr (), []))"

section \<open>Lifespan and health\<close>

text \<open>
  Start-up and shutdown. \<open>as_jobs\<close> are the jobs the running scheduler repeats, each with its interval in
  seconds; the warnings are the lines the application logs at WARNING.
\<close>

record app_state =
  as_mqtt :: mqtt_client
  as_jobs :: "(string \<times> int) list"
  as_warnings :: "string list"

definition lifespan_startup :: "broker \<Rightarrow> app_state \<Rightarrow> app_state" where
  "lifespan_startup B s =
     (case mqtt_start B (as_mqtt s) of
        (Inl _, c) \<Rightarrow> s\<lparr>as_mqtt := c, as_warnings := as_warnings s @ [''MQTT broker not available''],
                        as_jobs := registered_jobs\<rparr>
      | (Inr _, c) \<Rightarrow> s\<lparr>as_mqtt := c, as_jobs := registered_jobs\<rparr>)"

definition lifespan_shutdown :: "broker \<Rightarrow> exn option \<Rightarrow> app_state \<Rightarrow> unit res \<times> bool \<times> app_state" where
  "lifespan_shutdown B died s =
     (case mqtt_stop B died (as_mqtt s) of (r, left) \<Rightarrow> (r, left, s\<lparr>as_jobs := []\<rparr>))"

definition app_init :: app_state where
  "app_init = \<lparr> as_mqtt = mqtt_init, as_jobs = [], as_warnings = [] \<rparr>"

text \<open>\<open>db_error\<close> is the text of the exception \<^verbatim>\<open>SELECT 1\<close> raised, if it did.\<close>

definition health :: "settings \<Rightarrow> string option \<Rightarrow> mqtt_client \<Rightarrow> (string \<times> string) list" where
  "health cf db_error c =
     (let database = (case db_error of None \<Rightarrow> ''ok'' | Some e \<Rightarrow> ''error: '' @ e) in
      [(''version'', ''0.1.0''),
       (''database'', database),
       (''mqtt'', if mc_client c then ''connected'' else ''disconnected''),
       (''fcm'', if FCM_PROJECT_ID cf \<noteq> [] then ''configured'' else ''not configured''),
       (''status'', if database = ''ok'' then ''ok'' else ''degraded'')])"

section \<open>What a request gets back\<close>

text \<open>The exceptions that reach the layer around the stack.\<close>

definition unhandled :: "exn \<Rightarrow> bool" where
  "unhandled e = (handle_error [] e = None)"

lemma handle_error_None: "handle_error rid e = None \<longleftrightarrow> unhandled e"
  by (cases e) (simp_all add: unhandled_def)

lemma handle_error_status: "handle_error rid e = Some (resp, ls) \<Longrightarrow> rs_status resp = http_status e"
  by (cases e) auto

lemma unhandled_status: "unhandled e \<Longrightarrow> http_status e = 500"
  by (cases e) (auto simp: unhandled_def)

lemma handle_error_body: "handle_error rid e = Some (resp, ls) \<Longrightarrow> rs_body resp = DetailId d i \<Longrightarrow> i = rid"
  by (cases e) auto

fun access_of :: "log_line \<Rightarrow> access_line option" where
  "access_of (Access a) = Some a"
| "access_of (Handled l rid) = None"

definition access_lines :: "log_line list \<Rightarrow> access_line list" where
  "access_lines ls = List.map_filter access_of ls"

lemma access_lines_simps [simp]:
  "access_lines [] = []" "access_lines (Access a # ls) = a # access_lines ls"
  "access_lines (Handled l rid # ls) = access_lines ls" "access_lines (ls @ ls') = access_lines ls @ access_lines ls'"
  by (simp_all add: access_lines_def map_filter_def)

lemma handle_error_no_access: "handle_error rid e = Some (resp, ls) \<Longrightarrow> access_lines ls = []"
  by (cases e) auto

text \<open>The line the access log should get for a response.\<close>

definition expected_line :: "string \<Rightarrow> http_request \<Rightarrow> http_response \<Rightarrow> access_line" where
  "expected_line rid req resp =
     \<lparr> al_level = status_level (rs_status resp), al_request_id = rid, al_method = rq_method req,
       al_path = rq_path req, al_status = rs_status resp, al_client = rq_client req \<rparr>"

text \<open>What the innermost layer makes of the endpoint's outcome, and what leaves the stack.\<close>

lemma call_endpoint_cases:
  obtains (crash) e where "app rid req = Inl e" "unhandled e" "call_endpoint app rid req = (Inl e, [])"
  | (error) e resp ls where "app rid req = Inl e" "\<not> unhandled e" "handle_error rid e = Some (resp, ls)"
      "call_endpoint app rid req = (Inr resp, ls)"
  | (answer) resp where "app rid req = Inr resp" "call_endpoint app rid req = (Inr resp, [])"
proof (cases "app rid req")
  case (Inl e)
  then show ?thesis
  proof (cases "handle_error rid e")
    case None
    with Inl have "call_endpoint app rid req = (Inl e, [])" by (simp add: call_endpoint_def)
    with Inl None show ?thesis using crash handle_error_None by blast
  next
    case (Some rl)
    with Inl show ?thesis
      using error handle_error_None [of rid e] by (cases rl) (simp add: call_endpoint_def)
  qed
next
  case (Inr resp)
  then show ?thesis using answer by (simp add: call_endpoint_def)
qed

lemmas stack_defs = serve_with_def request_id_dispatch_def logging_dispatch_def Let_def

lemma serve_Inr:
  assumes "call_endpoint app (choose_request_id uid req) req = (Inr resp, ls)"
  shows "serve uid app req =
           (resp\<lparr>rs_request_id := Some (choose_request_id uid req)\<rparr>,
            ls @ (if rq_path req = ''/health'' then [] else [Access (expected_line [] req resp)]))"
    and "serve_with [RequestIDMiddleware, LoggingMiddleware] uid app req =
           (resp\<lparr>rs_request_id := Some (choose_request_id uid req)\<rparr>,
            ls @ (if rq_path req = ''/health'' then []
                  else [Access (expected_line (choose_request_id uid req) req resp)]))"
  using assms
  by (simp_all add: serve_def app_middleware_def add_middleware_def stack_defs expected_line_def)

lemma serve_Inl:
  assumes "call_endpoint app (choose_request_id uid req) req = (Inl e, [])"
  shows "serve uid app req = unhandled_error_handler []"
  using assms by (simp add: serve_def app_middleware_def add_middleware_def stack_defs unhandled_error_handler_def)

section \<open>Properties\<close>

text \<open>
  C37: every request is answered, with the status of the endpoint's response or of the exception it
  raised. Unless the exception has no handler of its own, the response carries the request id
  (the client's, or eight characters of a fresh one), an error body names the same id, and the
  access log gets one line, none for \<^verbatim>\<open>/health\<close>; but the request id in that line is empty, since
  the logging middleware encloses the one that sets it. An exception without a handler gets a 500
  without header, with an empty id in its body, and no access line at all.
\<close>

theorem request_tracing:
  assumes "rid = choose_request_id uid req" "serve uid app req = (resp, ls)"
  shows "rs_status resp = (case app rid req of Inr r \<Rightarrow> rs_status r | Inl e \<Rightarrow> http_status e) \<and>
         (case app rid req of
            Inl e \<Rightarrow>
              if unhandled e
              then rs_status resp = 500 \<and> rs_request_id resp = None \<and>
                   rs_body resp = DetailId ''Internal server error'' [] \<and> access_lines ls = []
              else rs_request_id resp = Some rid \<and> (\<forall>d i. rs_body resp = DetailId d i \<longrightarrow> i = rid) \<and>
                   access_lines ls = (if rq_path req = ''/health'' then [] else [expected_line [] req resp])
          | Inr r \<Rightarrow>
              resp = r\<lparr>rs_request_id := Some rid\<rparr> \<and>
              access_lines ls = (if rq_path req = ''/health'' then [] else [expected_line [] req resp]))"
  using call_endpoint_cases [of app rid req]
proof cases
  case (crash e)
  then have "(resp, ls) = unhandled_error_handler []"
    using serve_Inl assms by metis
  with crash show ?thesis by (simp add: unhandled_error_handler_def unhandled_status)
next
  case (error e r l)
  then have "(resp, ls) = (r\<lparr>rs_request_id := Some rid\<rparr>,
      l @ (if rq_path req = ''/health'' then [] else [Access (expected_line [] req r)]))"
    using serve_Inr(1) assms by metis
  moreover note handle_error_no_access [OF error(3)] handle_error_status [OF error(3)] handle_error_body [OF error(3)]
  ultimately show ?thesis using error(1,2) by (auto simp: expected_line_def)
next
  case (answer r)
  then have "(resp, ls) = (r\<lparr>rs_request_id := Some rid\<rparr>,
      [] @ (if rq_path req = ''/health'' then [] else [Access (expected_line [] req r)]))"
    using serve_Inr(1) assms by metis
  with answer show ?thesis by (simp add: expected_line_def)
qed

text \<open>The id a request of the example runs under.\<close>

definition demo_request :: http_request where
  "demo_request = \<lparr> rq_method = ''GET'', rq_path = ''/api/devices'', rq_request_id = Some ''trace-7'',
                    rq_client = Some ''10.0.0.9'' \<rparr>"

theorem request_tracing_witness:
  "(case serve ''0123456789'' (\<lambda>rid req. Inl IntegrityError) demo_request of
      (resp, ls) \<Rightarrow> rs_status resp = 409 \<and> rs_request_id resp = Some ''trace-7'' \<and>
                    map al_request_id (access_lines ls) = [[]])"
  using request_tracing [of "''trace-7''" "''0123456789''" demo_request "\<lambda>rid req. Inl IntegrityError"]
  by (simp add: choose_request_id_def demo_request_def unhandled_def expected_line_def split: prod.split)

text \<open>
  In the order the entry point documents, with the request id middleware outermost, the access
  line of an answered request would carry its id.
\<close>

lemma documented_order_traces:
  assumes "call_endpoint app (choose_request_id uid req) req = (Inr resp, ls)" "rq_path req \<noteq> ''/health''"
  shows "snd (serve_with [RequestIDMiddleware, LoggingMiddleware] uid app req) =
           ls @ [Access (expected_line (choose_request_id uid req) req resp)]"
  using serve_Inr(2) [OF assms(1)] assms(2) by simp

section \<open>The broker connection and what the health check says\<close>

lemma subscribe_all_client: "mc_client (snd (subscribe_all B ts c)) = mc_client c"
  by (induction ts arbitrary: c) auto

lemma subscribe_all_listening: "mc_listening (snd (subscribe_all B ts c)) = mc_listening c"
  by (induction ts arbitrary: c) auto

lemma subscribe_all_fst:
  "fst (subscribe_all B ts c) = (if \<exists>t \<in> set ts. subscribe_raises B t then Inl MqttError else Inr ())"
  by (induction ts arbitrary: c) auto

lemma mqtt_start_client: "mc_client (snd (mqtt_start B c))"
  using subscribe_all_client [of B "[TOPIC_HEARTBEAT, TOPIC_REGISTER, TOPIC_OTA_STATUS, TOPIC_LOG]" "c\<lparr>mc_client := True\<rparr>"]
  by (auto simp: mqtt_start_def Let_def simp del: subscribe_all.simps split: prod.split sum.split)

lemma mqtt_start_listening:
  assumes "\<not> mc_listening c"
  shows "mc_listening (snd (mqtt_start B c)) \<longleftrightarrow> returns (fst (mqtt_start B c))"
  using assms subscribe_all_listening [of B "[TOPIC_HEARTBEAT, TOPIC_REGISTER, TOPIC_OTA_STATUS, TOPIC_LOG]" "c\<lparr>mc_client := True\<rparr>"]
  by (auto simp: mqtt_start_def Let_def simp del: subscribe_all.simps split: prod.split sum.split)

text \<open>
  C38: starting up never fails for want of a broker: the scheduler runs in any case, with the dead-device
  check every 30 seconds and the rollout job every minute, and the listener
  runs exactly when connecting and all four subscriptions worked. The health check cannot tell the
  two cases apart: after start-up it reports the broker as connected whether or not there is one,
  and its overall status depends on the database alone.
\<close>

theorem startup_health:
  assumes "s = lifespan_startup B app_init"
  shows "as_jobs s = [(''check_dead_devices'', 30), (''fire_due_scheduled_rollouts'', 60)] \<and>
         (mc_listening (as_mqtt s) \<longleftrightarrow> \<not> connect_raises B \<and>
            list_all (\<lambda>t. \<not> subscribe_raises B t) [TOPIC_HEARTBEAT, TOPIC_REGISTER, TOPIC_OTA_STATUS, TOPIC_LOG]) \<and>
         (mc_listening (as_mqtt s) \<longleftrightarrow> as_warnings s = []) \<and>
         map_of (health cf db_error (as_mqtt s)) ''mqtt'' = Some ''connected'' \<and>
         (map_of (health cf db_error (as_mqtt s)) ''status'' = Some ''ok'' \<longleftrightarrow> db_error = None)"
proof -
  obtain r c where st: "mqtt_start B mqtt_init = (r, c)" by fastforce
  have l: "mc_listening c \<longleftrightarrow> returns r" and cl: "mc_client c"
    using mqtt_start_listening [of mqtt_init B] mqtt_start_client [of B mqtt_init] st
    by (simp_all add: mqtt_init_def)
  have ret: "returns r \<longleftrightarrow> \<not> connect_raises B \<and>
      list_all (\<lambda>t. \<not> subscribe_raises B t) [TOPIC_HEARTBEAT, TOPIC_REGISTER, TOPIC_OTA_STATUS, TOPIC_LOG]"
    using arg_cong [OF st, of fst] by (auto simp: mqtt_start_def Let_def split: if_splits)
  have s: "as_mqtt s = c" "as_jobs s = registered_jobs" "as_warnings s = [] \<longleftrightarrow> returns r"
    using assms st by (auto simp: lifespan_startup_def app_init_def split: sum.splits)
  have "map_of (health cf db_error c) ''mqtt'' = Some ''connected''"
    "map_of (health cf db_error c) ''status'' = Some ''ok'' \<longleftrightarrow> db_error = None"
    using cl by (simp_all add: health_def Let_def split: option.splits)
  moreover have "registered_jobs = [(''check_dead_devices'', 30), (''fire_due_scheduled_rollouts'', 60)]"
    by (simp add: registered_jobs_def CHECK_INTERVAL_SECONDS_def)
  ultimately show ?thesis using s l ret by simp
qed

theorem startup_health_witness:
  "map_of (health default_settings None (as_mqtt (lifespan_startup
       \<lparr> connect_raises = True, subscribe_raises = (\<lambda>_. True), disconnect_raises = False \<rparr> app_init))) ''mqtt''
     = Some ''connected''"
  using startup_health [OF refl, of "\<lparr> connect_raises = True, subscribe_raises = (\<lambda>_. True), disconnect_raises = False \<rparr>" default_settings None]
  by blast

text \<open>Before start-up a publish is dropped; after it the client's own behaviour decides.\<close>

lemma publish_before_and_after:
  "mqtt_publish E mqtt_init topic payload = (Inr (), [])"
  "mqtt_publish E (as_mqtt (lifespan_startup B app_init)) topic payload =
     (if publish_raises E topic then (Inl MqttError, []) else (Inr (), [(topic, payload)]))"
proof -
  show "mqtt_publish E mqtt_init topic payload = (Inr (), [])"
    by (simp add: mqtt_publish_def mqtt_init_def)
  have "mc_client (as_mqtt (lifespan_startup B app_init))"
    using mqtt_start_client [of B mqtt_init] by (auto simp: lifespan_startup_def app_init_def split: prod.split sum.split)
  then show "mqtt_publish E (as_mqtt (lifespan_startup B app_init)) topic payload =
     (if publish_raises E topic then (Inl MqttError, []) else (Inr (), [(topic, payload)]))"
    by (simp add: mqtt_publish_def)
qed

text \<open>
  A listener that died of a payload it could not decode makes the shutdown fail before it leaves
  the broker; a listener that was alive is cancelled and the connection is left.
\<close>

lemma shutdown_after_listener_died:
  assumes "s = lifespan_startup B app_init" "mc_listening (as_mqtt s)"
  shows "lifespan_shutdown B (Some e) s = (Inl e, False, s\<lparr>as_jobs := []\<rparr>)"
    and "fst (snd (lifespan_shutdown B None s))"
  using assms mqtt_start_client [of B mqtt_init]
  by (auto simp: lifespan_shutdown_def mqtt_stop_def lifespan_startup_def app_init_def split: prod.split sum.split)

end
