(* ===== verification/Fleet_System.thy ===== *)
theory Fleet_System
  imports Fleet_Records Http_Server
begin

text \<open>
  The whole server as a state machine: its state is the database, the firmware storage and whether
  the MQTT listener is alive; its calls are the endpoints that change state (\<^verbatim>\<open>api/router.py\<close> mounts
  them), the background run of a provisioning job, the messages of devices, the two jobs of the
  scheduler and the seed script. \<open>perform\<close> is one call, in the environment of its moment; \<open>reaches\<close>
  is any sequence of calls, each run to its end before the next one starts. Two locales state what it takes for a property of one state or
  a relation of two states to hold along every sequence; their interpretations give the schema
  invariant, the survival of an administrator, and the preservation of the records.
\<close>

section \<open>State and calls\<close>

record system =
  sys_db :: db
  sys_files :: files
  sys_listening :: bool

datatype call =
    Login string string
  | CreateUser "string option" user_create
  | ChangeMyPassword "string option" string string
  | UpdateUser "string option" string user_update
  | ResetUserPassword "string option" string
  | CreateDevice "string option" device_create
  | UpdateDevice "string option" string device_update
  | DeleteDevice "string option" string
  | CreateHome "string option" home_create
  | UpdateHome "string option" string home_update
  | DeleteHome "string option" string
  | AssignCommunity "string option" string string
  | RemoveCommunity "string option" string string
  | CreateCommunity "string option" community_create
  | UpdateCommunity "string option" string community_update
  | DeleteCommunity "string option" string
  | CreateGroup "string option" group_create
  | UpdateGroup "string option" int group_update
  | DeleteGroup "string option" int
  | SendBroadcast "string option" broadcast_create
  | AcknowledgeBroadcast "string option" int ack_create
  | UploadFirmware "string option" string string string
  | StartRollout "string option" rollout_request
  | AbortRollout "string option" string
  | CreateScheduled "string option" scheduled_create
  | CancelScheduled "string option" int
  | Provision build_env "string option" string
  | RunJob build_env string
  | Message string "string option"
  | CheckDeadDevices
  | FireDueRollouts
  | SeedScript

text \<open>What a call leaves in the database; the two calls that also touch other state are in \<open>perform\<close>.\<close>

fun db_after :: "ext \<Rightarrow> call \<Rightarrow> files \<Rightarrow> db \<Rightarrow> db" where
  "db_after E (Login email pw) fs db = snd (login E email pw db)"
| "db_after E (CreateUser t p) fs db = snd (create_user E t p db)"
| "db_after E (ChangeMyPassword t cur new) fs db = snd (change_my_password E t cur new db)"
| "db_after E (UpdateUser t uid p) fs db = snd (update_user E t uid p db)"
| "db_after E (ResetUserPassword t uid) fs db = snd (reset_user_password E t uid db)"
| "db_after E (CreateDevice t p) fs db = snd (create_device E t p db)"
| "db_after E (UpdateDevice t did p) fs db = snd (update_device E t did p db)"
| "db_after E (DeleteDevice t did) fs db = snd (delete_device E t did db)"
| "db_after E (CreateHome t p) fs db = snd (create_home E t p db)"
| "db_after E (UpdateHome t hid p) fs db = snd (update_home E t hid p db)"
| "db_after E (DeleteHome t hid) fs db = snd (delete_home E t hid db)"
| "db_after E (AssignCommunity t hid cid) fs db = snd (assign_community E t hid cid db)"
| "db_after E (RemoveCommunity t hid cid) fs db = snd (remove_community E t hid cid db)"
| "db_after E (CreateCommunity t p) fs db = snd (create_community E t p db)"
| "db_after E (UpdateCommunity t cid p) fs db = snd (update_community E t cid p db)"
| "db_after E (DeleteCommunity t cid) fs db = snd (delete_community E t cid db)"
| "db_after E (CreateGroup t p) fs db = snd (create_group E t p db)"
| "db_after E (UpdateGroup t gid p) fs db = snd (update_group E t gid p db)"
| "db_after E (DeleteGroup t gid) fs db = snd (delete_group E t gid db)"
| "db_after E (SendBroadcast t p) fs db = fst (snd (send_broadcast E t p db))"
| "db_after E (AcknowledgeBroadcast t i p) fs db = snd (acknowledge_broadcast E t i p db)"
| "db_after E (UploadFirmware t v notes_text content) fs db = fst (snd (upload_firmware E t v notes_text content db fs))"
| "db_after E (StartRollout t q) fs db = fst (snd (api_start_rollout E t q db))"
| "db_after E (AbortRollout t v) fs db = snd (api_abort_rollout E t v db)"
| "db_after E (CreateScheduled t p) fs db = snd (create_scheduled E t p db)"
| "db_after E (CancelScheduled t i) fs db = snd (cancel_scheduled E t i db)"
| "db_after E (Provision B t ty) fs db = snd (provision E B t ty db)"
| "db_after E (RunJob B jid) fs db = fst (snd (snd (run_job E B jid db fs)))"
| "db_after E (Message topic payload) fs db = snd (on_message E topic payload db)"
| "db_after E CheckDeadDevices fs db = fst (snd (check_dead_devices E db))"
| "db_after E FireDueRollouts fs db = fst (snd (fire_due_scheduled_rollouts E db))"
| "db_after E SeedScript fs db = snd (seed E db)"

definition perform :: "ext \<Rightarrow> call \<Rightarrow> system \<Rightarrow> system" where
  "perform E c s =
     (case c of
        Message topic payload \<Rightarrow>
          if sys_listening s
          then s\<lparr>sys_db := db_after E c (sys_files s) (sys_db s),
                 sys_listening := fst (on_message E topic payload (sys_db s))\<rparr>
          else s
      | UploadFirmware t v notes_text content \<Rightarrow>
          s\<lparr>sys_db := db_after E c (sys_files s) (sys_db s),
            sys_files := snd (snd (upload_firmware E t v notes_text content (sys_db s) (sys_files s)))\<rparr>
      | RunJob B jid \<Rightarrow>
          s\<lparr>sys_db := db_after E c (sys_files s) (sys_db s),
            sys_files := snd (snd (snd (run_job E B jid (sys_db s) (sys_files s))))\<rparr>
      | _ \<Rightarrow> s\<lparr>sys_db := db_after E c (sys_files s) (sys_db s)\<rparr>)"

inductive reaches :: "system \<Rightarrow> system \<Rightarrow> bool" where
  here: "reaches s s"
| then_call: "reaches s t \<Longrightarrow> scan_ok E \<Longrightarrow> bind_ok E \<Longrightarrow> reaches s (perform E c t)"

inductive_cases reachesE: "reaches s t"

text \<open>The executable reading: a list of calls with their environments.\<close>

fun run_calls :: "(ext \<times> call) list \<Rightarrow> system \<Rightarrow> system" where
  "run_calls [] s = s"
| "run_calls ((E, c) # cs) s = run_calls cs (perform E c s)"

lemma reaches_trans: "reaches t u \<Longrightarrow> reaches s t \<Longrightarrow> reaches s u"
  by (induction rule: reaches.induct) (auto intro: then_call)

lemma run_calls_reaches:
  "list_all (\<lambda>(E, c). scan_ok E \<and> bind_ok E) cs \<Longrightarrow> reaches s (run_calls cs s)"
proof (induction cs arbitrary: s)
  case (Cons Ec cs)
  obtain E c where Ec: "Ec = (E, c)" by fastforce
  then have "reaches s (perform E c s)" using Cons.prems by (intro then_call here) auto
  moreover have "reaches (perform E c s) (run_calls cs (perform E c s))" using Cons Ec by simp
  ultimately show ?case using reaches_trans Ec by simp
qed (simp add: here)

lemma perform_db:
  "sys_db (perform E c s) = db_after E c (sys_files s) (sys_db s) \<or> sys_db (perform E c s) = sys_db s"
  by (cases c) (simp_all add: perform_def)

section \<open>Invariants and relations along every sequence\<close>

locale system_invariant =
  fixes I :: "db \<Rightarrow> bool"
  assumes keeps: "scan_ok E \<Longrightarrow> bind_ok E \<Longrightarrow> I db \<Longrightarrow> I (db_after E c fs db)"
begin

lemma perform_keeps: "scan_ok E \<Longrightarrow> bind_ok E \<Longrightarrow> I (sys_db s) \<Longrightarrow> I (sys_db (perform E c s))"
  using keeps perform_db by metis

lemma holds: "reaches s t \<Longrightarrow> I (sys_db s) \<Longrightarrow> I (sys_db t)"
  by (induction rule: reaches.induct) (auto intro: perform_keeps)

end

locale system_relation = system_invariant I for I +
  fixes R :: "db \<Rightarrow> db \<Rightarrow> bool"
  assumes related_refl: "R db db"
    and related_trans: "R db db' \<Longrightarrow> R db' db'' \<Longrightarrow> R db db''"
    and related_step: "scan_ok E \<Longrightarrow> bind_ok E \<Longrightarrow> I db \<Longrightarrow> R db (db_after E c fs db)"
begin

lemma perform_related: "scan_ok E \<Longrightarrow> bind_ok E \<Longrightarrow> I (sys_db s) \<Longrightarrow> R (sys_db s) (sys_db (perform E c s))"
  using related_step related_refl perform_db by metis

lemma related: "reaches s t \<Longrightarrow> I (sys_db s) \<Longrightarrow> R (sys_db s) (sys_db t)"
proof (induction rule: reaches.induct)
  case (then_call s t E c)
  then show ?case using holds perform_related related_trans by blast
qed (rule related_refl)

end

lemmas calls_wf = db_wf_login db_wf_create_user db_wf_change_my_password db_wf_update_user db_wf_reset_user_password
  db_wf_device_endpoints db_wf_home_endpoints db_wf_community_endpoints db_wf_group_endpoints
  db_wf_broadcast_endpoints db_wf_upload_firmware db_wf_api_start_rollout db_wf_api_abort_rollout
  scheduler_wf(1,2) db_wf_provision db_wf_check_dead_devices db_wf_seed

lemma db_wf_after:
  assumes "scan_ok E" "bind_ok E" "db_wf db"
  shows "db_wf (db_after E c fs db)"
proof (cases c)
  case (Message topic payload)
  then show ?thesis using db_wf_on_message [OF assms(2,3)] by simp
next
  case (RunJob B jid)
  then show ?thesis using run_job_safe assms(3) by simp
next
  case FireDueRollouts
  then show ?thesis using fire_due_inv [OF assms(3,1)] by simp
qed (simp_all only: db_after.simps, (rule calls_wf [OF assms(3)])+)

interpretation schema: system_invariant db_wf
  by unfold_locales (rule db_wf_after)

text \<open>The calls that leave the record tables alone, and the ones that do not.\<close>

lemmas quiet_calls = quiet_device_endpoints quiet_home_endpoints quiet_community_endpoints
  quiet_group_endpoints quiet_check_dead quiet_provision conjunct1 [OF run_job_safe]

lemmas archive_calls = quiet_calls [THEN quiet_archive] archive_login archive_create_user
  archive_send_broadcast(1) archive_acknowledge(1) archive_upload_firmware(1) archive_api_start_rollout(1)
  archive_api_abort_rollout(1) archive_seed

lemma archive_after:
  assumes "scan_ok E" "bind_ok E" "db_wf db"
  shows "archive db (db_after E c fs db)"
  by (cases c; simp only: db_after.simps)
     (rule archive_calls archive_change_my_password [OF assms(3)] archive_update_user [OF assms(3)]
       archive_reset_user_password [OF assms(3)] archive_scheduled [OF assms(3)]
       archive_on_message [OF assms(3,1,2)] archive_fire_due [OF assms(3,1)])+

interpretation records: system_relation db_wf archive
  by unfold_locales (auto intro: archive_trans archive_after)

text \<open>The calls outside the account endpoints leave the accounts alone.\<close>

definition administered :: "db \<Rightarrow> bool" where
  "administered db \<longleftrightarrow> db_wf db \<and> 1 \<le> count_active_admins db"

lemma same_users_admins: "users db' = users db \<Longrightarrow> count_active_admins db' = count_active_admins db"
  by (simp add: count_active_admins_def)

lemmas same_users_calls = quiet_calls [THEN quiet_users] login_users
  archive_send_broadcast(2) archive_acknowledge(2) archive_upload_firmware(2) archive_api_start_rollout(2)
  archive_api_abort_rollout(2)

lemma admins_after:
  assumes "scan_ok E" "bind_ok E" "db_wf db" "1 \<le> count_active_admins db"
  shows "1 \<le> count_active_admins (db_after E c fs db)"
proof -
  have keep: "1 \<le> count_active_admins db'" if "users db' = users db" for db'
    using assms(4) same_users_admins [OF that] by simp
  show ?thesis
    by (cases c; simp only: db_after.simps)
       (rule create_user_admins [OF assms(4)] change_my_password_admins [OF assms(3,4)] update_user_admins [OF assms(3,4)]
         reset_user_password_admins [OF assms(3,4)] seed_admins [OF assms(4)]
         same_users_calls [THEN keep] archive_scheduled(2,4) [OF assms(3), THEN keep]
         archive_on_message(2) [OF assms(3,1,2), THEN keep] archive_fire_due(2) [OF assms(3,1), THEN keep])+
qed

interpretation administration: system_invariant administered
  by unfold_locales (auto simp only: administered_def intro: db_wf_after admins_after)

end
