(* ===== verification/Rollout_Flow.thy ===== *)
theory Rollout_Flow
  imports Fleet_System
begin

text \<open>
  A firmware update from end to end, across the components that take part in it: the OTA endpoint
  records the events and sends the commands, the device reboots, and its first heartbeat, routed by
  the listener to the heartbeat handler, closes the event and moves the version of the device.
\<close>

section \<open>The two calls\<close>

lemma route_user_any: "any_auth E token db = Inr u \<Longrightarrow> \<exists>uo. route_user E None token db = Inr uo"
  by (auto simp: route_user_def any_auth_def require_role_def get_current_user_def
      split: if_splits option.splits sum.splits)

lemma route_heartbeat: "CHR ''/'' \<notin> set n \<Longrightarrow> route_of (''fleet/'' @ n @ ''/heartbeat'') = Heartbeat n"
  by (rule conjunct1 [OF route_of_device_topics])

text \<open>What an accepted rollout request leaves, whether the broker takes its commands or not.\<close>

lemma perform_rollout:
  assumes "db_wf (sys_db s)" "scan_ok E" "any_auth E token (sys_db s) = Inr u"
    and "get_by_version (q_target_version q) (sys_db s) = Some f" "request_devices E q (sys_db s) = Inr ds"
  shows "devices (sys_db (perform E (StartRollout token q) s)) = devices (sys_db s) \<and>
         ota_events (sys_db (perform E (StartRollout token q) s)) =
           ota_events (sys_db s) @ planned_events E 0 (q_target_version q) (seq_events (sequences (sys_db s))) ds \<and>
         sys_listening (perform E (StartRollout token q) s) = sys_listening s"
proof -
  obtain uo where "route_user E None token (sys_db s) = Inr uo"
    using route_user_any [OF assms(3)] by blast
  then show ?thesis
    unfolding perform_def call.case db_after.simps api_start_rollout_def start_rollout_run [OF assms(1,2,4,5)]
    by (simp add: with_events_def Let_def split: sum.split)
qed

text \<open>What the first heartbeat after a restart does when one event of the device is promotable.\<close>

lemma perform_fresh_heartbeat:
  assumes "db_wf (sys_db s)" "scan_ok E" "bind_ok E" "sys_listening s" "CHR ''/'' \<notin> set n"
    and "json_loads E raw = Some (JObj kvs)" "lookup_key d_device_id n (devices (sys_db s)) = Some d"
    and "bind_int E (obj_get kvs ''rssi'') = Some r" "bind_int E (obj_get kvs ''heap'') = Some h"
    and "obj_get kvs ''uptime'' = JInt u" "int4 u" "u < 180" "promotable E n (sys_db s) = {e}"
  defines "t \<equiv> perform E (Message (''fleet/'' @ n @ ''/heartbeat'') (Some raw)) s"
  shows "ota_events (sys_db t) = replace_row e_id (promoted E e) (ota_events (sys_db s)) \<and>
         (\<exists>d'. lookup_key d_device_id n (devices (sys_db t)) = Some d' \<and> d_status d' = ''alive'' \<and>
            d_firmware_version d' = Some (e_to_version e))"
proof -
  let ?db1 = "heartbeat_update E n r h (Some u) (sys_db s)"
  have n: "n \<in> device_keys (sys_db s)"
    using assms(7) lookup_key_None_iff [of d_device_id n "devices (sys_db s)"] by (cases "n \<in> device_keys (sys_db s)") auto
  have bind: "bind_int E (JInt u) = Some (Some u)"
    using bind_int_eq(1) [OF assms(3)] assms(11) by simp
  have wf1: "db_wf ?db1"
    by (rule db_wf_heartbeat_update [OF assms(1) bind_int_int4 [OF assms(3,8)] bind_int_int4 [OF assms(3,9)]
          bind_int_int4 [OF assms(3) bind]])
  have prom: "promotable E n ?db1 = {e}" using assms(13) by (simp add: promotable_def)
  have p: "promote_ota E n ?db1 =
      (Inr True, ?db1\<lparr>ota_events := replace_row e_id (promoted E e) (ota_events ?db1),
         devices := update_where (\<lambda>d. d_device_id d = n)
           (\<lambda>d. d\<lparr>d_firmware_version := Some (e_to_version e), d_updated_at := pg_now E 1\<rparr>) (devices ?db1)\<rparr>)"
    using promote_ota_some [OF wf1 assms(2), of n] unfolding prom by blast
  have "sys_db t = snd (handle_heartbeat E n raw (sys_db s))"
    unfolding t_def perform_def call.case db_after.simps on_message_def
    using assms(4) route_heartbeat [OF assms(5)] by simp
  also have "\<dots> = snd (promote_ota E n ?db1)"
    using handle_heartbeat_known [OF assms(6) n assms(8-10) bind] assms(12) by simp
  finally show ?thesis
    using assms(7) by (simp add: p) (simp add: heartbeat_update_def set_metrics_def)
qed

text \<open>A rollout plans one event for each of its devices.\<close>

lemma planned_event_unique:
  assumes "distinct (map d_device_id ds)" "d \<in> set ds"
  obtains m where "{e \<in> set (planned_events E k v n ds). e_device_id e = d_device_id d} = {planned_event E k v m d}"
proof -
  have "\<exists>m. {e \<in> set (planned_events E k v n ds). e_device_id e = d_device_id d} = {planned_event E k v m d}"
    using assms
  proof (induction ds arbitrary: n)
    case (Cons d' ds)
    have "e_device_id ` set (planned_events E k v (n + 1) ds) = d_device_id ` set ds"
      using planned_events_simps(2) [of E k v "n + 1" ds] by (metis list.set_map)
    then have ids: "e_device_id x \<in> d_device_id ` set ds" if "x \<in> set (planned_events E k v (n + 1) ds)" for x
      using that by blast
    have here: "e_device_id (planned_event E k v n d') = d_device_id d'" by (simp add: planned_event_def)
    show ?case
    proof (cases "d = d'")
      case True
      have "e_device_id x \<noteq> d_device_id d'" if "x \<in> set (planned_events E k v (n + 1) ds)" for x
        using ids [OF that] Cons.prems(1) by auto
      with True have "{e \<in> set (planned_events E k v n (d' # ds)). e_device_id e = d_device_id d} = {planned_event E k v n d}"
        using here by auto
      then show ?thesis ..
    next
      case False
      then have "d \<in> set ds" "d_device_id d \<noteq> d_device_id d'"
        using Cons.prems by (auto simp: image_iff)
      then have "{e \<in> set (planned_events E k v n (d' # ds)). e_device_id e = d_device_id d} =
          {e \<in> set (planned_events E k v (n + 1) ds). e_device_id e = d_device_id d}"
        using here by auto
      moreover have "\<exists>m. {e \<in> set (planned_events E k v (n + 1) ds). e_device_id e = d_device_id d} = {planned_event E k v m d}"
        using Cons.IH Cons.prems(1) \<open>d \<in> set ds\<close> by auto
      ultimately show ?thesis by simp
    qed
  qed simp
  then show thesis using that by blast
qed

lemma mem_replace_row: "x \<in> set (replace_row key new rows) \<Longrightarrow> x = new \<or> x \<in> set rows \<and> key x \<noteq> key new"
  by (auto simp: replace_row_def set_update_where)

section \<open>The whole update\<close>



end
