(* ===== verification/Overlap.thy ===== *)
theory Overlap
  imports Fleet_System
begin

text \<open>
  Requests that overlap. The handlers run on one event loop, but every statement they await lets
  others run, and PostgreSQL shows each statement what the other sessions have committed. A handler
  that first reads and decides and then writes is therefore two steps, and other requests may come
  in between. This theory splits the account update (\<^verbatim>\<open>api/auth.py\<close>) and the promotion of an update
  by a heartbeat (\<^verbatim>\<open>mqtt/handlers.py\<close>) at that point, shows that the two steps in a row are the handler
  of the other theories, and follows a pool of requests through every interleaving of their steps. A
  cancellation between two turns of the job (\<^verbatim>\<open>tasks/scheduler.py\<close>) comes last.
\<close>

section \<open>Two-phase requests\<close>

text \<open>A request of a pool: not begun, decided but not written, or answered.\<close>

datatype ('r, 'p, 'a) activity = Asked 'r | Planned 'p | Answered 'a

inductive overlap ::
  "('r \<Rightarrow> db \<Rightarrow> 'a + 'p) \<Rightarrow> ('p \<Rightarrow> db \<Rightarrow> 'a \<times> db) \<Rightarrow>
   db \<Rightarrow> ('r, 'p, 'a) activity list \<Rightarrow> db \<Rightarrow> ('r, 'p, 'a) activity list \<Rightarrow> bool"
  for decide execute where
  reads: "i < length acts \<Longrightarrow> acts ! i = Asked r \<Longrightarrow> decide r db = Inr p \<Longrightarrow>
     overlap decide execute db acts db (acts[i := Planned p])"
| refuses: "i < length acts \<Longrightarrow> acts ! i = Asked r \<Longrightarrow> decide r db = Inl a \<Longrightarrow>
     overlap decide execute db acts db (acts[i := Answered a])"
| writes: "i < length acts \<Longrightarrow> acts ! i = Planned p \<Longrightarrow>
     overlap decide execute db acts (snd (execute p db)) (acts[i := Answered (fst (execute p db))])"

inductive overlaps ::
  "('r \<Rightarrow> db \<Rightarrow> 'a + 'p) \<Rightarrow> ('p \<Rightarrow> db \<Rightarrow> 'a \<times> db) \<Rightarrow>
   db \<Rightarrow> ('r, 'p, 'a) activity list \<Rightarrow> db \<Rightarrow> ('r, 'p, 'a) activity list \<Rightarrow> bool"
  for decide execute where
  start: "overlaps decide execute db acts db acts"
| further: "overlaps decide execute db acts db' acts' \<Longrightarrow> overlap decide execute db' acts' db'' acts'' \<Longrightarrow>
     overlaps decide execute db acts db'' acts''"

inductive_cases overlapE: "overlap decide execute db acts db' acts'"

text \<open>
  \<open>whole\<close> is the handler as one step; \<open>I\<close> is an invariant of the database, \<open>K\<close> what is asked of a
  request, and \<open>J\<close> what a decision guarantees of the plan it makes, whatever happens to the database
  afterwards.
\<close>

locale two_phase =
  fixes decide :: "'r \<Rightarrow> db \<Rightarrow> 'a + 'p" and execute :: "'p \<Rightarrow> db \<Rightarrow> 'a \<times> db"
    and whole :: "'r \<Rightarrow> db \<Rightarrow> 'a \<times> db" and I :: "db \<Rightarrow> bool" and K :: "'r \<Rightarrow> bool" and J :: "'p \<Rightarrow> bool"
  assumes whole_split: "I db \<Longrightarrow> K r \<Longrightarrow> whole r db = (case decide r db of Inl a \<Rightarrow> (a, db) | Inr p \<Rightarrow> execute p db)"
    and decides: "decide r db = Inr p \<Longrightarrow> J p"
    and executes: "I db \<Longrightarrow> J p \<Longrightarrow> I (snd (execute p db))"
begin

lemma overlap_keeps:
  assumes "overlap decide execute db acts db' acts'" "I db" "\<And>p. Planned p \<in> set acts \<Longrightarrow> J p"
  shows "I db' \<and> (\<forall>p. Planned p \<in> set acts' \<longrightarrow> J p)"
  using assms
proof (cases rule: overlap.cases)
  case (writes i p)
  then have "J p" using assms(3) nth_mem by metis
  then show ?thesis
    using writes assms(2,3) executes set_update_subset_insert by fastforce
qed (use decides assms(2,3) set_update_subset_insert in fastforce)+

text \<open>The invariant holds in every interleaving.\<close>

lemma overlaps_keep:
  assumes "overlaps decide execute db acts db' acts'" "I db" "\<And>p. Planned p \<in> set acts \<Longrightarrow> J p"
  shows "I db' \<and> (\<forall>p. Planned p \<in> set acts' \<longrightarrow> J p)"
  using assms
proof (induction rule: overlaps.induct)
  case (further db acts db' acts' db'' acts'')
  then show ?case using overlap_keeps by blast
qed simp

text \<open>Running a request without interruption is one of the interleavings, and is the handler.\<close>

lemma uninterrupted:
  assumes "I db" "i < length acts" "acts ! i = Asked r" "K r"
  shows "overlaps decide execute db acts (snd (whole r db)) (acts[i := Answered (fst (whole r db))])"
proof (cases "decide r db")
  case (Inl a)
  then show ?thesis
    using overlap.refuses [of i acts r decide db a execute] assms Inl
    by (auto simp: whole_split intro: overlaps.further overlaps.start)
next
  case (Inr p)
  have "overlap decide execute db (acts[i := Planned p]) (snd (execute p db)) (acts[i := Planned p, i := Answered (fst (execute p db))])"
    using assms(2) by (intro overlap.writes) simp_all
  moreover have "overlap decide execute db acts db (acts[i := Planned p])"
    using assms(2,3) Inr by (rule overlap.reads)
  ultimately show ?thesis
    using overlaps.further [OF overlaps.further [OF overlaps.start]] Inr whole_split [OF assms(1,4)] by simp
qed

end

section \<open>Account updates\<close>

text \<open>
  What an update has decided when it starts to write: who asked, the row it read and the request.
  The ORM writes the columns that differ from the row it read, into whatever the row is by then.
\<close>

record account_plan =
  ap_admin :: user
  ap_target :: user
  ap_payload :: user_update

definition read_update :: "ext \<Rightarrow> string option \<Rightarrow> string \<Rightarrow> user_update \<Rightarrow> db \<Rightarrow> account_plan res" where
  "read_update E token user_id payload db =
     (case require_role E [''admin''] token db of
        Inl e \<Rightarrow> Inl e
      | Inr admin \<Rightarrow>
          if up_role payload = None \<and> up_is_active payload = None
          then Inl (HTTPException 400 ''Nothing to update'')
          else if (case up_role payload of None \<Rightarrow> False | Some r \<Rightarrow> r \<notin> set VALID_ROLES)
          then Inl (HTTPException 400 invalid_role)
          else case lookup_key u_id user_id (users db) of
            None \<Rightarrow> Inl (HTTPException 404 ''User not found'')
          | Some target \<Rightarrow>
              (case check_not_protected (u_id target) (u_id admin) of
                 Inl e \<Rightarrow> Inl e
               | Inr _ \<Rightarrow>
                   if u_id target = u_id admin
                   then Inl (HTTPException 400 ''You cannot change your own role or active status'')
                   else
                     let new_role = (case up_role payload of Some r \<Rightarrow> r | None \<Rightarrow> u_role target);
                         new_active = (case up_is_active payload of Some b \<Rightarrow> b | None \<Rightarrow> u_is_active target);
                         would_lose_last_admin = (u_role target = ''admin'' \<and> u_is_active target \<and>
                                                  (new_role \<noteq> ''admin'' \<or> \<not> new_active))
                     in if would_lose_last_admin \<and> count_active_admins db \<le> 1
                        then Inl (HTTPException 400 ''Cannot leave the system without at least one active admin'')
                        else Inr \<lparr> ap_admin = admin, ap_target = target, ap_payload = payload \<rparr>))"

definition changed_columns :: "user_update \<Rightarrow> user \<Rightarrow> user \<Rightarrow> user" where
  "changed_columns payload target row =
     row\<lparr>u_role := (case up_role payload of Some r \<Rightarrow> if r \<noteq> u_role target then r else u_role row | None \<Rightarrow> u_role row),
         u_is_active := (case up_is_active payload of
                           Some b \<Rightarrow> if b \<noteq> u_is_active target then b else u_is_active row | None \<Rightarrow> u_is_active row)\<rparr>"

text \<open>Accounts are never deleted, so the row is still there.\<close>

definition current_row :: "('r \<Rightarrow> 'k) \<Rightarrow> 'r \<Rightarrow> 'r list \<Rightarrow> 'r" where
  "current_row key r rows = (case lookup_key key (key r) rows of Some row \<Rightarrow> row | None \<Rightarrow> r)"

definition write_update :: "ext \<Rightarrow> account_plan \<Rightarrow> db \<Rightarrow> user db_res" where
  "write_update E plan db =
     (let target = ap_target plan;
          row = changed_columns (ap_payload plan) target (current_row u_id target (users db));
          changes = update_user_changes (ap_payload plan) target
      in if changes = [] then (Inr row, db)
         else case flush_user row db of
           Inl e \<Rightarrow> (Inl e, db)
         | Inr db1 \<Rightarrow>
             returning row
               (audit_service_log E 1 (Some (u_id (ap_admin plan))) ''update'' ''user''
                  (Some (JObj ((''target_user'', JStr (u_id target)) # changes))) db1))"

text \<open>Requests and plans with the environment of their request.\<close>

type_synonym account_request = "ext \<times> string option \<times> string \<times> user_update"

definition decide_account :: "account_request \<Rightarrow> db \<Rightarrow> user res + (ext \<times> account_plan)" where
  "decide_account = (\<lambda>(E, token, user_id, payload) db.
     case read_update E token user_id payload db of Inl e \<Rightarrow> Inl (Inl e) | Inr plan \<Rightarrow> Inr (E, plan))"

definition execute_account :: "ext \<times> account_plan \<Rightarrow> db \<Rightarrow> user db_res" where
  "execute_account = (\<lambda>(E, plan) db. write_update E plan db)"

definition whole_account :: "account_request \<Rightarrow> db \<Rightarrow> user db_res" where
  "whole_account = (\<lambda>(E, token, user_id, payload) db. update_user E token user_id payload db)"

lemma read_update_InrD:
  assumes "read_update E token uid payload db = Inr plan"
  shows "lookup_key u_id uid (users db) = Some (ap_target plan)" "ap_payload plan = payload"
    "require_role E [''admin''] token db = Inr (ap_admin plan)" "u_id (ap_target plan) \<notin> set PROTECTED_USER_IDS"
  using assms
  by (auto simp: read_update_def Let_def check_not_protected_def split: sum.splits option.splits if_splits)

lemma changed_columns_own:
  "changed_columns payload target target =
     target\<lparr>u_role := (case up_role payload of Some r \<Rightarrow> r | None \<Rightarrow> u_role target),
            u_is_active := (case up_is_active payload of Some b \<Rightarrow> b | None \<Rightarrow> u_is_active target)\<rparr>"
proof -
  have s: "(if r \<noteq> a then r else a) = r" for r a :: 'v by simp
  show ?thesis unfolding changed_columns_def s ..
qed

lemma no_changes: "update_user_changes payload target = [] \<Longrightarrow> changed_columns payload target row = row"
  by (auto simp: update_user_changes_def changed_columns_def split: option.splits if_splits)

lemma current_row_found: "lookup_key key k rows = Some r \<Longrightarrow> current_row key r rows = r"
  using lookup_key_SomeD [of key k rows r] by (simp add: current_row_def)

lemma update_user_split:
  "update_user E token uid payload db =
     (case read_update E token uid payload db of Inl e \<Rightarrow> (Inl e, db) | Inr plan \<Rightarrow> write_update E plan db)"
proof (cases "require_role E [''admin''] token db")
  case (Inr admin)
  have dist: "(case (if c then x else y) of Inl e \<Rightarrow> (Inl e, db) | Inr plan \<Rightarrow> write_update E plan db) =
      (if c then case x of Inl e \<Rightarrow> (Inl e, db) | Inr plan \<Rightarrow> write_update E plan db
       else case y of Inl e \<Rightarrow> (Inl e, db) | Inr plan \<Rightarrow> write_update E plan db)" for c x y
    by simp
  show ?thesis
  proof (cases "lookup_key u_id uid (users db)")
    case (Some target)
    let ?t = "target\<lparr>u_role := (case up_role payload of Some r \<Rightarrow> r | None \<Rightarrow> u_role target),
                     u_is_active := (case up_is_active payload of Some b \<Rightarrow> b | None \<Rightarrow> u_is_active target)\<rparr>"
    have written: "write_update E \<lparr> ap_admin = admin, ap_target = target, ap_payload = payload \<rparr> db =
        (let changes = update_user_changes payload target
         in if changes = [] then (Inr target, db)
            else case flush_user ?t db of
              Inl e \<Rightarrow> (Inl e, db)
            | Inr db1 \<Rightarrow> returning ?t (audit_service_log E 1 (Some (u_id admin)) ''update'' ''user''
                (Some (JObj ((''target_user'', JStr (u_id target)) # update_user_changes payload target))) db1))"
      using no_changes [of payload target target]
      unfolding write_update_def Let_def account_plan.simps current_row_found [OF Some] changed_columns_own by simp
    show ?thesis
    proof (cases "check_not_protected (u_id target) (u_id admin)")
      case (Inr x)
      then show ?thesis
        unfolding update_user_def read_update_def \<open>require_role E [''admin''] token db = Inr admin\<close> Some Let_def
          sum.case option.case dist by (simp only: sum.case dist written Let_def)
    next
      case (Inl e)
      then show ?thesis
        unfolding update_user_def read_update_def \<open>require_role E [''admin''] token db = Inr admin\<close> Some
          sum.case option.case dist by simp
    qed
  qed (simp add: update_user_def read_update_def Inr)
qed (simp add: update_user_def read_update_def)

text \<open>
  The writing half touches one account, of the id it was decided for, and keeps the schema.
\<close>

lemma write_update_row:
  assumes "users (snd (write_update E plan db)) \<noteq> users db"
  shows "\<exists>row. u_id row = u_id (ap_target plan) \<and> users (snd (write_update E plan db)) = replace_row u_id row (users db)"
proof -
  let ?row = "changed_columns (ap_payload plan) (ap_target plan) (current_row u_id (ap_target plan) (users db))"
  let ?changes = "update_user_changes (ap_payload plan) (ap_target plan)"
  have "u_id (current_row u_id (ap_target plan) (users db)) = u_id (ap_target plan)"
    using lookup_key_SomeD [of u_id _ "users db"] by (auto simp: current_row_def split: option.split)
  then have id: "u_id ?row = u_id (ap_target plan)" by (simp add: changed_columns_def)
  have "?changes \<noteq> []" using assms by (auto simp: write_update_def Let_def)
  then have run: "write_update E plan db =
      (case flush_user ?row db of
         Inl e \<Rightarrow> (Inl e, db)
       | Inr db1 \<Rightarrow> returning ?row (audit_service_log E 1 (Some (u_id (ap_admin plan))) ''update'' ''user''
           (Some (JObj ((''target_user'', JStr (u_id (ap_target plan))) # ?changes))) db1))"
    unfolding write_update_def Let_def by (simp only: if_False)
  obtain db1 where "flush_user ?row db = Inr db1"
    using assms unfolding run by (cases "flush_user ?row db") simp_all
  then have "users (snd (write_update E plan db)) = replace_row u_id ?row (users db)"
    unfolding run using flush_user_users by simp
  with id show ?thesis by blast
qed

lemma db_wf_write_update: "db_wf db \<Longrightarrow> db_wf (snd (write_update E plan db))"
  by (auto simp: write_update_def Let_def split: sum.split intro: db_wf_flush_user db_wf_audit_service_log)

text \<open>The invariant: the schema holds and the protected account \<open>u\<close> is there as it is.\<close>

definition keeps_protected :: "user \<Rightarrow> db \<Rightarrow> bool" where
  "keeps_protected u db \<longleftrightarrow> db_wf db \<and> u_id u \<in> set PROTECTED_USER_IDS \<and> u \<in> set (users db)"

definition spares_protected :: "ext \<times> account_plan \<Rightarrow> bool" where
  "spares_protected = (\<lambda>(E, plan). u_id (ap_target plan) \<notin> set PROTECTED_USER_IDS)"

lemma keeps_protected_write:
  assumes "keeps_protected u db" "u_id (ap_target plan) \<notin> set PROTECTED_USER_IDS"
  shows "keeps_protected u (snd (write_update E plan db))"
proof (cases "users (snd (write_update E plan db)) = users db")
  case False
  then obtain row where "u_id row = u_id (ap_target plan)" "users (snd (write_update E plan db)) = replace_row u_id row (users db)"
    using write_update_row by blast
  moreover from this(1) have "u_id u \<noteq> u_id row" using assms by (auto simp: keeps_protected_def)
  ultimately show ?thesis
    using assms db_wf_write_update by (auto simp: keeps_protected_def replace_row_def set_update_where)
qed (use assms db_wf_write_update in \<open>auto simp: keeps_protected_def\<close>)

interpretation account_updates: two_phase decide_account execute_account whole_account "keeps_protected u"
    "\<lambda>r. True" spares_protected
  for u
proof
  show "whole_account r db = (case decide_account r db of Inl a \<Rightarrow> (a, db) | Inr p \<Rightarrow> execute_account p db)" for r db
    by (cases r) (auto simp: whole_account_def decide_account_def execute_account_def update_user_split split: sum.split)
  show "decide_account r db = Inr p \<Longrightarrow> spares_protected p" for r db p
    by (cases r) (auto simp: decide_account_def spares_protected_def dest: read_update_InrD(4) split: sum.splits)
  show "keeps_protected u db \<Longrightarrow> spares_protected p \<Longrightarrow> keeps_protected u (snd (execute_account p db))" for db p
    by (cases p) (simp add: execute_account_def spares_protected_def keeps_protected_write)
qed

text \<open>
  C10: overlapping account updates cannot touch the protected administrator. However many updates are
  under way, with whatever tokens and payloads, and however their reading and writing halves are
  interleaved, at every moment the schema holds and the protected account is exactly as it was.
\<close>

theorem protected_admin_survives_overlap:
  assumes "db_wf db" "u \<in> set (users db)" "u_id u \<in> set PROTECTED_USER_IDS"
    and "overlaps decide_account execute_account db (map Asked requests) db' acts"
  shows "db_wf db' \<and> u \<in> set (users db')"
proof -
  have "keeps_protected u db" using assms(1-3) by (simp add: keeps_protected_def)
  from account_updates.overlaps_keep [OF assms(4) this] show ?thesis by (auto simp: keeps_protected_def)
qed

text \<open>The other sample administrator is demoted, and the protected one is still there.\<close>

definition demote :: user_update where
  "demote = \<lparr> up_role = Some ''viewer'', up_is_active = None \<rparr>"

theorem protected_admin_survives_overlap_witness:
  "sample_user ''admin'' ''admin'' \<in>
     set (users (snd (update_user demo_ext (sample_token ''admin'') ''ops'' demote sample_db)))"
proof -
  let ?r = "(demo_ext, sample_token ''admin'', ''ops'', demote)"
  have "overlaps decide_account execute_account sample_db (map Asked [?r]) (snd (whole_account ?r sample_db))
      ((map Asked [?r])[0 := Answered (fst (whole_account ?r sample_db))])"
    by (rule account_updates.uninterrupted [of "sample_user ''admin'' ''admin''"])
       (simp_all add: keeps_protected_def PROTECTED_USER_IDS_def)
  then have "sample_user ''admin'' ''admin'' \<in> set (users (snd (whole_account ?r sample_db)))"
    using protected_admin_survives_overlap [OF db_wf_sample, of "sample_user ''admin'' ''admin''" "[?r]"]
    by (simp add: PROTECTED_USER_IDS_def)
  then show ?thesis by (simp add: whole_account_def)
qed

text \<open>Writing a demotion that was decided for an active administrator.\<close>

lemma write_demotion:
  assumes "db_wf db" "t \<in> set (users db)" "u_role t = ''admin''"
  shows "users (snd (write_update E \<lparr> ap_admin = v, ap_target = t, ap_payload = demote \<rparr> db)) =
           replace_row u_id (t\<lparr>u_role := ''viewer''\<rparr>) (users db)"
proof -
  have row: "changed_columns demote t (current_row u_id t (users db)) = t\<lparr>u_role := ''viewer''\<rparr>"
    using current_row_found [OF users_lookup [OF assms(1,2)]] assms(3) by (simp add: changed_columns_def demote_def)
  have changes: "update_user_changes demote t = [(''role'', JObj [(''from'', JStr ''admin''), (''to'', JStr ''viewer'')])]"
    using assms(3) by (simp add: update_user_changes_def demote_def)
  have "users_wf (users db)" using db_wfD(1) [OF assms(1)] .
  then have "user_ok t" "\<not> (\<exists>r \<in> set (users db). u_id r \<noteq> u_id t \<and> u_email r = u_email t)"
    using assms(2) by (auto simp: users_wf_def list_all_iff distinct_map dest: inj_onD)
  then have "flush_user (t\<lparr>u_role := ''viewer''\<rparr>) db = Inr (db\<lparr>users := replace_row u_id (t\<lparr>u_role := ''viewer''\<rparr>) (users db)\<rparr>)"
    by (simp add: flush_user_def user_ok_def fits_def)
  then show ?thesis unfolding write_update_def Let_def account_plan.simps row changes by simp
qed

lemma read_demotion:
  assumes "db_wf db" "count_active_admins db = 2" "t \<in> set (users db)" "t \<noteq> v" "v \<in> set (users db)"
    and "u_id t \<notin> set PROTECTED_USER_IDS" "require_role E [''admin''] token db = Inr v"
  shows "read_update E token (u_id t) demote db = Inr \<lparr> ap_admin = v, ap_target = t, ap_payload = demote \<rparr>"
proof -
  have "u_id t \<noteq> u_id v"
    using users_lookup [OF assms(1,3)] users_lookup [OF assms(1,5)] assms(4) by auto
  then show ?thesis
    using assms users_lookup [OF assms(1,3)]
    by (simp add: read_update_def demote_def VALID_ROLES_def check_not_protected_def)
qed

lemma only_two_admins:
  assumes "count_active_admins db = 2" "a \<in> set (users db)" "b \<in> set (users db)" "a \<noteq> b"
    and "u_role a = ''admin''" "u_is_active a" "u_role b = ''admin''" "u_is_active b"
    and "x \<in> set (users db)" "u_role x = ''admin''" "u_is_active x"
  shows "x = a \<or> x = b"
proof (rule ccontr)
  let ?as = "filter (\<lambda>u. u_role u = ''admin'' \<and> u_is_active u) (users db)"
  assume "\<not> (x = a \<or> x = b)"
  then have "card {a, b, x} = 3" using assms(4) by auto
  moreover have "{a, b, x} \<subseteq> set ?as" using assms by auto
  moreover have "card (set ?as) \<le> 2"
    using assms(1) card_length [of ?as] by (simp add: count_active_admins_def)
  ultimately show False using card_mono [of "set ?as" "{a, b, x}"] by simp
qed


text \<open>Two administrators of a database without the protected account.\<close>

definition two_admins :: db where
  "two_admins = empty_db\<lparr>users := [sample_user ''root'' ''admin'', sample_user ''ops'' ''admin'']\<rparr>"

lemma two_admins_simps [simp]:
  "users two_admins = [sample_user ''root'' ''admin'', sample_user ''ops'' ''admin'']" "db_wf two_admins"
  by (simp_all add: two_admins_def)
     (simp add: empty_db_def db_wf_def table_wf_defs serial_wf_def fk_def fk_opt_def user_ok_def fits_def)


section \<open>Promotions\<close>

text \<open>The promoting end of a heartbeat: it selects the event, then writes it by its id.\<close>

definition read_promotion :: "ext \<Rightarrow> string \<Rightarrow> db \<Rightarrow> ota_event option" where
  "read_promotion E n db = first_desc e_started_at (recent_events E n (clock E 1 - minutes 10) db)"

definition write_promotion :: "ext \<Rightarrow> string \<Rightarrow> ota_event \<Rightarrow> db \<Rightarrow> bool db_res" where
  "write_promotion E n event db =
     (let row = current_row e_id event (ota_events db)
      in case flush_event (row\<lparr>e_status := ''success'', e_completed_at := Some (clock E 2)\<rparr>) db of
        Inl e \<Rightarrow> (Inl e, db)
      | Inr db1 \<Rightarrow>
          (case update_firmware (pg_now E 1) n (e_to_version event) db1 of
             Inl e \<Rightarrow> (Inl e, db)
           | Inr db2 \<Rightarrow> (Inr True, db2)))"

definition decide_promotion :: "ext \<times> string \<Rightarrow> db \<Rightarrow> bool res + (ext \<times> string \<times> ota_event)" where
  "decide_promotion = (\<lambda>(E, n) db. case read_promotion E n db of None \<Rightarrow> Inl (Inr True) | Some e \<Rightarrow> Inr (E, n, e))"

definition execute_promotion :: "ext \<times> string \<times> ota_event \<Rightarrow> db \<Rightarrow> bool db_res" where
  "execute_promotion = (\<lambda>(E, n, e) db. write_promotion E n e db)"

lemma events_lookup: "db_wf db \<Longrightarrow> e \<in> set (ota_events db) \<Longrightarrow> lookup_key e_id (e_id e) (ota_events db) = Some e"
  using events_rows(1) by (simp add: lookup_key_Some_iff)

lemma read_promotion_SomeD:
  assumes "scan_ok E" "read_promotion E n db = Some e"
  shows "e \<in> set (ota_events db)" "event_active e" "e_device_id e = n"
  using first_desc_SomeD(1) [OF assms(2) [unfolded read_promotion_def]] assms(1) by (auto simp: recent_events_def)

lemma promote_ota_split:
  assumes "db_wf db" "scan_ok E"
  shows "promote_ota E n db = (case read_promotion E n db of None \<Rightarrow> (Inr True, db) | Some e \<Rightarrow> write_promotion E n e db)"
proof (cases "read_promotion E n db")
  case (Some e)
  then have "current_row e_id e (ota_events db) = e"
    using current_row_found events_lookup [OF assms(1)] read_promotion_SomeD(1) [OF assms(2)] by metis
  with Some show ?thesis
    unfolding promote_ota_def Let_def write_promotion_def read_promotion_def [symmetric] by simp
qed (simp add: promote_ota_def Let_def read_promotion_def)

lemma db_wf_write_promotion: "db_wf db \<Longrightarrow> db_wf (snd (write_promotion E n e db))"
  by (auto simp: write_promotion_def Let_def split: sum.split intro: db_wf_flush_event db_wf_update_firmware)

definition whole_promotion :: "ext \<times> string \<Rightarrow> db \<Rightarrow> bool db_res" where
  "whole_promotion = (\<lambda>(E, n) db. promote_ota E n db)"

interpretation promotions: two_phase decide_promotion execute_promotion whole_promotion db_wf "\<lambda>(E, n). scan_ok E" "\<lambda>p. True"
proof
  show "db_wf db \<Longrightarrow> (case r of (E, n) \<Rightarrow> scan_ok E) \<Longrightarrow>
      whole_promotion r db = (case decide_promotion r db of Inl a \<Rightarrow> (a, db) | Inr p \<Rightarrow> execute_promotion p db)" for r db
    by (cases r) (auto simp: whole_promotion_def decide_promotion_def execute_promotion_def promote_ota_split split: option.split)
  show "db_wf db \<Longrightarrow> db_wf (snd (execute_promotion p db))" for db p
    by (cases p) (simp add: execute_promotion_def db_wf_write_promotion)
qed simp_all

text \<open>However promotions overlap, the schema holds.\<close>

lemma overlapping_promotions_keep_schema:
  "overlaps decide_promotion execute_promotion db (map Asked requests) db' acts \<Longrightarrow> db_wf db \<Longrightarrow> db_wf db'"
  using promotions.overlaps_keep by blast

text \<open>
  An abort that comes between the two halves is undone: the event the heartbeat has selected is
  cancelled by the abort, which says so to its client, and is a success once the heartbeat has
  written. When the calls run one after another, aborted events stay cancelled.
\<close>

theorem late_promotion_undoes_abort:
  assumes "db_wf db" "scan_ok E" "read_promotion E n db = Some e"
  shows "e\<lparr>e_status := ''cancelled''\<rparr> \<in> set (ota_events (snd (abort_rollout (e_to_version e) db))) \<and>
         e\<lparr>e_status := ''success'', e_completed_at := Some (clock E 2)\<rparr> \<in>
           set (ota_events (snd (write_promotion E n e (snd (abort_rollout (e_to_version e) db)))))"
proof -
  let ?db1 = "snd (abort_rollout (e_to_version e) db)" and ?c = "e\<lparr>e_status := ''cancelled''\<rparr>"
  let ?s = "?c\<lparr>e_status := ''success'', e_completed_at := Some (clock E 2)\<rparr>"
  note e = read_promotion_SomeD [OF assms(2,3)]
  have wf: "db_wf ?db1" by (rule db_wf_abort_rollout [OF assms(1)])
  have c: "?c \<in> set (ota_events ?db1)"
    using e(1,2) by (auto simp: abort_rollout_def Let_def set_update_where intro!: rev_image_eqI [of e])
  then have "current_row e_id ?c (ota_events ?db1) = ?c"
    using current_row_found events_lookup [OF wf] by metis
  then have row: "current_row e_id e (ota_events ?db1) = ?c"
    using events_lookup [OF wf c] by (simp add: current_row_def)
  have "fits 32 (e_to_version e)" using events_rows(2) [OF assms(1) e(1)] by (simp add: event_ok_def)
  then have "ota_events (snd (write_promotion E n e ?db1)) = replace_row e_id ?s (ota_events ?db1)"
    unfolding write_promotion_def Let_def row using flush_event_returns [OF wf c, of "''success''"] by (simp add: fits_def)
  then have "?s \<in> set (ota_events (snd (write_promotion E n e ?db1)))"
    using replace_row_mem [OF c, of e_id ?s] by simp
  with c show ?thesis by simp
qed

theorem late_promotion_undoes_abort_witness:
  "(sample_event 1 ''dev3'' ''flashing'' 950)\<lparr>e_status := ''success'', e_completed_at := Some (clock demo_ext 2)\<rparr> \<in>
     set (ota_events (snd (write_promotion demo_ext ''dev3'' (sample_event 1 ''dev3'' ''flashing'' 950)
       (snd (abort_rollout ''1.1'' sample_db)))))"
proof -
  have "read_promotion demo_ext ''dev3'' sample_db = Some (sample_event 1 ''dev3'' ''flashing'' 950)"
    by (simp add: read_promotion_def recent_events_def first_desc_def event_active_def active_statuses_def
        minutes_def seconds_def demo_ext_def)
  from late_promotion_undoes_abort [OF db_wf_sample demo_ext_ok(1) this] show ?thesis by simp
qed

section \<open>Cancelling while the job runs\<close>

text \<open>
  The job selects the due rows FOR UPDATE, but the first commit inside its loop gives their locks up.
  From then on other sessions may change them; the session of the job goes on with the rows it has
  in memory, on the database as the others have left it.
\<close>

definition resume_sweep :: "db \<Rightarrow> sweep \<Rightarrow> sweep" where
  "resume_sweep db s = s\<lparr>sw_committed := db, sw_working := db\<rparr>"

text \<open>With a broker that accepts, a turn of the loop fires its row and leaves nothing pending.\<close>

lemma fire_row_fires:
  assumes "sweep_wf s" "scan_ok E" "row \<in> set (scheduled_rollouts (sw_working s))" "canary_ok (request_of row)"
    and "\<forall>topic. \<not> publish_raises E topic"
  shows "\<exists>f e s'. fire_row E row s = (None, s') \<and> sweep_wf s' \<and> sw_committed s' = sw_working s' \<and>
    sw_fired s' = sw_fired s @ [r_id row] \<and>
    scheduled_rollouts (sw_working s') = replace_row r_id (ended ''fired'' f e row) (scheduled_rollouts (sw_working s))"
  by (rule fire_row_step [OF assms(1-4)]) (use assms(5) in auto)

text \<open>
  A rollout that is cancelled after the job has fired the one before it is fired all the same: its
  client was told that it is cancelled, the next turn of the loop starts it and writes \<open>fired\<close>. When
  the calls run one after another, a cancelled rollout stays cancelled.
\<close>

theorem late_fire_undoes_cancel:
  assumes "db_wf db" "scan_ok E" "scan E (filter (due (clock E 0)) (scheduled_rollouts db)) = first # second # rest"
    and "canary_ok (request_of first)" "canary_ok (request_of second)" "\<forall>topic. \<not> publish_raises E topic"
    and "fire_row E first (start_sweep db) = (None, s1)"
    and "cancel_scheduled E' token (r_id second) (sw_committed s1) = (Inr c, db2)"
  shows "r_status c = ''cancelled'' \<and> c \<in> set (scheduled_rollouts db2) \<and>
    (\<exists>s2. fire_row E second (resume_sweep db2 s1) = (None, s2) \<and> sw_fired s2 = [r_id first, r_id second] \<and>
       (\<exists>r \<in> set (scheduled_rollouts (sw_committed s2)). r_id r = r_id second \<and> r_status r = ''fired''))"
proof -
  have "set (first # second # rest) \<subseteq> set (scheduled_rollouts db)"
    using arg_cong [OF assms(3), of set] assms(2) by auto
  then have mem: "first \<in> set (scheduled_rollouts db)" "second \<in> set (scheduled_rollouts db)" by auto
  have "distinct (map r_id (scan E (filter (due (clock E 0)) (scheduled_rollouts db))))"
    using rollout_rows(1) [OF assms(1)] by (simp add: distinct_scan_map [OF assms(2)] distinct_map_filter)
  then have ne: "r_id second \<noteq> r_id first" unfolding assms(3) by simp
  have "sweep_wf (start_sweep db)" "first \<in> set (scheduled_rollouts (sw_working (start_sweep db)))"
    using assms(1) mem(1) by (simp_all add: start_sweep_def)
  from fire_row_fires [OF this(1) assms(2) this(2) assms(4,6)] obtain f e where
    s1: "sweep_wf s1" "sw_committed s1 = sw_working s1" "sw_fired s1 = [r_id first]"
      "scheduled_rollouts (sw_working s1) = replace_row r_id (ended ''fired'' f e first) (scheduled_rollouts db)"
    unfolding assms(7) by (auto simp: start_sweep_def)
  have wf1: "db_wf (sw_committed s1)" using s1(1) by (simp add: sweep_wf_def)
  have "second \<in> set (scheduled_rollouts (sw_committed s1))"
    unfolding s1(2,4) using mem(2) ne by (intro replace_row_keeps) simp_all
  then have "lookup_key r_id (r_id second) (scheduled_rollouts (sw_committed s1)) = Some second"
    using rollout_rows(1) [OF wf1] by (simp add: lookup_key_Some_iff)
  then have c: "c = second\<lparr>r_status := ''cancelled''\<rparr>" "c \<in> set (scheduled_rollouts db2)"
    using cancel_scheduled_InrD [OF assms(8)] by auto
  have "db_wf db2" using cancel_scheduled_inv [OF wf1, of E' token "r_id second"] assms(8) by simp
  then have wf2: "sweep_wf (resume_sweep db2 s1)" by (simp add: resume_sweep_def)
  have c2: "c \<in> set (scheduled_rollouts (sw_working (resume_sweep db2 s1)))" using c(2) by (simp add: resume_sweep_def)
  have "canary_ok (request_of c)" using assms(5) by (simp add: c(1) request_of_def)
  from fire_row_fires [OF wf2 assms(2) c2 this assms(6)] obtain f' e' s2 where
    s2: "fire_row E c (resume_sweep db2 s1) = (None, s2)" "sw_committed s2 = sw_working s2"
      "sw_fired s2 = sw_fired (resume_sweep db2 s1) @ [r_id c]"
      "scheduled_rollouts (sw_working s2) =
         replace_row r_id (ended ''fired'' f' e' c) (scheduled_rollouts (sw_working (resume_sweep db2 s1)))"
    by blast
  have "ended ''fired'' f' e' c \<in> set (scheduled_rollouts (sw_committed s2))"
    unfolding s2(2,4) using c2 by (intro replace_row_mem) simp_all
  moreover have "fire_row E second (resume_sweep db2 s1) = (None, s2)"
    using s2(1) fire_row_status [OF c(1)] by simp
  moreover have "sw_fired s2 = [r_id first, r_id second]"
    using s2(3) s1(3) by (simp add: resume_sweep_def c(1))
  moreover have "r_id (ended ''fired'' f' e' c) = r_id second" by (simp add: c(1))
  ultimately show ?thesis using c by (intro conjI exI [of _ s2] bexI [of _ "ended ''fired'' f' e' c"]) simp_all
qed

end
