(* ===== verification/Access_Control.thy ===== *)
theory Access_Control
  imports Fleet_System
begin

text \<open>
  Who may change what. \<open>guard_of\<close> is the access table of the server: for every call that carries a
  token, the roles its route admits (\<^verbatim>\<open>api/router.py\<close> and the guards of the single routes), nothing
  for an account of any role. The lemma \<open>refused_unchanged\<close> shows that a call whose guard refuses it
  leaves the whole system as it was; with the soundness of the guards, every change made through the
  API is made by an active account that shows a valid token of an admitted role.
\<close>

section \<open>The access table\<close>

definition admins :: "string list" where "admins = [''admin'']"
definition operators :: "string list" where "operators = [''admin'', ''operator'']"
definition everyone :: "string list" where "everyone = [''admin'', ''operator'', ''viewer'']"

fun guard_of :: "call \<Rightarrow> (string option \<times> string list option) option" where
  "guard_of (CreateUser t p) = Some (t, Some admins)"
| "guard_of (ChangeMyPassword t cur new) = Some (t, None)"
| "guard_of (UpdateUser t uid p) = Some (t, Some admins)"
| "guard_of (ResetUserPassword t uid) = Some (t, Some admins)"
| "guard_of (CreateDevice t p) = Some (t, Some everyone)"
| "guard_of (UpdateDevice t did p) = Some (t, Some everyone)"
| "guard_of (DeleteDevice t did) = Some (t, Some everyone)"
| "guard_of (CreateHome t p) = Some (t, Some everyone)"
| "guard_of (UpdateHome t hid p) = Some (t, Some everyone)"
| "guard_of (DeleteHome t hid) = Some (t, Some everyone)"
| "guard_of (AssignCommunity t hid cid) = Some (t, Some everyone)"
| "guard_of (RemoveCommunity t hid cid) = Some (t, Some everyone)"
| "guard_of (CreateCommunity t p) = Some (t, Some everyone)"
| "guard_of (UpdateCommunity t cid p) = Some (t, Some everyone)"
| "guard_of (DeleteCommunity t cid) = Some (t, Some everyone)"
| "guard_of (CreateGroup t p) = Some (t, Some operators)"
| "guard_of (UpdateGroup t gid p) = Some (t, Some operators)"
| "guard_of (DeleteGroup t gid) = Some (t, Some operators)"
| "guard_of (SendBroadcast t p) = Some (t, Some everyone)"
| "guard_of (AcknowledgeBroadcast t i p) = Some (t, Some everyone)"
| "guard_of (UploadFirmware t v notes_text content) = Some (t, Some operators)"
| "guard_of (StartRollout t q) = Some (t, Some everyone)"
| "guard_of (AbortRollout t v) = Some (t, Some everyone)"
| "guard_of (CreateScheduled t p) = Some (t, Some operators)"
| "guard_of (CancelScheduled t i) = Some (t, Some operators)"
| "guard_of (Provision B t ty) = Some (t, Some operators)"
| "guard_of _ = None"

text \<open>The account a guard lets through.\<close>

definition admitted :: "ext \<Rightarrow> string list option \<Rightarrow> string option \<Rightarrow> db \<Rightarrow> user res" where
  "admitted E roles token db =
     (case roles of None \<Rightarrow> require_auth E token db | Some rs \<Rightarrow> require_role E rs token db)"

section \<open>A refused call\<close>

lemma route_user_refuses:
  assumes "require_role E rs token db = Inl e"
  shows "\<exists>e'. route_user E (Some rs) token db = Inl e'"
  using assms by (auto simp: route_user_def split: sum.split)

lemma any_auth_everyone: "any_auth E token db = require_role E everyone token db"
  by (simp add: any_auth_def everyone_def)

lemma route_user_everyone: "require_role E everyone token db = Inl e \<Longrightarrow> route_user E None token db = Inl e"
  by (simp add: route_user_def any_auth_everyone)

lemmas account_calls = create_user_def update_user_def reset_user_password_def change_my_password_def

lemmas fleet_calls = create_device_def update_device_def delete_device_def create_home_def update_home_def
  delete_home_def assign_community_def remove_community_def create_community_def update_community_def
  delete_community_def send_broadcast_def acknowledge_broadcast_def api_abort_rollout_def

lemmas operator_calls = create_group_def update_group_def delete_group_def upload_firmware_def
  create_scheduled_def cancel_scheduled_def

lemma refused_unchanged:
  assumes "guard_of c = Some (token, roles)" "admitted E roles token (sys_db s) = Inl e"
  shows "perform E c s = s"
proof -
  have op: "\<exists>e'. route_user E (Some operators) t db = Inl e'" if "require_role E operators t db = Inl e" for t db e
    using that by (rule route_user_refuses)
  show ?thesis
    using assms
    by (cases c)
       (auto simp: perform_def admitted_def account_calls admins_def fleet_calls any_auth_everyone
          operator_calls api_start_rollout_def provision_def simp flip: operators_def
          dest!: route_user_everyone op)
qed

section \<open>An admitted account\<close>

text \<open>The token names the account and one of the roles.\<close>

definition shows_token :: "ext \<Rightarrow> string option \<Rightarrow> string list option \<Rightarrow> user \<Rightarrow> bool" where
  "shows_token E token roles u \<longleftrightarrow>
     (\<exists>t claims. token = Some t \<and> decode_token E t = Some claims \<and>
        map_of claims ''sub'' = Some (JStr (u_id u)) \<and>
        (case roles of None \<Rightarrow> True | Some rs \<Rightarrow> \<exists>r \<in> set rs. map_of claims ''role'' = Some (JStr r)))"

lemma require_auth_shows_token:
  assumes "bind_ok E" "require_auth E token db = Inr u"
  shows "u \<in> set (users db) \<and> u_is_active u \<and> shows_token E token None u"
proof -
  obtain t claims where t: "token = Some t" "decode_token E t = Some claims"
    and sel: "select_user E (claim claims ''sub'') db = Inr (Some u)" and act: "u_is_active u"
    using assms(2)
    by (auto simp: require_auth_def get_current_user_def no_token_def split: sum.splits option.splits if_splits)
  have "bind_text E (claim claims ''sub'') = Some (Some (u_id u))" "u \<in> set (users db)"
    using select_user_InrD [OF sel] by simp_all
  then have "map_of claims ''sub'' = Some (JStr (u_id u))"
    using bind_text_eq(1) [OF assms(1)] by (fastforce simp: claim_def split: option.splits)
  with t act \<open>u \<in> set (users db)\<close> show ?thesis by (auto simp: shows_token_def)
qed

lemma require_role_shows_token:
  assumes "bind_ok E" "require_role E rs token db = Inr u"
  shows "u \<in> set (users db) \<and> u_is_active u \<and> shows_token E token (Some rs) u"
proof -
  obtain t claims r where t: "token = Some t" "decode_token E t = Some claims"
    "map_of claims ''role'' = Some (JStr r)" "r \<in> set rs"
    and sub: "bind_text E (claim claims ''sub'') = Some (Some (u_id u))"
    using require_role_Inr_claims [OF assms(2)] by blast
  have "map_of claims ''sub'' = Some (JStr (u_id u))"
    using bind_text_eq(1) [OF assms(1) sub] by (auto simp: claim_def split: option.splits)
  with t require_role_InrD [OF assms(2)] show ?thesis by (auto simp: shows_token_def)
qed

text \<open>
  C8: nothing changes through the API without authority. If a request that carries a token changes
  anything at all, in the database or in the firmware storage, then there is an existing active
  account whose id the token names, the token decodes at that moment, and its role is one of those
  the access table gives for the request: administrators for account management, administrators and
  operators for groups, firmware, schedules and provisioning, and any role for the rest.
\<close>

theorem changes_are_authorised:
  assumes "bind_ok E" "guard_of c = Some (token, roles)" "perform E c s \<noteq> s"
  shows "\<exists>u. u \<in> set (users (sys_db s)) \<and> u_is_active u \<and> shows_token E token roles u"
proof -
  obtain u where u: "admitted E roles token (sys_db s) = Inr u"
    using refused_unchanged [OF assms(2)] assms(3) by (cases "admitted E roles token (sys_db s)") auto
  show ?thesis
  proof (cases roles)
    case None
    with u show ?thesis using require_auth_shows_token [OF assms(1)] by (auto simp: admitted_def)
  next
    case (Some rs)
    with u have "require_role E rs token (sys_db s) = Inr u" by (simp add: admitted_def)
    from require_role_shows_token [OF assms(1) this] Some show ?thesis by blast
  qed
qed

theorem changes_are_authorised_witness:
  "\<exists>u. u \<in> set (users sample_db) \<and> u_is_active u \<and> shows_token demo_ext (sample_token ''admin'') (Some everyone) u"
proof -
  let ?s = "\<lparr> sys_db = sample_db, sys_files = Map.empty, sys_listening = True \<rparr>"
  have "ota_events (sys_db (perform demo_ext (AbortRollout (sample_token ''admin'') ''1.1'') ?s)) \<noteq> ota_events sample_db"
    by (simp add: perform_def api_abort_rollout_def abort_rollout_def Let_def update_where_def sample_event_def
        event_active_def active_statuses_def)
  then have "perform demo_ext (AbortRollout (sample_token ''admin'') ''1.1'') ?s \<noteq> ?s" by auto
  from changes_are_authorised [OF demo_ext_ok(2) _ this] show ?thesis by simp
qed

end
