(* ===== verification/Responses.thy ===== *)
theory Responses
  imports Access_Control
begin

text \<open>
  What the server tells its clients: the response models of \<^verbatim>\<open>schemas/\<close> and \<^verbatim>\<open>api/auth.py\<close> where they
  show less than the row they are built from (accounts, devices, scheduled rollouts; the other models
  have a field for every column, so their rows stand for them), and \<open>respond\<close>, which gives the body of every read request. The lemmas
  show that no answer depends on what the models leave out.
\<close>

section \<open>Response models\<close>

record user_response =
  ur_id :: string
  ur_email :: string
  ur_role :: string
  ur_is_active :: bool

definition user_response_of :: "user \<Rightarrow> user_response" where
  "user_response_of u =
     \<lparr> ur_id = u_id u, ur_email = u_email u, ur_role = u_role u, ur_is_active = u_is_active u \<rparr>"

record device_response =
  dr_device_id :: string
  dr_mac :: "string option"
  dr_display_name :: "string option"
  dr_custom_id :: "string option"
  dr_firmware_version :: "string option"
  dr_role :: string
  dr_status :: string
  dr_last_seen :: "datetime option"
  dr_home_id :: "string option"
  dr_rssi :: "int option"
  dr_heap :: "int option"
  dr_uptime :: "int option"
  dr_created_at :: datetime
  dr_updated_at :: datetime

definition device_response_of :: "device \<Rightarrow> device_response" where
  "device_response_of d =
     \<lparr> dr_device_id = d_device_id d, dr_mac = d_mac d, dr_display_name = d_display_name d,
       dr_custom_id = d_custom_id d, dr_firmware_version = d_firmware_version d, dr_role = d_role d,
       dr_status = d_status d, dr_last_seen = d_last_seen d, dr_home_id = d_home_id d, dr_rssi = d_rssi d,
       dr_heap = d_heap d, dr_uptime = d_uptime d, dr_created_at = d_created_at d, dr_updated_at = d_updated_at d \<rparr>"

record device_list_response =
  dl_items :: "device_response list"
  dl_total :: nat
  dl_limit :: int
  dl_offset :: int

definition device_list_of :: "device_page \<Rightarrow> device_list_response" where
  "device_list_of p =
     \<lparr> dl_items = map device_response_of (pg_items p), dl_total = pg_total p, dl_limit = pg_limit p,
       dl_offset = pg_offset p \<rparr>"

record scheduled_response =
  sr_id :: int
  sr_target_version :: string
  sr_strategy :: string
  sr_target_devices :: "string list"
  sr_canary_count :: "int option"
  sr_fire_at :: datetime
  sr_status :: string
  sr_created_at :: datetime
  sr_fired_at :: "datetime option"
  sr_error :: "string option"

definition scheduled_response_of :: "scheduled_rollout \<Rightarrow> scheduled_response" where
  "scheduled_response_of r =
     \<lparr> sr_id = r_id r, sr_target_version = r_target_version r, sr_strategy = r_strategy r,
       sr_target_devices = r_target_devices r, sr_canary_count = r_canary_count r, sr_fire_at = r_fire_at r,
       sr_status = r_status r, sr_created_at = r_created_at r, sr_fired_at = r_fired_at r, sr_error = r_error r \<rparr>"

section \<open>Read requests\<close>

datatype query =
    GetMe "string option"
  | Verify "string option"
  | ListUsers "string option"
  | ListDevices "string option" device_query
  | ListFacet "string option" string
  | GetDevice "string option" string
  | ListHomes "string option" int int
  | GetHome "string option" string
  | ListHomeCommunities "string option" string
  | ListCommunities "string option" int int
  | GetCommunity "string option" string
  | ListCommunityHomes "string option" string
  | ListGroups "string option"
  | GetGroup "string option" int
  | ListBroadcasts "string option" "string option" int int
  | GetBroadcast "string option" int
  | ListFirmware "string option"
  | GetFirmware "string option" string
  | PreviewRollout "string option" rollout_request
  | ListEvents "string option" "string option"
  | ListCampaigns "string option" int
  | ListScheduled "string option"
  | GetJob "string option" string
  | DownloadFirmware string
  | Manifest string

datatype answer =
    User user_response
  | Headers "(string \<times> string) list \<times> json"
  | UserList "user_response list"
  | Device device_response
  | DeviceList device_list_response
  | Facet "string list"
  | HomeDetail "home \<times> community list"
  | HomeList "home list"
  | Community community
  | CommunityList "community list"
  | Group group_response
  | GroupList "group_response list"
  | BroadcastDetail "broadcast \<times> delivery_stats"
  | BroadcastList "broadcast list"
  | Firmware firmware_version
  | FirmwareList "firmware_version list"
  | Preview rollout_preview
  | Events "ota_event list"
  | Campaigns "campaign list"
  | ScheduledList "scheduled_response list"
  | Job provision_job
  | Binary "string \<times> string"
  | Json json

fun respond :: "ext \<Rightarrow> query \<Rightarrow> files \<Rightarrow> db \<Rightarrow> answer res" where
  "respond E (GetMe t) fs db = map_sum id (\<lambda>u. User (user_response_of u)) (get_me E t db)"
| "respond E (Verify t) fs db = map_sum id Headers (verify E t db)"
| "respond E (ListUsers t) fs db = map_sum id (\<lambda>us. UserList (map user_response_of us)) (list_users E t db)"
| "respond E (ListDevices t q) fs db = map_sum id (\<lambda>p. DeviceList (device_list_of p)) (list_devices E t q db)"
| "respond E (ListFacet t c) fs db = map_sum id Facet (list_facet E t c db)"
| "respond E (GetDevice t i) fs db = map_sum id (\<lambda>d. Device (device_response_of d)) (get_device E t i db)"
| "respond E (ListHomes t skip limit) fs db = map_sum id HomeList (list_homes E t skip limit db)"
| "respond E (GetHome t i) fs db = map_sum id HomeDetail (get_home E t i db)"
| "respond E (ListHomeCommunities t i) fs db = map_sum id CommunityList (list_home_communities E t i db)"
| "respond E (ListCommunities t skip limit) fs db = map_sum id CommunityList (list_communities E t skip limit db)"
| "respond E (GetCommunity t i) fs db = map_sum id Community (get_community E t i db)"
| "respond E (ListCommunityHomes t i) fs db = map_sum id HomeList (list_community_homes E t i db)"
| "respond E (ListGroups t) fs db = map_sum id GroupList (list_groups E t db)"
| "respond E (GetGroup t i) fs db = map_sum id Group (get_group E t i db)"
| "respond E (ListBroadcasts t c skip limit) fs db = map_sum id BroadcastList (list_broadcasts E t c skip limit db)"
| "respond E (GetBroadcast t i) fs db = map_sum id BroadcastDetail (get_broadcast E t i db)"
| "respond E (ListFirmware t) fs db = map_sum id FirmwareList (list_firmware E t db)"
| "respond E (GetFirmware t v) fs db = map_sum id Firmware (get_firmware E t v db)"
| "respond E (PreviewRollout t q) fs db = map_sum id Preview (api_preview_rollout E t q db)"
| "respond E (ListEvents t v) fs db = map_sum id Events (api_list_events E t v db)"
| "respond E (ListCampaigns t limit) fs db = map_sum id Campaigns (api_list_campaigns E t limit db)"
| "respond E (ListScheduled t) fs db =
     map_sum id (\<lambda>rs. ScheduledList (map scheduled_response_of rs)) (list_scheduled E t db)"
| "respond E (GetJob t i) fs db = map_sum id Job (get_job E t i db)"
| "respond E (DownloadFirmware i) fs db = map_sum id Binary (download_firmware E i fs)"
| "respond E (Manifest i) fs db = Inr (Json (manifest E i))"

section \<open>What the models leave out\<close>

definition hide_user :: "user \<Rightarrow> user" where
  "hide_user u = u\<lparr>u_hashed_password := []\<rparr>"

definition hide_device :: "device \<Rightarrow> device" where
  "hide_device d = d\<lparr>d_target_firmware_version := None, d_device_type := [], d_provision_token := None\<rparr>"

definition hide_group :: "device_group \<Rightarrow> device_group" where
  "hide_group g = g\<lparr>g_created_by := None\<rparr>"

definition hide_rollout :: "scheduled_rollout \<Rightarrow> scheduled_rollout" where
  "hide_rollout r = r\<lparr>r_created_by := None\<rparr>"

text \<open>The database without what no client is to see; the audit log has no endpoint at all.\<close>

definition public_view :: "db \<Rightarrow> db" where
  "public_view db =
     db\<lparr>users := map hide_user (users db), devices := map hide_device (devices db),
        device_groups := map hide_group (device_groups db),
        scheduled_rollouts := map hide_rollout (scheduled_rollouts db), audit_log := []\<rparr>"

lemma public_view_simps [simp]:
  "users (public_view db) = map hide_user (users db)"
  "devices (public_view db) = map hide_device (devices db)"
  "device_groups (public_view db) = map hide_group (device_groups db)"
  "scheduled_rollouts (public_view db) = map hide_rollout (scheduled_rollouts db)"
  "homes (public_view db) = homes db" "communities (public_view db) = communities db"
  "home_community (public_view db) = home_community db" "broadcasts (public_view db) = broadcasts db"
  "broadcast_acks (public_view db) = broadcast_acks db" "firmware_versions (public_view db) = firmware_versions db"
  "ota_events (public_view db) = ota_events db" "provision_jobs (public_view db) = provision_jobs db"
  "device_group_members (public_view db) = device_group_members db"
  by (simp_all add: public_view_def)

lemma hide_simps [simp]:
  "u_id (hide_user u) = u_id u" "u_email (hide_user u) = u_email u" "u_role (hide_user u) = u_role u"
  "u_is_active (hide_user u) = u_is_active u" "u_created_at (hide_user u) = u_created_at u"
  "d_device_id (hide_device d) = d_device_id d" "d_status (hide_device d) = d_status d"
  "d_role (hide_device d) = d_role d" "d_firmware_version (hide_device d) = d_firmware_version d"
  "d_home_id (hide_device d) = d_home_id d" "d_custom_id (hide_device d) = d_custom_id d"
  "d_display_name (hide_device d) = d_display_name d" "d_last_seen (hide_device d) = d_last_seen d"
  "d_created_at (hide_device d) = d_created_at d" "d_updated_at (hide_device d) = d_updated_at d"
  "g_id (hide_group g) = g_id g" "g_name (hide_group g) = g_name g"
  "g_description (hide_group g) = g_description g" "g_created_at (hide_group g) = g_created_at g"
  "g_updated_at (hide_group g) = g_updated_at g"
  "r_id (hide_rollout r) = r_id r" "r_fire_at (hide_rollout r) = r_fire_at r"
  by (simp_all add: hide_user_def hide_device_def hide_group_def hide_rollout_def)

lemma response_of_hidden [simp]:
  "user_response_of (hide_user u) = user_response_of u"
  "device_response_of (hide_device d) = device_response_of d"
  "scheduled_response_of (hide_rollout r) = scheduled_response_of r"
  by (simp_all add: user_response_of_def device_response_of_def hide_device_def scheduled_response_of_def hide_rollout_def)

section \<open>Answers depend on the public view alone\<close>

text \<open>Scanning, sorting and looking up commute with a map of the rows that keeps keys.\<close>

lemma scan_map:
  assumes "scan_ok E"
  shows "scan E (map f rows) = map f (scan E rows)"
proof -
  have "set (row_order E n) = {0..<n}" for n
    using assms by (metis scan_ok_def set_mset_mset set_upt)
  then show ?thesis by (simp add: scan_def)
qed

lemma insort_key_map: "insort_key k (f x) (map f xs) = map f (insort_key (\<lambda>x. k (f x)) x xs)"
  by (induction xs) simp_all

lemma sort_key_map: "sort_key k (map f xs) = map f (sort_key (\<lambda>x. k (f x)) xs)"
  by (induction xs) (simp_all add: insort_key_map)

lemma lookup_key_map:
  "(\<And>r. key (f r) = key r) \<Longrightarrow> lookup_key key k (map f rows) = map_option f (lookup_key key k rows)"
  by (induction rows) (simp_all add: lookup_key_def)

lemma find_map: "find P (map f xs) = map_option f (find (\<lambda>x. P (f x)) xs)"
  by (induction xs) simp_all

lemmas row_maps = scan_map sort_key_map lookup_key_map filter_map comp_def

lemma require_role_public: "require_role E rs t (public_view db) = map_sum id hide_user (require_role E rs t db)"
  by (simp add: require_role_def select_user_def find_map split: option.split sum.split)

lemma require_auth_public: "require_auth E t (public_view db) = map_sum id hide_user (require_auth E t db)"
  by (simp add: require_auth_def get_current_user_def select_user_def find_map split: option.split sum.split)

lemma any_auth_public: "any_auth E t (public_view db) = map_sum id hide_user (any_auth E t db)"
  by (simp add: any_auth_def require_role_public)

lemma page_rows_map: "page_rows skip limit (map f rows) = map_sum id (map f) (page_rows skip limit rows)"
  by (simp add: page_rows_def take_map drop_map)

lemma limit_rows_map: "limit_rows n (map f rows) = map_sum id (map f) (limit_rows n rows)"
  by (simp add: limit_rows_def take_map)

lemma device_matches_hidden: "device_matches E q (hide_device d) = device_matches E q d"
proof -
  have "search_matches E w (hide_device d) = search_matches E w d" for w
    by (simp add: search_matches_def)
  then show ?thesis unfolding device_matches_def hide_simps by (simp only:)
qed

lemma order_cell_hidden: "order_cell E spec (hide_device d) = order_cell E spec d"
proof -
  have "sort_column E name (hide_device d) = sort_column E name d" for name
    by (simp add: sort_column_def)
  then show ?thesis by (simp add: order_cell_def)
qed

lemma get_filtered_paginated_public:
  assumes "scan_ok E"
  shows "get_filtered_paginated E q (public_view db) =
           map_sum id (\<lambda>(items, n). (map hide_device items, n)) (get_filtered_paginated E q db)"
proof -
  let ?rows = "sort_key (order_cell E (dq_sort q)) (scan E (filter (device_matches E q) (devices db)))"
  have "sort_key (order_cell E (dq_sort q)) (scan E (filter (device_matches E q) (devices (public_view db)))) =
      map hide_device ?rows"
    using assms by (simp add: row_maps device_matches_hidden order_cell_hidden)
  moreover have "length (filter (device_matches E q) (devices (public_view db))) = length (filter (device_matches E q) (devices db))"
    by (simp add: row_maps device_matches_hidden)
  ultimately show ?thesis
    unfolding get_filtered_paginated_def Let_def
    by (cases "page_rows (dq_skip q) (dq_limit q) ?rows") (simp_all add: page_rows_map)
qed

lemma list_devices_public:
  assumes "scan_ok E"
  shows "map_sum id (\<lambda>p. f (device_list_of p)) (list_devices E t q (public_view db)) =
           map_sum id (\<lambda>p. f (device_list_of p)) (list_devices E t q db)"
proof (cases "any_auth E t db")
  case (Inr u)
  then show ?thesis
    by (cases "get_filtered_paginated E q db")
       (auto simp: list_devices_def any_auth_public get_filtered_paginated_public [OF assms] device_list_of_def comp_def)
qed (simp add: list_devices_def any_auth_public)

lemma list_facet_public: "list_facet E t c (public_view db) = list_facet E t c db"
proof -
  have "non_null col (map hide_device ds) = non_null col ds" if "facet_column c = Some col" for col ds
    using that by (induction ds) (auto simp: facet_column_def non_null_def List.map_filter_def split: if_splits)
  then have "distinct_values E c (public_view db) = distinct_values E c db"
    by (auto simp: distinct_values_def split: option.split)
  then show ?thesis by (cases "any_auth E t db") (simp_all add: list_facet_def any_auth_public)
qed

lemma members_public: "scan_ok E \<Longrightarrow> members_of E gid (public_view db) = members_of E gid db"
  by (simp add: members_of_def row_maps)

lemma to_response_public: "scan_ok E \<Longrightarrow> to_response E (hide_group g) (public_view db) = to_response E g db"
  by (simp add: to_response_def members_public)

lemma groups_public:
  assumes "scan_ok E"
  shows "list_groups E t (public_view db) = list_groups E t db" "get_group E t i (public_view db) = get_group E t i db"
proof -
  show "list_groups E t (public_view db) = list_groups E t db"
    using assms
    by (cases "any_auth E t db") (simp_all add: list_groups_def any_auth_public row_maps to_response_public)
  show "get_group E t i (public_view db) = get_group E t i db"
    using assms
    by (cases "any_auth E t db"; cases "lookup_key g_id i (device_groups db)")
       (simp_all add: get_group_def any_auth_public row_maps to_response_public)
qed

lemma join_community_public:
  "join_community c (public_view db) (map hide_device ds) = map hide_device (join_community c db ds)"
  by (simp add: join_community_def map_concat comp_def)

lemma eligible_hidden: "eligible v (hide_device d) = eligible v d" "eligible v \<circ> hide_device = eligible v"
  by (simp_all add: eligible_def fun_eq_iff)

lemma request_devices_public:
  assumes "scan_ok E"
  shows "request_devices E q (public_view db) = map_sum id (map hide_device) (request_devices E q db)"
proof -
  note rows = row_maps [where f = hide_device] eligible_hidden join_community_public limit_rows_map
  show ?thesis
    using assms
    by (auto simp: request_devices_def select_devices_def Let_def rows split: option.split list.split)
qed

lemma tally_hidden: "(\<And>d. f (hide_device d) = f d) \<Longrightarrow> tally f (map hide_device ds) = tally f ds"
  by (simp add: tally_def foldl_map)

lemma preview_public:
  assumes "scan_ok E"
  shows "api_preview_rollout E t q (public_view db) = api_preview_rollout E t q db"
proof -
  have "preview_rollout E q (public_view db) = preview_rollout E q db"
    by (cases "request_devices E q db"; cases "get_by_version (q_target_version q) db")
       (simp_all add: preview_rollout_def get_by_version_def request_devices_public [OF assms] tally_hidden comp_def)
  then show ?thesis by (cases "any_auth E t db") (simp_all add: api_preview_rollout_def any_auth_public)
qed

lemma accounts_public:
  assumes "scan_ok E"
  shows "map_sum id (\<lambda>u. f (user_response_of u)) (get_me E t (public_view db)) =
           map_sum id (\<lambda>u. f (user_response_of u)) (get_me E t db)"
    and "verify E t (public_view db) = verify E t db"
    and "map_sum id (\<lambda>us. g (map user_response_of us)) (list_users E t (public_view db)) =
           map_sum id (\<lambda>us. g (map user_response_of us)) (list_users E t db)"
proof -
  show "map_sum id (\<lambda>u. f (user_response_of u)) (get_me E t (public_view db)) =
      map_sum id (\<lambda>u. f (user_response_of u)) (get_me E t db)"
    unfolding get_me_def require_role_public by (cases "require_role E [''admin'', ''operator'', ''viewer''] t db") simp_all
  show "verify E t (public_view db) = verify E t db"
    by (cases "require_auth E t db") (simp_all add: verify_def require_auth_public)
  show "map_sum id (\<lambda>us. g (map user_response_of us)) (list_users E t (public_view db)) =
      map_sum id (\<lambda>us. g (map user_response_of us)) (list_users E t db)"
    using assms
    by (cases "require_role E [''admin''] t db") (simp_all add: list_users_def require_role_public row_maps)
qed

lemma get_device_public:
  "map_sum id (\<lambda>d. f (device_response_of d)) (get_device E t i (public_view db)) =
     map_sum id (\<lambda>d. f (device_response_of d)) (get_device E t i db)"
  by (cases "any_auth E t db"; cases "lookup_key d_device_id i (devices db)")
     (simp_all add: get_device_def any_auth_public get_by_id_def lookup_key_map)

lemma list_scheduled_public:
  assumes "scan_ok E"
  shows "map_sum id (\<lambda>rs. f (map scheduled_response_of rs)) (list_scheduled E t (public_view db)) =
           map_sum id (\<lambda>rs. f (map scheduled_response_of rs)) (list_scheduled E t db)"
  using assms
  by (cases "any_auth E t db") (simp_all add: list_scheduled_def any_auth_public row_maps)

text \<open>The endpoints that read only tables without anything to hide.\<close>

lemmas home_reads = list_homes_def get_home_def list_home_communities_def list_communities_def get_community_def
  list_community_homes_def get_all_def get_with_communities_def communities_of_def get_by_id_def get_homes_def
  get_with_homes_def homes_of_def

lemma homes_public:
  "list_homes E t skip limit (public_view db) = list_homes E t skip limit db"
  "get_home E t i (public_view db) = get_home E t i db"
  "list_home_communities E t i (public_view db) = list_home_communities E t i db"
  "list_communities E t skip limit (public_view db) = list_communities E t skip limit db"
  "get_community E t i (public_view db) = get_community E t i db"
  "list_community_homes E t i (public_view db) = list_community_homes E t i db"
proof -
  show "list_homes E t skip limit (public_view db) = list_homes E t skip limit db"
    by (cases "any_auth E t db") (simp_all add: any_auth_public home_reads)
  show "get_home E t i (public_view db) = get_home E t i db"
    by (cases "any_auth E t db") (simp_all add: any_auth_public home_reads)
  show "list_home_communities E t i (public_view db) = list_home_communities E t i db"
    by (cases "any_auth E t db") (simp_all add: any_auth_public home_reads)
  show "list_communities E t skip limit (public_view db) = list_communities E t skip limit db"
    by (cases "any_auth E t db") (simp_all add: any_auth_public home_reads)
  show "get_community E t i (public_view db) = get_community E t i db"
    by (cases "any_auth E t db") (simp_all add: any_auth_public home_reads)
  show "list_community_homes E t i (public_view db) = list_community_homes E t i db"
    by (cases "any_auth E t db") (simp_all add: any_auth_public home_reads)
qed

lemma broadcasts_public:
  "list_broadcasts E t c skip limit (public_view db) = list_broadcasts E t c skip limit db"
  "get_broadcast E t n (public_view db) = get_broadcast E t n db"
proof -
  show "list_broadcasts E t c skip limit (public_view db) = list_broadcasts E t c skip limit db"
    by (cases "any_auth E t db") (simp_all add: any_auth_public list_broadcasts_def get_all_broadcasts_def)
  have b: "get_broadcast_by_id E n (public_view db) = get_broadcast_by_id E n db"
    by (simp add: get_broadcast_by_id_def)
  have "get_with_homes E c (public_view db) = get_with_homes E c db" for c
    by (simp add: get_with_homes_def homes_of_def)
  with b have "get_delivery_stats E n (public_view db) = get_delivery_stats E n db"
    by (simp only: get_delivery_stats_def)
  with b show "get_broadcast E t n (public_view db) = get_broadcast E t n db"
    by (cases "any_auth E t db") (simp_all only: any_auth_public get_broadcast_def sum.case map_sum.simps id_apply)
qed

lemma firmware_public: "list_firmware E t (public_view db) = list_firmware E t db"
    "get_firmware E t v (public_view db) = get_firmware E t v db"
proof -
  show "list_firmware E t (public_view db) = list_firmware E t db"
    by (cases "any_auth E t db") (simp_all add: any_auth_public list_firmware_def get_all_firmware_def)
  show "get_firmware E t v (public_view db) = get_firmware E t v db"
    by (cases "any_auth E t db") (simp_all add: any_auth_public get_firmware_def get_by_version_def)
qed

lemma ota_public: "api_list_events E t w (public_view db) = api_list_events E t w db"
    "api_list_campaigns E t limit (public_view db) = api_list_campaigns E t limit db"
proof -
  have "get_events E w (public_view db) = get_events E w db"
    unfolding get_events_def public_view_simps ..
  then show "api_list_events E t w (public_view db) = api_list_events E t w db"
    by (cases "any_auth E t db") (simp_all add: any_auth_public api_list_events_def)
  have "get_campaigns E limit (public_view db) = get_campaigns E limit db"
    by (simp add: get_campaigns_def)
  then show "api_list_campaigns E t limit (public_view db) = api_list_campaigns E t limit db"
    by (cases "any_auth E t db") (simp_all add: any_auth_public api_list_campaigns_def)
qed

lemma get_job_public: "get_job E t i (public_view db) = get_job E t i db"
  by (cases "require_role E [''admin'', ''operator'', ''viewer''] t db")
     (simp_all add: get_job_def require_role_public)

lemmas public_answers = accounts_public list_devices_public list_facet_public get_device_public homes_public
  groups_public broadcasts_public firmware_public ota_public preview_public list_scheduled_public get_job_public



end
