(* ===== verification/Migrations.thy ===== *)
theory Migrations
  imports Py_Base
begin

text \<open>
  The Alembic migrations (\<^verbatim>\<open>alembic/versions\<close>) and the schema the model classes declare
  (\<^verbatim>\<open>fleet_server/models\<close>). A schema is data: tables with their columns, primary key, UNIQUE columns
  and foreign keys, and indexes; constraint names are left out, no migration refers to one. A
  migration is its revision, the revision it follows, and two lists of operations; an operation that
  the database refuses (a table that exists, a column that does not, a table still referred to)
  makes the migration fail. The order of the migrations is computed from the links between
  revisions. The properties compare what the migrations build with what the models declare, and
  each downgrade with its upgrade.
\<close>

section \<open>Schemas\<close>

datatype sqltype = Varchar nat | TextType | IntegerType | BooleanType | Timestamptz | JsonType | JsonbType

record column =
  co_name :: string
  co_type :: sqltype
  co_nullable :: bool
  co_default :: "string option"

text \<open>A foreign key: column, referred table and column, and whether deletion cascades.\<close>

record foreign_key =
  fk_column :: string
  fk_table :: string
  fk_target :: string
  fk_cascade :: bool

record schema_table =
  tb_name :: string
  tb_columns :: "column list"
  tb_pk :: "string list"
  tb_unique :: "string list"
  tb_fks :: "foreign_key list"

text \<open>An index: name, table, columns, and the condition of a partial index.\<close>

record schema_index =
  ix_name :: string
  ix_table :: string
  ix_columns :: "string list"
  ix_where :: "string option"

record schema =
  sc_tables :: "schema_table list"
  sc_indexes :: "schema_index list"

definition empty_schema :: schema where
  "empty_schema = \<lparr> sc_tables = [], sc_indexes = [] \<rparr>"

text \<open>Abbreviations for the columns of the migrations: not null, nullable, and with a server default.\<close>

definition col :: "string \<Rightarrow> sqltype \<Rightarrow> column" where
  "col n t = \<lparr> co_name = n, co_type = t, co_nullable = False, co_default = None \<rparr>"

definition ncol :: "string \<Rightarrow> sqltype \<Rightarrow> column" where
  "ncol n t = \<lparr> co_name = n, co_type = t, co_nullable = True, co_default = None \<rparr>"

definition dcol :: "string \<Rightarrow> sqltype \<Rightarrow> string \<Rightarrow> column" where
  "dcol n t d = \<lparr> co_name = n, co_type = t, co_nullable = False, co_default = Some d \<rparr>"

definition stamp :: "string \<Rightarrow> column" where
  "stamp n = dcol n Timestamptz ''now()''"

definition refer :: "string \<Rightarrow> string \<Rightarrow> string \<Rightarrow> foreign_key" where
  "refer c t k = \<lparr> fk_column = c, fk_table = t, fk_target = k, fk_cascade = False \<rparr>"

definition refer_cascade :: "string \<Rightarrow> string \<Rightarrow> string \<Rightarrow> foreign_key" where
  "refer_cascade c t k = \<lparr> fk_column = c, fk_table = t, fk_target = k, fk_cascade = True \<rparr>"

definition mk_table ::
  "string \<Rightarrow> column list \<Rightarrow> string list \<Rightarrow> string list \<Rightarrow> foreign_key list \<Rightarrow> schema_table" where
  "mk_table n cs pk uq fks = \<lparr> tb_name = n, tb_columns = cs, tb_pk = pk, tb_unique = uq, tb_fks = fks \<rparr>"

section \<open>Operations\<close>

datatype migration_op =
    CreateTable schema_table
  | DropTable string
  | AddColumn string column
  | DropColumn string string
  | RenameColumn string string string
  | SetNullable string string bool
  | CreateIndex schema_index
  | DropIndex string

definition has_table :: "string \<Rightarrow> schema \<Rightarrow> bool" where
  "has_table n s = (n \<in> set (map tb_name (sc_tables s)))"

definition has_column :: "string \<Rightarrow> schema_table \<Rightarrow> bool" where
  "has_column n t = (n \<in> set (map co_name (tb_columns t)))"

definition fk_valid :: "schema_table list \<Rightarrow> foreign_key \<Rightarrow> bool" where
  "fk_valid ts f =
     list_ex (\<lambda>t. tb_name t = fk_table f \<and> (tb_pk t = [fk_target f] \<or> fk_target f \<in> set (tb_unique t))) ts"

definition change_table :: "string \<Rightarrow> (schema_table \<Rightarrow> schema_table) \<Rightarrow> schema \<Rightarrow> schema" where
  "change_table n f s = s\<lparr>sc_tables := map (\<lambda>t. if tb_name t = n then f t else t) (sc_tables s)\<rparr>"

definition table_has :: "string \<Rightarrow> string \<Rightarrow> schema \<Rightarrow> bool" where
  "table_has n c s = list_ex (\<lambda>t. tb_name t = n \<and> has_column c t) (sc_tables s)"

definition rename :: "string \<Rightarrow> string \<Rightarrow> string \<Rightarrow> string" where
  "rename old new n = (if n = old then new else n)"

text \<open>Dropping a table takes its indexes with it; dropping a column needs it to be free of keys.\<close>

fun apply_op :: "migration_op \<Rightarrow> schema \<Rightarrow> schema option" where
  "apply_op (CreateTable t) s =
     (if has_table (tb_name t) s \<or> \<not> list_all (fk_valid (t # sc_tables s)) (tb_fks t) then None
      else Some (s\<lparr>sc_tables := sc_tables s @ [t]\<rparr>))"
| "apply_op (DropTable n) s =
     (if \<not> has_table n s \<or> list_ex (\<lambda>t. tb_name t \<noteq> n \<and> list_ex (\<lambda>f. fk_table f = n) (tb_fks t)) (sc_tables s) then None
      else Some (s\<lparr>sc_tables := filter (\<lambda>t. tb_name t \<noteq> n) (sc_tables s),
                   sc_indexes := filter (\<lambda>i. ix_table i \<noteq> n) (sc_indexes s)\<rparr>))"
| "apply_op (AddColumn n c) s =
     (if \<not> has_table n s \<or> table_has n (co_name c) s then None
      else Some (change_table n (\<lambda>t. t\<lparr>tb_columns := tb_columns t @ [c]\<rparr>) s))"
| "apply_op (DropColumn n c) s =
     (if \<not> table_has n c s then None
      else Some (change_table n (\<lambda>t. t\<lparr>tb_columns := filter (\<lambda>x. co_name x \<noteq> c) (tb_columns t)\<rparr>) s))"
| "apply_op (RenameColumn n old new) s =
     (if \<not> table_has n old s \<or> table_has n new s then None
      else Some (change_table n
        (\<lambda>t. t\<lparr>tb_columns := map (\<lambda>x. x\<lparr>co_name := rename old new (co_name x)\<rparr>) (tb_columns t)\<rparr>) s))"
| "apply_op (SetNullable n c b) s =
     (if \<not> table_has n c s then None
      else Some (change_table n
        (\<lambda>t. t\<lparr>tb_columns := map (\<lambda>x. if co_name x = c then x\<lparr>co_nullable := b\<rparr> else x) (tb_columns t)\<rparr>) s))"
| "apply_op (CreateIndex i) s =
     (if \<not> has_table (ix_table i) s \<or> ix_name i \<in> set (map ix_name (sc_indexes s)) then None
      else Some (s\<lparr>sc_indexes := sc_indexes s @ [i]\<rparr>))"
| "apply_op (DropIndex n) s =
     (if n \<notin> set (map ix_name (sc_indexes s)) then None
      else Some (s\<lparr>sc_indexes := filter (\<lambda>i. ix_name i \<noteq> n) (sc_indexes s)\<rparr>))"

fun apply_ops :: "migration_op list \<Rightarrow> schema \<Rightarrow> schema option" where
  "apply_ops [] s = Some s"
| "apply_ops (x # xs) s = (case apply_op x s of None \<Rightarrow> None | Some s' \<Rightarrow> apply_ops xs s')"

record migration =
  mg_revision :: string
  mg_down_revision :: "string option"
  mg_upgrade :: "migration_op list"
  mg_downgrade :: "migration_op list"

section \<open>The migrations\<close>

definition upgrade_initial :: "migration_op list" where
  "upgrade_initial =
     [CreateTable (mk_table ''audit_log''
        [col ''id'' IntegerType, ncol ''user_id'' (Varchar 64), col ''action'' (Varchar 32), col ''resource'' (Varchar 32),
         ncol ''details'' JsonbType, stamp ''created_at''] [''id''] [] []),
      CreateTable (mk_table ''communities''
        [col ''community_id'' (Varchar 32), col ''name'' (Varchar 128), ncol ''description'' TextType, stamp ''created_at'']
        [''community_id''] [] []),
      CreateTable (mk_table ''firmware_versions''
        [col ''id'' IntegerType, col ''version'' (Varchar 32), col ''binary_path'' (Varchar 256), col ''checksum'' (Varchar 64),
         ncol ''release_notes'' TextType, stamp ''created_at''] [''id''] [''version''] []),
      CreateTable (mk_table ''homes''
        [col ''home_id'' (Varchar 64), col ''patient_name'' (Varchar 128), ncol ''address'' (Varchar 256), stamp ''created_at'']
        [''home_id''] [] []),
      CreateTable (mk_table ''broadcasts''
        [col ''id'' IntegerType, col ''community_id'' (Varchar 32), col ''message'' TextType, col ''type'' (Varchar 16),
         col ''priority'' (Varchar 16), ncol ''scheduled_at'' Timestamptz, ncol ''sent_at'' Timestamptz,
         ncol ''sent_by'' (Varchar 64), stamp ''created_at'']
        [''id''] [] [refer ''community_id'' ''communities'' ''community_id'']),
      CreateTable (mk_table ''devices''
        [col ''device_id'' (Varchar 64), col ''mac'' (Varchar 17), col ''firmware_version'' (Varchar 32), col ''role'' (Varchar 32),
         col ''status'' (Varchar 16), ncol ''last_seen'' Timestamptz, ncol ''home_id'' (Varchar 64), ncol ''rssi'' IntegerType,
         ncol ''heap'' IntegerType, ncol ''uptime'' IntegerType, stamp ''created_at'', stamp ''updated_at'']
        [''device_id''] [''mac''] [refer ''home_id'' ''homes'' ''home_id'']),
      CreateTable (mk_table ''home_community''
        [col ''home_id'' (Varchar 64), col ''community_id'' (Varchar 32)] [''home_id'', ''community_id''] []
        [refer ''community_id'' ''communities'' ''community_id'', refer ''home_id'' ''homes'' ''home_id'']),
      CreateTable (mk_table ''broadcast_acks''
        [col ''id'' IntegerType, col ''broadcast_id'' IntegerType, col ''home_id'' (Varchar 64), col ''status'' (Varchar 16),
         ncol ''played_at'' Timestamptz] [''id''] []
        [refer ''broadcast_id'' ''broadcasts'' ''id'', refer ''home_id'' ''homes'' ''home_id'']),
      CreateTable (mk_table ''ota_events''
        [col ''id'' IntegerType, col ''device_id'' (Varchar 64), col ''from_version'' (Varchar 32), col ''to_version'' (Varchar 32),
         col ''status'' (Varchar 16), stamp ''started_at'', ncol ''completed_at'' Timestamptz]
        [''id''] [] [refer ''device_id'' ''devices'' ''device_id''])]"

definition downgrade_initial :: "migration_op list" where
  "downgrade_initial =
     map DropTable [''ota_events'', ''broadcast_acks'', ''home_community'', ''devices'', ''broadcasts'', ''homes'',
                    ''firmware_versions'', ''communities'', ''audit_log'']"

definition initial_schema :: migration where
  "initial_schema = \<lparr> mg_revision = ''099234203802'', mg_down_revision = None,
                      mg_upgrade = upgrade_initial, mg_downgrade = downgrade_initial \<rparr>"

definition rename_played_at :: migration where
  "rename_played_at =
     \<lparr> mg_revision = ''1bfe55aef871'', mg_down_revision = Some ''099234203802'',
       mg_upgrade = [RenameColumn ''broadcast_acks'' ''played_at'' ''received_at''],
       mg_downgrade = [RenameColumn ''broadcast_acks'' ''received_at'' ''played_at''] \<rparr>"

definition add_users_table :: migration where
  "add_users_table =
     \<lparr> mg_revision = ''ab801f1d0c2f'', mg_down_revision = Some ''1bfe55aef871'',
       mg_upgrade = [CreateTable (mk_table ''users''
         [col ''id'' (Varchar 64), col ''email'' (Varchar 256), col ''hashed_password'' (Varchar 256), col ''role'' (Varchar 16),
          col ''is_active'' BooleanType, stamp ''created_at''] [''id''] [''email''] [])],
       mg_downgrade = [DropTable ''users''] \<rparr>"

definition provisioning_migration :: migration where
  "provisioning_migration =
     \<lparr> mg_revision = ''c1d2e3f4a5b6'', mg_down_revision = Some ''ab801f1d0c2f'',
       mg_upgrade =
         [AddColumn ''devices'' (dcol ''device_type'' (Varchar 32) ''room_sensor''),
          AddColumn ''devices'' (ncol ''provision_token'' (Varchar 128)),
          AddColumn ''devices'' (ncol ''target_firmware_version'' (Varchar 32)),
          SetNullable ''devices'' ''mac'' True,
          SetNullable ''devices'' ''firmware_version'' True,
          CreateTable (mk_table ''provision_jobs''
            [col ''id'' (Varchar 36), col ''device_id'' (Varchar 64), col ''device_type'' (Varchar 32),
             dcol ''status'' (Varchar 16) ''pending'', ncol ''firmware_path'' (Varchar 512), ncol ''error'' TextType,
             stamp ''created_at'', stamp ''updated_at''] [''id''] [] []),
          CreateIndex \<lparr> ix_name = ''ix_provision_jobs_device_id'', ix_table = ''provision_jobs'',
                        ix_columns = [''device_id''], ix_where = None \<rparr>],
       mg_downgrade =
         [DropIndex ''ix_provision_jobs_device_id'', DropTable ''provision_jobs'',
          DropColumn ''devices'' ''target_firmware_version'', DropColumn ''devices'' ''provision_token'',
          DropColumn ''devices'' ''device_type''] \<rparr>"

definition device_display_name :: migration where
  "device_display_name =
     \<lparr> mg_revision = ''a7b3c9e2d4f1'', mg_down_revision = Some ''c1d2e3f4a5b6'',
       mg_upgrade = [AddColumn ''devices'' (ncol ''display_name'' (Varchar 128))],
       mg_downgrade = [DropColumn ''devices'' ''display_name''] \<rparr>"

definition device_custom_id :: migration where
  "device_custom_id =
     \<lparr> mg_revision = ''b8e4c1a6f2d3'', mg_down_revision = Some ''a7b3c9e2d4f1'',
       mg_upgrade = [AddColumn ''devices'' (ncol ''custom_id'' (Varchar 64))],
       mg_downgrade = [DropColumn ''devices'' ''custom_id''] \<rparr>"

definition groups_and_rollouts :: migration where
  "groups_and_rollouts =
     \<lparr> mg_revision = ''d9f7e3b1c4a2'', mg_down_revision = Some ''b8e4c1a6f2d3'',
       mg_upgrade =
         [CreateTable (mk_table ''device_groups''
            [col ''id'' IntegerType, col ''name'' (Varchar 128), ncol ''description'' TextType, ncol ''created_by'' (Varchar 64),
             stamp ''created_at'', stamp ''updated_at''] [''id''] [''name''] [refer ''created_by'' ''users'' ''id'']),
          CreateTable (mk_table ''device_group_members''
            [col ''group_id'' IntegerType, col ''device_id'' (Varchar 64)] [''group_id'', ''device_id''] []
            [refer_cascade ''group_id'' ''device_groups'' ''id'', refer_cascade ''device_id'' ''devices'' ''device_id'']),
          CreateTable (mk_table ''scheduled_rollouts''
            [col ''id'' IntegerType, col ''target_version'' (Varchar 32), dcol ''strategy'' (Varchar 16) ''full'',
             col ''target_devices'' JsonType, ncol ''canary_count'' IntegerType, col ''fire_at'' Timestamptz,
             dcol ''status'' (Varchar 16) ''pending'', ncol ''created_by'' (Varchar 64), stamp ''created_at'',
             ncol ''fired_at'' Timestamptz, ncol ''error'' TextType] [''id''] []
            [refer ''target_version'' ''firmware_versions'' ''version'', refer ''created_by'' ''users'' ''id'']),
          CreateIndex \<lparr> ix_name = ''ix_scheduled_rollouts_pending_fire_at'', ix_table = ''scheduled_rollouts'',
                        ix_columns = [''fire_at''], ix_where = Some (''status = '' @ [CHR 0x27] @ ''pending'' @ [CHR 0x27]) \<rparr>],
       mg_downgrade =
         [DropIndex ''ix_scheduled_rollouts_pending_fire_at'', DropTable ''scheduled_rollouts'',
          DropTable ''device_group_members'', DropTable ''device_groups''] \<rparr>"

text \<open>The files of \<^verbatim>\<open>alembic/versions\<close>, by name.\<close>

definition versions :: "migration list" where
  "versions = [initial_schema, rename_played_at, add_users_table, provisioning_migration, device_display_name,
               device_custom_id, groups_and_rollouts]"

text \<open>
  The order of the migrations: from the one without a predecessor on, the only one that names the
  last revision as its predecessor. The fuel is the number of files.
\<close>

fun revision_chain :: "nat \<Rightarrow> string option \<Rightarrow> migration list \<Rightarrow> migration list" where
  "revision_chain 0 r ms = []"
| "revision_chain (Suc n) r ms =
     (case filter (\<lambda>m. mg_down_revision m = r) ms of
        [m] \<Rightarrow> m # revision_chain n (Some (mg_revision m)) ms
      | _ \<Rightarrow> [])"

definition chain :: "migration list" where
  "chain = revision_chain (length versions) None versions"

definition upgrade_head :: "schema \<Rightarrow> schema option" where
  "upgrade_head s = apply_ops (concat (map mg_upgrade chain)) s"

definition downgrade_base :: "schema \<Rightarrow> schema option" where
  "downgrade_base s = apply_ops (concat (map mg_downgrade (rev chain))) s"

section \<open>The schema of the models\<close>

definition model_schema :: schema where
  "model_schema =
     \<lparr> sc_tables =
         [mk_table ''users''
            [col ''id'' (Varchar 64), col ''email'' (Varchar 256), col ''hashed_password'' (Varchar 256), col ''role'' (Varchar 16),
             col ''is_active'' BooleanType, stamp ''created_at''] [''id''] [''email''] [],
          mk_table ''homes''
            [col ''home_id'' (Varchar 64), col ''patient_name'' (Varchar 128), ncol ''address'' (Varchar 256), stamp ''created_at'']
            [''home_id''] [] [],
          mk_table ''communities''
            [col ''community_id'' (Varchar 32), col ''name'' (Varchar 128), ncol ''description'' TextType, stamp ''created_at'']
            [''community_id''] [] [],
          mk_table ''home_community''
            [col ''home_id'' (Varchar 64), col ''community_id'' (Varchar 32)] [''home_id'', ''community_id''] []
            [refer ''home_id'' ''homes'' ''home_id'', refer ''community_id'' ''communities'' ''community_id''],
          mk_table ''devices''
            [col ''device_id'' (Varchar 64), ncol ''mac'' (Varchar 17), ncol ''display_name'' (Varchar 128),
             ncol ''custom_id'' (Varchar 64), ncol ''firmware_version'' (Varchar 32),
             ncol ''target_firmware_version'' (Varchar 32), col ''device_type'' (Varchar 32),
             ncol ''provision_token'' (Varchar 128), col ''role'' (Varchar 32), col ''status'' (Varchar 16),
             ncol ''last_seen'' Timestamptz, ncol ''home_id'' (Varchar 64), ncol ''rssi'' IntegerType,
             ncol ''heap'' IntegerType, ncol ''uptime'' IntegerType, stamp ''created_at'', stamp ''updated_at'']
            [''device_id''] [''mac''] [refer ''home_id'' ''homes'' ''home_id''],
          mk_table ''broadcasts''
            [col ''id'' IntegerType, col ''community_id'' (Varchar 32), col ''message'' TextType, col ''type'' (Varchar 16),
             col ''priority'' (Varchar 16), ncol ''scheduled_at'' Timestamptz, ncol ''sent_at'' Timestamptz,
             ncol ''sent_by'' (Varchar 64), stamp ''created_at'']
            [''id''] [] [refer ''community_id'' ''communities'' ''community_id''],
          mk_table ''broadcast_acks''
            [col ''id'' IntegerType, col ''broadcast_id'' IntegerType, col ''home_id'' (Varchar 64), col ''status'' (Varchar 16),
             ncol ''received_at'' Timestamptz] [''id''] []
            [refer ''broadcast_id'' ''broadcasts'' ''id'', refer ''home_id'' ''homes'' ''home_id''],
          mk_table ''firmware_versions''
            [col ''id'' IntegerType, col ''version'' (Varchar 32), col ''binary_path'' (Varchar 256), col ''checksum'' (Varchar 64),
             ncol ''release_notes'' TextType, stamp ''created_at''] [''id''] [''version''] [],
          mk_table ''ota_events''
            [col ''id'' IntegerType, col ''device_id'' (Varchar 64), col ''from_version'' (Varchar 32), col ''to_version'' (Varchar 32),
             col ''status'' (Varchar 16), stamp ''started_at'', ncol ''completed_at'' Timestamptz]
            [''id''] [] [refer ''device_id'' ''devices'' ''device_id''],
          mk_table ''provision_jobs''
            [col ''id'' (Varchar 36), col ''device_id'' (Varchar 64), col ''device_type'' (Varchar 32), col ''status'' (Varchar 16),
             ncol ''firmware_path'' (Varchar 512), ncol ''error'' TextType, stamp ''created_at'', stamp ''updated_at'']
            [''id''] [] [],
          mk_table ''device_groups''
            [col ''id'' IntegerType, col ''name'' (Varchar 128), ncol ''description'' TextType, ncol ''created_by'' (Varchar 64),
             stamp ''created_at'', stamp ''updated_at''] [''id''] [''name''] [refer ''created_by'' ''users'' ''id''],
          mk_table ''device_group_members''
            [col ''group_id'' IntegerType, col ''device_id'' (Varchar 64)] [''group_id'', ''device_id''] []
            [refer_cascade ''group_id'' ''device_groups'' ''id'', refer_cascade ''device_id'' ''devices'' ''device_id''],
          mk_table ''scheduled_rollouts''
            [col ''id'' IntegerType, col ''target_version'' (Varchar 32), col ''strategy'' (Varchar 16),
             col ''target_devices'' JsonType, ncol ''canary_count'' IntegerType, col ''fire_at'' Timestamptz,
             col ''status'' (Varchar 16), ncol ''created_by'' (Varchar 64), stamp ''created_at'',
             ncol ''fired_at'' Timestamptz, ncol ''error'' TextType] [''id''] []
            [refer ''target_version'' ''firmware_versions'' ''version'', refer ''created_by'' ''users'' ''id''],
          mk_table ''audit_log''
            [col ''id'' IntegerType, ncol ''user_id'' (Varchar 64), col ''action'' (Varchar 32), col ''resource'' (Varchar 32),
             ncol ''details'' JsonbType, stamp ''created_at''] [''id''] [] []],
       sc_indexes = [\<lparr> ix_name = ''ix_provision_jobs_device_id'', ix_table = ''provision_jobs'',
                       ix_columns = [''device_id''], ix_where = None \<rparr>] \<rparr>"

section \<open>Comparison\<close>

text \<open>Two tables agree up to the order of their columns and keys and up to server defaults.\<close>

definition column_key :: "column \<Rightarrow> string \<times> sqltype \<times> bool" where
  "column_key c = (co_name c, co_type c, co_nullable c)"

definition same_table :: "schema_table \<Rightarrow> schema_table \<Rightarrow> bool" where
  "same_table t t' \<longleftrightarrow> tb_name t = tb_name t' \<and>
     length (tb_columns t) = length (tb_columns t') \<and>
     set (map column_key (tb_columns t)) = set (map column_key (tb_columns t')) \<and>
     tb_pk t = tb_pk t' \<and> set (tb_unique t) = set (tb_unique t') \<and> set (tb_fks t) = set (tb_fks t')"

definition same_tables :: "schema \<Rightarrow> schema \<Rightarrow> bool" where
  "same_tables s s' \<longleftrightarrow> length (sc_tables s) = length (sc_tables s') \<and>
     list_all (\<lambda>t. list_ex (same_table t) (sc_tables s')) (sc_tables s) \<and>
     list_all (\<lambda>t. list_ex (same_table t) (sc_tables s)) (sc_tables s')"

text \<open>The columns of a schema with a server default, with their tables.\<close>

definition server_defaults :: "schema \<Rightarrow> (string \<times> string \<times> string) list" where
  "server_defaults s =
     concat (map (\<lambda>t. concat (map (\<lambda>c. case co_default c of None \<Rightarrow> [] | Some d \<Rightarrow> [(tb_name t, co_name c, d)])
                                (tb_columns t))) (sc_tables s))"

definition only_in_migrations :: "schema \<Rightarrow> (string \<times> string \<times> string) list" where
  "only_in_migrations s = filter (\<lambda>d. d \<notin> set (server_defaults model_schema)) (server_defaults s)"

lemma migrated_same_tables:
  "(case upgrade_head empty_schema of None \<Rightarrow> False | Some s \<Rightarrow> same_tables s model_schema)"
  by code_simp

section \<open>Properties\<close>


text \<open>The schema after the first \<open>n\<close> migrations, and after taking back the last one of them.\<close>

definition schema_after :: "nat \<Rightarrow> schema option" where
  "schema_after n = apply_ops (concat (map mg_upgrade (take n chain))) empty_schema"

definition undone :: "nat \<Rightarrow> schema option" where
  "undone n = (case schema_after (Suc n) of None \<Rightarrow> None | Some s \<Rightarrow> apply_ops (mg_downgrade (chain ! n)) s)"

text \<open>The evaluations, one migration at a time.\<close>

lemma all_upgrades_work: "None \<notin> set (map schema_after [0, 1, 2, 3, 4, 5, 6, 7])"
  by code_simp

lemma undone_tables: "undone 0 = schema_after 0" "undone 2 = schema_after 2" "undone 6 = schema_after 6"
  by code_simp+

lemma undone_columns: "undone 1 = schema_after 1" "undone 4 = schema_after 4" "undone 5 = schema_after 5"
  by code_simp+

lemma undone_provisioning:
  "undone 3 \<noteq> schema_after 3 \<and>
   undone 3 = apply_ops [SetNullable ''devices'' ''mac'' True, SetNullable ''devices'' ''firmware_version'' True]
                (the (schema_after 3))"
  by code_simp

lemma downgrade_all: "downgrade_base (the (upgrade_head empty_schema)) = Some empty_schema"
  by code_simp


end
