(* ===== verification/Schema_Types.thy ===== *)
theory Schema_Types
  imports Db_Statements Migrations
begin

text \<open>
  The schema invariant against the declared schema. Every table of the database is read as SQL
  sees it, as rows of named values, and \<open>conforms\<close> says what a declared schema demands of such
  rows: the declared columns and no others, values of the declared type and width, NULL only where
  it is allowed, primary keys and UNIQUE columns without repetition, references that lead to a row.
  The theorem shows that \<open>db_wf\<close>, the invariant the development works with, implies conformance to
  the schema of the models, which the migrations build.
\<close>

section \<open>Values and rows\<close>

datatype sqlvalue = VNull | VText string | VInt int | VBool bool | VTime datetime | VJson json

type_synonym sqlrow = "(string \<times> sqlvalue) list"

fun value_ok :: "sqltype \<Rightarrow> sqlvalue \<Rightarrow> bool" where
  "value_ok (Varchar n) (VText s) = (length s \<le> n)"
| "value_ok TextType (VText s) = True"
| "value_ok IntegerType (VInt i) = int4 i"
| "value_ok BooleanType (VBool b) = True"
| "value_ok Timestamptz (VTime t) = True"
| "value_ok JsonType (VJson j) = True"
| "value_ok JsonbType (VJson j) = True"
| "value_ok _ _ = False"

definition cell_ok :: "column \<Rightarrow> sqlvalue \<Rightarrow> bool" where
  "cell_ok c v = (if v = VNull then co_nullable c else value_ok (co_type c) v)"

definition getv :: "sqlrow \<Rightarrow> string \<Rightarrow> sqlvalue" where
  "getv r c = (case map_of r c of None \<Rightarrow> VNull | Some v \<Rightarrow> v)"

definition row_ok :: "schema_table \<Rightarrow> sqlrow \<Rightarrow> bool" where
  "row_ok t r \<longleftrightarrow> distinct (map fst r) \<and> set (map fst r) = set (map co_name (tb_columns t)) \<and>
     list_all (\<lambda>c. cell_ok c (getv r (co_name c))) (tb_columns t)"

section \<open>Conformance\<close>

definition references_ok :: "(string \<Rightarrow> sqlrow list) \<Rightarrow> sqlrow list \<Rightarrow> foreign_key \<Rightarrow> bool" where
  "references_ok tabs rows f \<longleftrightarrow>
     set (filter (\<lambda>v. v \<noteq> VNull) (map (\<lambda>r. getv r (fk_column f)) rows)) \<subseteq>
     set (map (\<lambda>r. getv r (fk_target f)) (tabs (fk_table f)))"

definition conforms_table :: "(string \<Rightarrow> sqlrow list) \<Rightarrow> schema_table \<Rightarrow> bool" where
  "conforms_table tabs t \<longleftrightarrow>
     (let rows = tabs (tb_name t) in
      list_all (row_ok t) rows \<and> distinct (map (\<lambda>r. map (getv r) (tb_pk t)) rows) \<and>
      list_all (\<lambda>u. distinct (filter (\<lambda>v. v \<noteq> VNull) (map (\<lambda>r. getv r u) rows))) (tb_unique t) \<and>
      list_all (references_ok tabs rows) (tb_fks t))"

definition conforms :: "schema \<Rightarrow> (string \<Rightarrow> sqlrow list) \<Rightarrow> bool" where
  "conforms s tabs \<longleftrightarrow> list_all (conforms_table tabs) (sc_tables s)"

section \<open>The tables as rows\<close>

definition nullable :: "('a \<Rightarrow> sqlvalue) \<Rightarrow> 'a option \<Rightarrow> sqlvalue" where
  "nullable f x = (case x of None \<Rightarrow> VNull | Some v \<Rightarrow> f v)"

definition user_row :: "user \<Rightarrow> sqlrow" where
  "user_row u = [(''id'', VText (u_id u)), (''email'', VText (u_email u)), (''hashed_password'', VText (u_hashed_password u)),
     (''role'', VText (u_role u)), (''is_active'', VBool (u_is_active u)), (''created_at'', VTime (u_created_at u))]"

definition home_row :: "home \<Rightarrow> sqlrow" where
  "home_row h = [(''home_id'', VText (h_home_id h)), (''patient_name'', VText (h_patient_name h)),
     (''address'', nullable VText (h_address h)), (''created_at'', VTime (h_created_at h))]"

definition community_row :: "community \<Rightarrow> sqlrow" where
  "community_row c = [(''community_id'', VText (c_community_id c)), (''name'', VText (c_name c)),
     (''description'', nullable VText (c_description c)), (''created_at'', VTime (c_created_at c))]"

definition home_community_row :: "string \<times> string \<Rightarrow> sqlrow" where
  "home_community_row p = [(''home_id'', VText (fst p)), (''community_id'', VText (snd p))]"

definition device_row :: "device \<Rightarrow> sqlrow" where
  "device_row d = [(''device_id'', VText (d_device_id d)), (''mac'', nullable VText (d_mac d)),
     (''display_name'', nullable VText (d_display_name d)), (''custom_id'', nullable VText (d_custom_id d)),
     (''firmware_version'', nullable VText (d_firmware_version d)),
     (''target_firmware_version'', nullable VText (d_target_firmware_version d)),
     (''device_type'', VText (d_device_type d)), (''provision_token'', nullable VText (d_provision_token d)),
     (''role'', VText (d_role d)), (''status'', VText (d_status d)), (''last_seen'', nullable VTime (d_last_seen d)),
     (''home_id'', nullable VText (d_home_id d)), (''rssi'', nullable VInt (d_rssi d)), (''heap'', nullable VInt (d_heap d)),
     (''uptime'', nullable VInt (d_uptime d)), (''created_at'', VTime (d_created_at d)), (''updated_at'', VTime (d_updated_at d))]"

definition broadcast_row :: "broadcast \<Rightarrow> sqlrow" where
  "broadcast_row b = [(''id'', VInt (b_id b)), (''community_id'', VText (b_community_id b)), (''message'', VText (b_message b)),
     (''type'', VText (b_type b)), (''priority'', VText (b_priority b)), (''scheduled_at'', nullable VTime (b_scheduled_at b)),
     (''sent_at'', nullable VTime (b_sent_at b)), (''sent_by'', nullable VText (b_sent_by b)), (''created_at'', VTime (b_created_at b))]"

definition ack_row :: "broadcast_ack \<Rightarrow> sqlrow" where
  "ack_row a = [(''id'', VInt (a_id a)), (''broadcast_id'', VInt (a_broadcast_id a)), (''home_id'', VText (a_home_id a)),
     (''status'', VText (a_status a)), (''received_at'', nullable VTime (a_received_at a))]"

definition firmware_row :: "firmware_version \<Rightarrow> sqlrow" where
  "firmware_row f = [(''id'', VInt (f_id f)), (''version'', VText (f_version f)), (''binary_path'', VText (f_binary_path f)),
     (''checksum'', VText (f_checksum f)), (''release_notes'', nullable VText (f_release_notes f)), (''created_at'', VTime (f_created_at f))]"

definition event_row :: "ota_event \<Rightarrow> sqlrow" where
  "event_row e = [(''id'', VInt (e_id e)), (''device_id'', VText (e_device_id e)), (''from_version'', VText (e_from_version e)),
     (''to_version'', VText (e_to_version e)), (''status'', VText (e_status e)), (''started_at'', VTime (e_started_at e)),
     (''completed_at'', nullable VTime (e_completed_at e))]"

definition job_row :: "provision_job \<Rightarrow> sqlrow" where
  "job_row j = [(''id'', VText (j_id j)), (''device_id'', VText (j_device_id j)), (''device_type'', VText (j_device_type j)),
     (''status'', VText (j_status j)), (''firmware_path'', nullable VText (j_firmware_path j)), (''error'', nullable VText (j_error j)),
     (''created_at'', VTime (j_created_at j)), (''updated_at'', VTime (j_updated_at j))]"

definition group_row :: "device_group \<Rightarrow> sqlrow" where
  "group_row g = [(''id'', VInt (g_id g)), (''name'', VText (g_name g)), (''description'', nullable VText (g_description g)),
     (''created_by'', nullable VText (g_created_by g)), (''created_at'', VTime (g_created_at g)), (''updated_at'', VTime (g_updated_at g))]"

definition member_row :: "int \<times> string \<Rightarrow> sqlrow" where
  "member_row m = [(''group_id'', VInt (fst m)), (''device_id'', VText (snd m))]"

definition rollout_row :: "scheduled_rollout \<Rightarrow> sqlrow" where
  "rollout_row r = [(''id'', VInt (r_id r)), (''target_version'', VText (r_target_version r)), (''strategy'', VText (r_strategy r)),
     (''target_devices'', VJson (json_strings (r_target_devices r))), (''canary_count'', nullable VInt (r_canary_count r)),
     (''fire_at'', VTime (r_fire_at r)), (''status'', VText (r_status r)), (''created_by'', nullable VText (r_created_by r)),
     (''created_at'', VTime (r_created_at r)), (''fired_at'', nullable VTime (r_fired_at r)), (''error'', nullable VText (r_error r))]"

definition audit_row :: "audit_entry \<Rightarrow> sqlrow" where
  "audit_row l = [(''id'', VInt (l_id l)), (''user_id'', nullable VText (l_user_id l)), (''action'', VText (l_action l)),
     (''resource'', VText (l_resource l)), (''details'', nullable VJson (l_details l)), (''created_at'', VTime (l_created_at l))]"

definition table_rows :: "db \<Rightarrow> string \<Rightarrow> sqlrow list" where
  "table_rows db n =
     (if n = ''users'' then map user_row (users db)
      else if n = ''homes'' then map home_row (homes db)
      else if n = ''communities'' then map community_row (communities db)
      else if n = ''home_community'' then map home_community_row (home_community db)
      else if n = ''devices'' then map device_row (devices db)
      else if n = ''broadcasts'' then map broadcast_row (broadcasts db)
      else if n = ''broadcast_acks'' then map ack_row (broadcast_acks db)
      else if n = ''firmware_versions'' then map firmware_row (firmware_versions db)
      else if n = ''ota_events'' then map event_row (ota_events db)
      else if n = ''provision_jobs'' then map job_row (provision_jobs db)
      else if n = ''device_groups'' then map group_row (device_groups db)
      else if n = ''device_group_members'' then map member_row (device_group_members db)
      else if n = ''scheduled_rollouts'' then map rollout_row (scheduled_rollouts db)
      else if n = ''audit_log'' then map audit_row (audit_log db)
      else [])"

text \<open>No sequence has run past the range of its INTEGER column.\<close>

definition ids_int4 :: "db \<Rightarrow> bool" where
  "ids_int4 db \<longleftrightarrow>
     list_all (\<lambda>b. int4 (b_id b)) (broadcasts db) \<and> list_all (\<lambda>a. int4 (a_id a)) (broadcast_acks db) \<and>
     list_all (\<lambda>f. int4 (f_id f)) (firmware_versions db) \<and> list_all (\<lambda>e. int4 (e_id e)) (ota_events db) \<and>
     list_all (\<lambda>g. int4 (g_id g)) (device_groups db) \<and> list_all (\<lambda>r. int4 (r_id r)) (scheduled_rollouts db) \<and>
     list_all (\<lambda>l. int4 (l_id l)) (audit_log db)"

section \<open>Columns of the encoded rows\<close>

lemma table_rows_simps [simp]:
  "table_rows db ''users'' = map user_row (users db)" "table_rows db ''homes'' = map home_row (homes db)"
  "table_rows db ''communities'' = map community_row (communities db)"
  "table_rows db ''home_community'' = map home_community_row (home_community db)"
  "table_rows db ''devices'' = map device_row (devices db)"
  "table_rows db ''broadcasts'' = map broadcast_row (broadcasts db)"
  "table_rows db ''broadcast_acks'' = map ack_row (broadcast_acks db)"
  "table_rows db ''firmware_versions'' = map firmware_row (firmware_versions db)"
  "table_rows db ''ota_events'' = map event_row (ota_events db)"
  "table_rows db ''provision_jobs'' = map job_row (provision_jobs db)"
  "table_rows db ''device_groups'' = map group_row (device_groups db)"
  "table_rows db ''device_group_members'' = map member_row (device_group_members db)"
  "table_rows db ''scheduled_rollouts'' = map rollout_row (scheduled_rollouts db)"
  "table_rows db ''audit_log'' = map audit_row (audit_log db)"
  by (simp_all add: table_rows_def)

lemma nullable_simps [simp]:
  "nullable VText x = VNull \<longleftrightarrow> x = None" "nullable VInt i = VNull \<longleftrightarrow> i = None"
  by (cases x; simp add: nullable_def) (cases i; simp add: nullable_def)

text \<open>A cell of a nullable column, and of a column that is not.\<close>

lemma cell_ok_simps [simp]:
  "cell_ok (ncol n (Varchar k)) (nullable VText x) = fits_opt k x"
  "cell_ok (ncol n TextType) (nullable VText x)"
  "cell_ok (ncol n IntegerType) (nullable VInt i) = int4_opt i"
  "cell_ok (ncol n Timestamptz) (nullable VTime t)"
  "cell_ok (ncol n JsonbType) (nullable VJson j)"
  "cell_ok (col n (Varchar k)) (VText s) = fits k s"
  "cell_ok (col n TextType) (VText s)"
  "cell_ok (col n IntegerType) (VInt z) = int4 z"
  "cell_ok (col n BooleanType) (VBool b)"
  "cell_ok (col n Timestamptz) (VTime d)"
  "cell_ok (col n JsonType) (VJson v)"
  "cell_ok (stamp n) (VTime d)"
  by (auto simp: cell_ok_def col_def ncol_def stamp_def dcol_def nullable_def fits_opt_def fits_def int4_opt_def
      split: option.split)

lemma co_name_simps [simp]: "co_name (col n t) = n" "co_name (ncol n t) = n" "co_name (stamp n) = n"
  by (simp_all add: col_def ncol_def stamp_def dcol_def)

lemma mk_table_simps [simp]:
  "tb_name (mk_table n cs pk uq fks) = n" "tb_columns (mk_table n cs pk uq fks) = cs" "tb_pk (mk_table n cs pk uq fks) = pk"
  "tb_unique (mk_table n cs pk uq fks) = uq" "tb_fks (mk_table n cs pk uq fks) = fks"
  by (simp_all add: mk_table_def)

lemma refer_simps [simp]:
  "fk_column (refer c t k) = c" "fk_table (refer c t k) = t" "fk_target (refer c t k) = k"
  "fk_column (refer_cascade c t k) = c" "fk_table (refer_cascade c t k) = t" "fk_target (refer_cascade c t k) = k"
  by (simp_all add: refer_def refer_cascade_def)

lemma getv_simps [simp]:
  "getv ((c, v) # r) c = v" "c \<noteq> c' \<Longrightarrow> getv ((c, v) # r) c' = getv r c'"
  by (simp_all add: getv_def)

section \<open>Keys and references of encoded rows\<close>

lemma distinct_keys:
  "distinct (map (\<lambda>r. [VText (f r)]) xs) = distinct (map f xs)"
  "distinct (map (\<lambda>r. [VInt (g r)]) xs) = distinct (map g xs)"
  "distinct (map (\<lambda>r. [VText (fst r), VText (snd r)]) ps) = distinct ps"
  "distinct (map (\<lambda>r. [VInt (fst r), VText (snd r)]) ms) = distinct ms"
  "distinct (map (\<lambda>r. VText (f r)) xs) = distinct (map f xs)"
  by (auto simp: distinct_map inj_on_def)

text \<open>The non-null cells of a column.\<close>

lemma filter_cells:
  "filter (\<lambda>v. v \<noteq> VNull) (map (\<lambda>r. VText (f r)) xs) = map VText (map f xs)"
  "filter (\<lambda>v. v \<noteq> VNull) (map (\<lambda>r. VInt (h r)) xs) = map VInt (map h xs)"
  "filter (\<lambda>v. v \<noteq> VNull) (map (\<lambda>r. nullable VText (g r)) xs) = map VText (non_null g xs)"
  by (induction xs) (simp_all add: nullable_def split: option.split)

lemma inj_cells: "inj VText" "inj VInt"
  by (simp_all add: inj_on_def)

lemma distinct_unique:
  "distinct (filter (\<lambda>v. v \<noteq> VNull) (map (\<lambda>r. VText (f r)) xs)) = distinct (map f xs)"
  "distinct (filter (\<lambda>v. v \<noteq> VNull) (map (\<lambda>r. nullable VText (g r)) xs)) = distinct (non_null g xs)"
  unfolding filter_cells distinct_map [of VText] using inj_on_subset [OF inj_cells(1) subset_UNIV] by simp_all

lemma references_simps:
  "set (filter (\<lambda>v. v \<noteq> VNull) (map (\<lambda>r. VText (f r)) xs)) \<subseteq> set (map (\<lambda>r. VText (k r)) ys) \<longleftrightarrow> fk f xs (k ` set ys)"
  "set (filter (\<lambda>v. v \<noteq> VNull) (map (\<lambda>r. VInt (h r)) xs)) \<subseteq> set (map (\<lambda>r. VInt (i r)) zs) \<longleftrightarrow> fk h xs (i ` set zs)"
  "set (filter (\<lambda>v. v \<noteq> VNull) (map (\<lambda>r. nullable VText (g r)) xs)) \<subseteq> set (map (\<lambda>r. VText (k r)) ys) \<longleftrightarrow> fk_opt g xs (k ` set ys)"
proof -
  have t: "set (map (\<lambda>r. VText (k r)) ys) = VText ` (k ` set ys)" and i: "set (map (\<lambda>r. VInt (i r)) zs) = VInt ` (i ` set zs)"
    by (simp_all add: image_image)
  show "set (filter (\<lambda>v. v \<noteq> VNull) (map (\<lambda>r. VText (f r)) xs)) \<subseteq> set (map (\<lambda>r. VText (k r)) ys) \<longleftrightarrow> fk f xs (k ` set ys)"
    "set (filter (\<lambda>v. v \<noteq> VNull) (map (\<lambda>r. VInt (h r)) xs)) \<subseteq> set (map (\<lambda>r. VInt (i r)) zs) \<longleftrightarrow> fk h xs (i ` set zs)"
    "set (filter (\<lambda>v. v \<noteq> VNull) (map (\<lambda>r. nullable VText (g r)) xs)) \<subseteq> set (map (\<lambda>r. VText (k r)) ys) \<longleftrightarrow> fk_opt g xs (k ` set ys)"
    unfolding filter_cells t i list.set_map [of VText] list.set_map [of VInt]
    by (simp_all only: inj_image_subset_iff [OF inj_cells(1)] inj_image_subset_iff [OF inj_cells(2)] fk_def fk_opt_def)
qed

section \<open>Each table\<close>

lemmas row_defs = user_row_def home_row_def community_row_def home_community_row_def device_row_def broadcast_row_def
  ack_row_def firmware_row_def event_row_def job_row_def group_row_def member_row_def rollout_row_def audit_row_def

lemma conforms_tableI:
  assumes "table_rows db (tb_name t) = map enc xs"
    and "\<And>x. x \<in> set xs \<Longrightarrow> row_ok t (enc x)"
    and "distinct (map (\<lambda>x. map (getv (enc x)) (tb_pk t)) xs)"
    and "list_all (\<lambda>u. distinct (filter (\<lambda>v. v \<noteq> VNull) (map (\<lambda>x. getv (enc x) u) xs))) (tb_unique t)"
    and "list_all (references_ok (table_rows db) (map enc xs)) (tb_fks t)"
  shows "conforms_table (table_rows db) t"
  using assms by (simp add: conforms_table_def list_all_iff comp_def)

text \<open>References, by the type of the referring column.\<close>

lemma references_enc:
  assumes "table_rows db (fk_table f) = map enc2 ys"
  shows "references_ok (table_rows db) (map enc xs) f \<longleftrightarrow>
     set (filter (\<lambda>v. v \<noteq> VNull) (map (\<lambda>x. getv (enc x) (fk_column f)) xs)) \<subseteq>
     set (map (\<lambda>y. getv (enc2 y) (fk_target f)) ys)"
  unfolding references_ok_def assms by (simp add: comp_def)

lemma references_text:
  assumes "fk a xs (k ` set ys)" "table_rows db (fk_table f) = map enc2 ys"
    and "\<And>x. getv (enc x) (fk_column f) = VText (a x)" "\<And>y. getv (enc2 y) (fk_target f) = VText (k y)"
  shows "references_ok (table_rows db) (map enc xs) f"
  unfolding references_enc [of db f, OF assms(2)] assms(3,4) references_simps by (rule assms(1))

lemma references_int:
  assumes "fk a xs (k ` set ys)" "table_rows db (fk_table f) = map enc2 ys"
    and "\<And>x. getv (enc x) (fk_column f) = VInt (a x)" "\<And>y. getv (enc2 y) (fk_target f) = VInt (k y)"
  shows "references_ok (table_rows db) (map enc xs) f"
  unfolding references_enc [of db f, OF assms(2)] assms(3,4) references_simps by (rule assms(1))

lemma references_nullable:
  assumes "fk_opt a xs (k ` set ys)" "table_rows db (fk_table f) = map enc2 ys"
    and "\<And>x. getv (enc x) (fk_column f) = nullable VText (a x)" "\<And>y. getv (enc2 y) (fk_target f) = VText (k y)"
  shows "references_ok (table_rows db) (map enc xs) f"
  unfolding references_enc [of db f, OF assms(2)] assms(3,4) references_simps by (rule assms(1))

lemma references_rows:
  "fk_opt d_home_id ds (home_keys db) \<Longrightarrow> references_ok (table_rows db) (map device_row ds) (refer ''home_id'' ''homes'' ''home_id'')"
  "fk fst hc (home_keys db) \<Longrightarrow> references_ok (table_rows db) (map home_community_row hc) (refer ''home_id'' ''homes'' ''home_id'')"
  "fk snd hc (community_keys db) \<Longrightarrow> references_ok (table_rows db) (map home_community_row hc) (refer ''community_id'' ''communities'' ''community_id'')"
  "fk b_community_id bs (community_keys db) \<Longrightarrow> references_ok (table_rows db) (map broadcast_row bs) (refer ''community_id'' ''communities'' ''community_id'')"
  "fk a_broadcast_id as (broadcast_keys db) \<Longrightarrow> references_ok (table_rows db) (map ack_row as) (refer ''broadcast_id'' ''broadcasts'' ''id'')"
  "fk a_home_id as (home_keys db) \<Longrightarrow> references_ok (table_rows db) (map ack_row as) (refer ''home_id'' ''homes'' ''home_id'')"
  "fk e_device_id es (device_keys db) \<Longrightarrow> references_ok (table_rows db) (map event_row es) (refer ''device_id'' ''devices'' ''device_id'')"
  "fk_opt g_created_by gs (user_keys db) \<Longrightarrow> references_ok (table_rows db) (map group_row gs) (refer ''created_by'' ''users'' ''id'')"
  "fk fst ms (group_keys db) \<Longrightarrow> references_ok (table_rows db) (map member_row ms) (refer_cascade ''group_id'' ''device_groups'' ''id'')"
  "fk snd ms (device_keys db) \<Longrightarrow> references_ok (table_rows db) (map member_row ms) (refer_cascade ''device_id'' ''devices'' ''device_id'')"
  "fk r_target_version rs (version_keys db) \<Longrightarrow> references_ok (table_rows db) (map rollout_row rs) (refer ''target_version'' ''firmware_versions'' ''version'')"
  "fk_opt r_created_by rs (user_keys db) \<Longrightarrow> references_ok (table_rows db) (map rollout_row rs) (refer ''created_by'' ''users'' ''id'')"
  by (erule references_text references_int references_nullable, simp only: refer_simps table_rows_simps,
      simp add: row_defs, simp add: row_defs)+

lemma conforms_users:
  assumes "db_wf db"
  shows "conforms_table (table_rows db)
           (mk_table ''users''
              [col ''id'' (Varchar 64), col ''email'' (Varchar 256), col ''hashed_password'' (Varchar 256), col ''role'' (Varchar 16),
               col ''is_active'' BooleanType, stamp ''created_at''] [''id''] [''email''] [])"
  using db_wfD(1) [OF assms]
  by (intro conforms_tableI [where enc = user_row and xs = "users db"])
     (auto simp: row_defs row_ok_def list_all_iff distinct_keys distinct_unique
        users_wf_def user_ok_def intro: references_rows)

lemma conforms_homes:
  assumes "db_wf db"
  shows "conforms_table (table_rows db)
           (mk_table ''homes''
              [col ''home_id'' (Varchar 64), col ''patient_name'' (Varchar 128), ncol ''address'' (Varchar 256), stamp ''created_at'']
              [''home_id''] [] [])"
  using db_wfD(2) [OF assms]
  by (intro conforms_tableI [where enc = home_row and xs = "homes db"])
     (auto simp: row_defs row_ok_def list_all_iff distinct_keys distinct_unique
        homes_wf_def home_ok_def intro: references_rows)

lemma conforms_communities:
  assumes "db_wf db"
  shows "conforms_table (table_rows db)
           (mk_table ''communities''
              [col ''community_id'' (Varchar 32), col ''name'' (Varchar 128), ncol ''description'' TextType, stamp ''created_at'']
              [''community_id''] [] [])"
  using db_wfD(3) [OF assms]
  by (intro conforms_tableI [where enc = community_row and xs = "communities db"])
     (auto simp: row_defs row_ok_def list_all_iff distinct_keys distinct_unique
        communities_wf_def community_ok_def intro: references_rows)

lemma conforms_devices:
  assumes "db_wf db"
  shows "conforms_table (table_rows db)
           (mk_table ''devices''
              [col ''device_id'' (Varchar 64), ncol ''mac'' (Varchar 17), ncol ''display_name'' (Varchar 128),
               ncol ''custom_id'' (Varchar 64), ncol ''firmware_version'' (Varchar 32),
               ncol ''target_firmware_version'' (Varchar 32), col ''device_type'' (Varchar 32),
               ncol ''provision_token'' (Varchar 128), col ''role'' (Varchar 32), col ''status'' (Varchar 16),
               ncol ''last_seen'' Timestamptz, ncol ''home_id'' (Varchar 64), ncol ''rssi'' IntegerType,
               ncol ''heap'' IntegerType, ncol ''uptime'' IntegerType, stamp ''created_at'', stamp ''updated_at'']
              [''device_id''] [''mac''] [refer ''home_id'' ''homes'' ''home_id''])"
  using db_wfD(4) [OF assms]
  by (intro conforms_tableI [where enc = device_row and xs = "devices db"])
     (auto simp: row_defs row_ok_def list_all_iff distinct_keys distinct_unique
        devices_wf_def device_ok_def intro: references_rows)

lemma conforms_broadcasts:
  assumes "db_wf db" "ids_int4 db"
  shows "conforms_table (table_rows db)
           (mk_table ''broadcasts''
              [col ''id'' IntegerType, col ''community_id'' (Varchar 32), col ''message'' TextType, col ''type'' (Varchar 16),
               col ''priority'' (Varchar 16), ncol ''scheduled_at'' Timestamptz, ncol ''sent_at'' Timestamptz,
               ncol ''sent_by'' (Varchar 64), stamp ''created_at'']
              [''id''] [] [refer ''community_id'' ''communities'' ''community_id''])"
  using db_wfD(6) [OF assms(1)] assms(2)
  by (intro conforms_tableI [where enc = broadcast_row and xs = "broadcasts db"])
     (auto simp: row_defs row_ok_def list_all_iff distinct_keys distinct_unique
        broadcasts_wf_def broadcast_ok_def serial_wf_def ids_int4_def intro: references_rows)

lemma conforms_broadcast_acks:
  assumes "db_wf db" "ids_int4 db"
  shows "conforms_table (table_rows db)
           (mk_table ''broadcast_acks''
              [col ''id'' IntegerType, col ''broadcast_id'' IntegerType, col ''home_id'' (Varchar 64), col ''status'' (Varchar 16),
               ncol ''received_at'' Timestamptz] [''id''] []
              [refer ''broadcast_id'' ''broadcasts'' ''id'', refer ''home_id'' ''homes'' ''home_id''])"
  using db_wfD(7) [OF assms(1)] assms(2)
  by (intro conforms_tableI [where enc = ack_row and xs = "broadcast_acks db"])
     (auto simp: row_defs row_ok_def list_all_iff distinct_keys distinct_unique
        acks_wf_def ack_ok_def serial_wf_def ids_int4_def intro: references_rows)

lemma conforms_firmware_versions:
  assumes "db_wf db" "ids_int4 db"
  shows "conforms_table (table_rows db)
           (mk_table ''firmware_versions''
              [col ''id'' IntegerType, col ''version'' (Varchar 32), col ''binary_path'' (Varchar 256), col ''checksum'' (Varchar 64),
               ncol ''release_notes'' TextType, stamp ''created_at''] [''id''] [''version''] [])"
  using db_wfD(8) [OF assms(1)] assms(2)
  by (intro conforms_tableI [where enc = firmware_row and xs = "firmware_versions db"])
     (auto simp: row_defs row_ok_def list_all_iff distinct_keys distinct_unique
        firmware_wf_def firmware_ok_def serial_wf_def ids_int4_def intro: references_rows)

lemma conforms_ota_events:
  assumes "db_wf db" "ids_int4 db"
  shows "conforms_table (table_rows db)
           (mk_table ''ota_events''
              [col ''id'' IntegerType, col ''device_id'' (Varchar 64), col ''from_version'' (Varchar 32), col ''to_version'' (Varchar 32),
               col ''status'' (Varchar 16), stamp ''started_at'', ncol ''completed_at'' Timestamptz]
              [''id''] [] [refer ''device_id'' ''devices'' ''device_id''])"
  using db_wfD(9) [OF assms(1)] assms(2)
  by (intro conforms_tableI [where enc = event_row and xs = "ota_events db"])
     (auto simp: row_defs row_ok_def list_all_iff distinct_keys distinct_unique
        events_wf_def event_ok_def serial_wf_def ids_int4_def intro: references_rows)

lemma conforms_provision_jobs:
  assumes "db_wf db"
  shows "conforms_table (table_rows db)
           (mk_table ''provision_jobs''
              [col ''id'' (Varchar 36), col ''device_id'' (Varchar 64), col ''device_type'' (Varchar 32), col ''status'' (Varchar 16),
               ncol ''firmware_path'' (Varchar 512), ncol ''error'' TextType, stamp ''created_at'', stamp ''updated_at'']
              [''id''] [] [])"
  using db_wfD(10) [OF assms]
  by (intro conforms_tableI [where enc = job_row and xs = "provision_jobs db"])
     (auto simp: row_defs row_ok_def list_all_iff distinct_keys distinct_unique
        jobs_wf_def job_ok_def intro: references_rows)

lemma conforms_device_groups:
  assumes "db_wf db" "ids_int4 db"
  shows "conforms_table (table_rows db)
           (mk_table ''device_groups''
              [col ''id'' IntegerType, col ''name'' (Varchar 128), ncol ''description'' TextType, ncol ''created_by'' (Varchar 64),
               stamp ''created_at'', stamp ''updated_at''] [''id''] [''name''] [refer ''created_by'' ''users'' ''id''])"
  using db_wfD(11) [OF assms(1)] assms(2)
  by (intro conforms_tableI [where enc = group_row and xs = "device_groups db"])
     (auto simp: row_defs row_ok_def list_all_iff distinct_keys distinct_unique
        groups_wf_def group_ok_def serial_wf_def ids_int4_def intro: references_rows)

lemma conforms_scheduled_rollouts:
  assumes "db_wf db" "ids_int4 db"
  shows "conforms_table (table_rows db)
           (mk_table ''scheduled_rollouts''
              [col ''id'' IntegerType, col ''target_version'' (Varchar 32), col ''strategy'' (Varchar 16),
               col ''target_devices'' JsonType, ncol ''canary_count'' IntegerType, col ''fire_at'' Timestamptz,
               col ''status'' (Varchar 16), ncol ''created_by'' (Varchar 64), stamp ''created_at'',
               ncol ''fired_at'' Timestamptz, ncol ''error'' TextType] [''id''] []
              [refer ''target_version'' ''firmware_versions'' ''version'', refer ''created_by'' ''users'' ''id''])"
  using db_wfD(13) [OF assms(1)] assms(2)
  by (intro conforms_tableI [where enc = rollout_row and xs = "scheduled_rollouts db"])
     (auto simp: row_defs row_ok_def list_all_iff distinct_keys distinct_unique
        rollouts_wf_def rollout_ok_def serial_wf_def ids_int4_def intro: references_rows)

lemma conforms_audit_log:
  assumes "db_wf db" "ids_int4 db"
  shows "conforms_table (table_rows db)
           (mk_table ''audit_log''
              [col ''id'' IntegerType, ncol ''user_id'' (Varchar 64), col ''action'' (Varchar 32), col ''resource'' (Varchar 32),
               ncol ''details'' JsonbType, stamp ''created_at''] [''id''] [] [])"
  using db_wfD(14) [OF assms(1)] assms(2)
  by (intro conforms_tableI [where enc = audit_row and xs = "audit_log db"])
     (auto simp: row_defs row_ok_def list_all_iff distinct_keys distinct_unique
        audit_wf_def audit_ok_def serial_wf_def ids_int4_def intro: references_rows)

lemma conforms_home_community:
  assumes "db_wf db"
  shows "conforms_table (table_rows db)
           (mk_table ''home_community''
              [col ''home_id'' (Varchar 64), col ''community_id'' (Varchar 32)] [''home_id'', ''community_id''] []
              [refer ''home_id'' ''homes'' ''home_id'', refer ''community_id'' ''communities'' ''community_id''])"
proof -
  have "fits 64 (fst p) \<and> fits 32 (snd p)" if "p \<in> set (home_community db)" for p
    using db_wfD(2,3,5) [OF assms] that
    by (fastforce simp: homes_wf_def communities_wf_def home_community_wf_def fk_def list_all_iff home_ok_def community_ok_def)
  then show ?thesis
    using db_wfD(5) [OF assms]
    by (intro conforms_tableI [where enc = home_community_row and xs = "home_community db"])
       (auto simp: row_defs row_ok_def home_community_wf_def distinct_keys intro: references_rows)
qed

lemma conforms_device_group_members:
  assumes "db_wf db" "ids_int4 db"
  shows "conforms_table (table_rows db)
           (mk_table ''device_group_members''
              [col ''group_id'' IntegerType, col ''device_id'' (Varchar 64)] [''group_id'', ''device_id''] []
              [refer_cascade ''group_id'' ''device_groups'' ''id'', refer_cascade ''device_id'' ''devices'' ''device_id''])"
proof -
  have "int4 (fst m) \<and> fits 64 (snd m)" if "m \<in> set (device_group_members db)" for m
    using db_wfD(4,12) [OF assms(1)] assms(2) that
    by (fastforce simp: devices_wf_def members_wf_def fk_def list_all_iff device_ok_def ids_int4_def)
  then show ?thesis
    using db_wfD(12) [OF assms(1)]
    by (intro conforms_tableI [where enc = member_row and xs = "device_group_members db"])
       (auto simp: row_defs row_ok_def members_wf_def distinct_keys intro: references_rows)
qed

section \<open>The whole database\<close>

lemma conforms_models:
  assumes "db_wf db" "ids_int4 db"
  shows "conforms model_schema (table_rows db)"
  unfolding conforms_def model_schema_def schema.select_convs list.pred_inject
  by (intro conjI list.pred_inject(1) conforms_users conforms_homes conforms_communities conforms_home_community conforms_devices
      conforms_broadcasts conforms_broadcast_acks conforms_firmware_versions conforms_ota_events conforms_provision_jobs
      conforms_device_groups conforms_device_group_members conforms_scheduled_rollouts conforms_audit_log assms)

text \<open>Tables that differ in the order of their columns or in server defaults demand the same of their rows.\<close>

lemma row_ok_column_key:
  "row_ok t r \<longleftrightarrow> distinct (map fst r) \<and> set (map fst r) = fst ` set (map column_key (tb_columns t)) \<and>
     (\<forall>(n, ty, nl) \<in> set (map column_key (tb_columns t)). if getv r n = VNull then nl else value_ok ty (getv r n))"
  by (auto simp: row_ok_def column_key_def cell_ok_def list_all_iff image_image split: if_splits)

lemma conforms_same_table:
  assumes "same_table t t'"
  shows "conforms_table tabs t = conforms_table tabs t'"
proof -
  have "row_ok t = row_ok t'"
    using assms by (intro ext) (simp only: row_ok_column_key same_table_def)
  then show ?thesis
    using assms by (simp add: conforms_table_def same_table_def list_all_iff Let_def)
qed

lemma conforms_same_tables:
  assumes "same_tables s s'" "conforms s' tabs"
  shows "conforms s tabs"
  using assms conforms_same_table
  by (auto simp: same_tables_def conforms_def list_all_iff list_ex_iff)

text \<open>The migrated database: whatever satisfies the invariant conforms to the schema in force.\<close>

lemma conforms_migrated:
  assumes "db_wf db" "ids_int4 db"
  shows "\<exists>s. upgrade_head empty_schema = Some s \<and> conforms s (table_rows db)"
  using migrated_same_tables conforms_same_tables [OF _ conforms_models [OF assms]]
  by (auto split: option.splits)

end
