(* ===== verification/Test_Suite.thy ===== *)
theory Test_Suite
  imports Overlap
begin

text \<open>
  The repository's own tests (\<^verbatim>\<open>src/fleet_server/tests\<close>) replayed on the model, each under the name it
  has there: the same calls on an empty database, the same assertions, evaluated in the kernel. Most
  hold. Tests that contradict the code are stated the way the code behaves, under their name
  with \<open>_differs\<close>: the API tests call the resource routes without a token, which the router refuses
  (see \<open>Test_Suite_Api\<close>), so they are replayed here with the token of an administrator; the device
  listing answers a page, not a list; and a heartbeat registers an unknown device.
\<close>

section \<open>Fixtures\<close>

text \<open>
  The environment at second \<open>t\<close>: tokens carry their claims and expiry as JSON text, so that they can be
  evaluated.
\<close>

fun padded_digits :: "nat \<Rightarrow> int \<Rightarrow> string" where
  "padded_digits 0 n = []"
| "padded_digits (Suc k) n = padded_digits k (n div 10) @ [char_of (48 + n mod 10)]"

definition test_encode :: "string \<Rightarrow> string \<Rightarrow> datetime \<Rightarrow> string" where
  "test_encode sub role expire =
     dumps_obj [(''sub'', sub), (''role'', role), (''exp'', padded_digits 12 (expire div seconds 1))]"

definition test_decode :: "datetime \<Rightarrow> string \<Rightarrow> (string \<times> json) list option" where
  "test_decode now token =
     (case loads_text token of
        Parsed (JObj claims) r \<Rightarrow>
          (case map_of claims ''exp'' of
             Some (JStr e) \<Rightarrow> if now \<le> seconds (digits_value e) then Some claims else None
           | _ \<Rightarrow> None)
      | _ \<Rightarrow> None)"

definition at_second :: "int \<Rightarrow> ext" where
  "at_second t = demo_ext\<lparr>clock := \<lambda>_. seconds t, pg_now := \<lambda>_. seconds t,
     jwt_encode := test_encode, jwt_decode := test_decode\<rparr>"

definition test_ext :: ext where "test_ext = at_second 1000"

definition test_user :: "string \<Rightarrow> string \<Rightarrow> string \<Rightarrow> user" where
  "test_user uid email role =
     \<lparr> u_id = uid, u_email = email, u_hashed_password = hash_password test_ext ''password123'', u_role = role,
       u_is_active = True, u_created_at = seconds 10 \<rparr>"

definition with_users :: "user list \<Rightarrow> db" where "with_users us = empty_db\<lparr>users := us\<rparr>"

definition admin_db :: db where "admin_db = with_users [test_user ''admin'' ''admin@test.com'' ''admin'']"

definition auth_header :: "string \<Rightarrow> string \<Rightarrow> string option" where
  "auth_header uid role = Some (create_access_token test_ext uid role)"

definition admin_token :: "string option" where "admin_token = auth_header ''admin'' ''admin''"

definition answers :: "'a res \<Rightarrow> ('a \<Rightarrow> bool) \<Rightarrow> bool" where
  "answers r P = (case r of Inl e \<Rightarrow> False | Inr x \<Rightarrow> P x)"

definition raises_status :: "nat \<Rightarrow> 'a res \<Rightarrow> bool" where
  "raises_status code r = (case r of Inl e \<Rightarrow> http_status e = code | Inr x \<Rightarrow> False)"

section \<open>test_mqtt_handlers.py\<close>

definition registers :: "string \<Rightarrow> (string \<times> string) list \<Rightarrow> db \<Rightarrow> device db_res" where
  "registers name entries db = handle_registration test_ext name (dumps_obj entries) db"

definition test_register_new_device :: bool where
  "test_register_new_device \<longleftrightarrow>
     (answers (fst (registers ''esp32-new'' [(''mac'', ''AA:BB:CC:DD:EE:FF''), (''version'', ''1.0.0''), (''role'', ''sensor'')] empty_db))
        (\<lambda>d. d_device_id d = ''esp32-new'' \<and> d_mac d = Some ''AA:BB:CC:DD:EE:FF'' \<and>
          d_firmware_version d = Some ''1.0.0'' \<and> d_status d = ''alive''))"

definition test_register_existing_device_updates :: bool where
  "test_register_existing_device_updates \<longleftrightarrow>
     (let first = registers ''esp32-re'' [(''mac'', ''11:22:33:44:55:66''), (''version'', ''1.0.0''), (''role'', ''sensor'')] empty_db;
          second = registers ''esp32-re'' [(''mac'', ''11:22:33:44:55:66''), (''version'', ''1.1.0''), (''role'', ''hub'')] (snd first)
      in answers (fst second) (\<lambda>d. d_firmware_version d = Some ''1.1.0'' \<and> d_role d = ''hub'' \<and> d_status d = ''alive'') \<and>
         length (filter (\<lambda>d. d_device_id d = ''esp32-re'') (devices (snd second))) = 1)"

definition test_register_invalid_json :: bool where
  "test_register_invalid_json \<longleftrightarrow>
     (fst (handle_registration test_ext ''esp32-bad'' ''not-json'' empty_db) =
        Inl (ValueError ''Invalid registration payload from esp32-bad''))"

definition beats :: "string \<Rightarrow> string \<Rightarrow> db \<Rightarrow> bool db_res" where
  "beats name text db = handle_heartbeat test_ext name text db"

definition test_heartbeat_updates_device :: bool where
  "test_heartbeat_updates_device \<longleftrightarrow>
     (let r = beats ''esp32-hb'' ''{\"uptime\": 300, \"heap\": 45000, \"rssi\": -55}''
                (snd (registers ''esp32-hb'' [(''mac'', ''AA:00:00:00:00:01''), (''version'', ''1.0.0'')] empty_db))
      in fst r = Inr True \<and>
         map (\<lambda>d. (d_rssi d, d_heap d, d_uptime d, d_status d, d_last_seen d)) (devices (snd r)) =
           [(Some (- 55), Some 45000, Some 300, ''alive'', Some (seconds 1000))])"

definition test_heartbeat_unknown_device_differs :: bool where
  "test_heartbeat_unknown_device_differs \<longleftrightarrow>
     (let r = beats ''ghost-device'' ''{\"uptime\": 10, \"heap\": 30000, \"rssi\": -70}'' empty_db
      in fst r = Inr True \<and> map d_device_id (devices (snd r)) = [''ghost-device''])"

definition test_heartbeat_invalid_json :: bool where
  "test_heartbeat_invalid_json \<longleftrightarrow>
     (fst (handle_heartbeat test_ext ''esp32-x'' ''bad-json'' empty_db) = Inr False)"

definition test_heartbeat_partial_payload :: bool where
  "test_heartbeat_partial_payload \<longleftrightarrow>
     (let r = beats ''esp32-partial'' ''{\"uptime\": 60}''
                (snd (registers ''esp32-partial'' [(''mac'', ''AA:00:00:00:00:02''), (''version'', ''1.0.0'')] empty_db))
      in fst r = Inr True \<and> map (\<lambda>d. (d_uptime d, d_rssi d, d_heap d)) (devices (snd r)) = [(Some 60, None, None)])"

text \<open>Devices as the tests create them: with a status and the time they were last seen.\<close>

definition test_device :: "string \<Rightarrow> string \<Rightarrow> string \<Rightarrow> int option \<Rightarrow> device" where
  "test_device did mac status seen =
     (default_device did (seconds 10))\<lparr>d_mac := Some mac, d_firmware_version := Some ''1.0.0'', d_status := status,
       d_last_seen := map_option seconds seen\<rparr>"

definition with_devices :: "device list \<Rightarrow> db" where "with_devices ds = admin_db\<lparr>devices := ds\<rparr>"

definition statuses :: "db \<Rightarrow> (string \<times> string) list" where
  "statuses db = map (\<lambda>d. (d_device_id d, d_status d)) (devices db)"

definition test_dead_device_detection :: bool where
  "test_dead_device_detection \<longleftrightarrow>
     (let r = check_dead_devices test_ext (with_devices [test_device ''esp32-dying'' ''DD:EE:AA:DD:00:01'' ''alive'' (Some 880)])
      in fst r = [''esp32-dying''] \<and> statuses (fst (snd r)) = [(''esp32-dying'', ''dead'')])"

definition test_alive_device_not_marked_dead :: bool where
  "test_alive_device_not_marked_dead \<longleftrightarrow>
     (let r = check_dead_devices test_ext (with_devices [test_device ''esp32-healthy'' ''DD:EE:AA:DD:00:02'' ''alive'' (Some 970)])
      in fst r = [] \<and> statuses (fst (snd r)) = [(''esp32-healthy'', ''alive'')])"

definition test_unknown_device_not_affected :: bool where
  "test_unknown_device_not_affected \<longleftrightarrow>
     (fst (check_dead_devices test_ext (with_devices [test_device ''esp32-unknown'' ''DD:EE:AA:DD:00:03'' ''unknown'' (Some 800)])) = [])"

definition test_dead_detection_multiple_devices :: bool where
  "test_dead_detection_multiple_devices \<longleftrightarrow>
     (length (fst (check_dead_devices test_ext (with_devices
        [test_device ''esp32-dead-0'' ''DD:00:00:00:00:00'' ''alive'' (Some 850),
         test_device ''esp32-dead-1'' ''DD:00:00:00:00:01'' ''alive'' (Some 850),
         test_device ''esp32-dead-2'' ''DD:00:00:00:00:02'' ''alive'' (Some 850)]))) = 3)"

definition test_revive_dead_device_via_heartbeat :: bool where
  "test_revive_dead_device_via_heartbeat \<longleftrightarrow>
     (let db1 = fst (snd (check_dead_devices test_ext
                  (with_devices [test_device ''esp32-revive'' ''DD:EE:AA:DD:00:04'' ''alive'' (Some 800)])));
          db2 = snd (beats ''esp32-revive'' ''{\"uptime\": 5, \"heap\": 40000, \"rssi\": -40}'' db1)
      in statuses db1 = [(''esp32-revive'', ''dead'')] \<and> statuses db2 = [(''esp32-revive'', ''alive'')])"

definition test_event :: "string \<Rightarrow> string \<Rightarrow> ota_event" where
  "test_event did status =
     \<lparr> e_id = 1, e_device_id = did, e_from_version = ''1.0.0'', e_to_version = ''2.0.0'', e_status = status,
       e_started_at = seconds 990, e_completed_at = None \<rparr>"

definition updating_db :: "string \<Rightarrow> db" where
  "updating_db status =
     (with_devices [test_device ''esp32-ota'' ''OT:AA:00:00:00:01'' ''alive'' (Some 990)])\<lparr>ota_events := [test_event ''esp32-ota'' status]\<rparr>"

definition reports :: "string \<Rightarrow> (string \<times> string) list \<Rightarrow> db \<Rightarrow> bool db_res" where
  "reports name entries db = handle_ota_status test_ext name (dumps_obj entries) db"

definition event_states :: "db \<Rightarrow> (string \<times> datetime option) list" where
  "event_states db = map (\<lambda>e. (e_status e, e_completed_at e)) (ota_events db)"

definition versions :: "db \<Rightarrow> string option list" where "versions db = map d_firmware_version (devices db)"

definition test_ota_status_success_updates_event_and_firmware :: bool where
  "test_ota_status_success_updates_event_and_firmware \<longleftrightarrow>
     (let r = reports ''esp32-ota'' [(''status'', ''success''), (''version'', ''2.0.0'')] (updating_db ''pending'')
      in fst r = Inr True \<and> event_states (snd r) = [(''success'', Some (seconds 1000))] \<and> versions (snd r) = [Some ''2.0.0''])"

definition test_ota_status_failed_updates_event :: bool where
  "test_ota_status_failed_updates_event \<longleftrightarrow>
     (let r = reports ''esp32-ota'' [(''status'', ''failed''), (''version'', ''2.0.0'')] (updating_db ''downloading'')
      in fst r = Inr True \<and> event_states (snd r) = [(''failed'', Some (seconds 1000))] \<and> versions (snd r) = [Some ''1.0.0''])"

definition test_ota_status_downloading_updates_event :: bool where
  "test_ota_status_downloading_updates_event \<longleftrightarrow>
     (let r = reports ''esp32-ota'' [(''status'', ''downloading''), (''version'', ''2.0.0'')] (updating_db ''pending'')
      in fst r = Inr True \<and> event_states (snd r) = [(''downloading'', None)])"

definition test_ota_status_no_matching_event :: bool where
  "test_ota_status_no_matching_event \<longleftrightarrow>
     (fst (reports ''ghost-device'' [(''status'', ''success''), (''version'', ''9.9.9'')] empty_db) = Inr False)"

definition test_ota_status_invalid_json :: bool where
  "test_ota_status_invalid_json \<longleftrightarrow>
     (fst (handle_ota_status test_ext ''esp32-x'' ''bad-json'' empty_db) = Inr False)"

definition test_ota_status_missing_fields :: bool where
  "test_ota_status_missing_fields \<longleftrightarrow>
     (fst (reports ''esp32-x'' [(''status'', ''success'')] empty_db) = Inr False)"

lemma test_mqtt_handlers_hold:
  "list_all (\<lambda>t. t)
    [test_register_new_device, test_register_existing_device_updates, test_register_invalid_json,
     test_heartbeat_updates_device, test_heartbeat_unknown_device_differs,
     test_heartbeat_invalid_json, test_heartbeat_partial_payload, test_dead_device_detection,
     test_alive_device_not_marked_dead, test_unknown_device_not_affected,
     test_dead_detection_multiple_devices, test_revive_dead_device_via_heartbeat,
     test_ota_status_success_updates_event_and_firmware, test_ota_status_failed_updates_event,
     test_ota_status_downloading_updates_event, test_ota_status_no_matching_event,
     test_ota_status_invalid_json, test_ota_status_missing_fields]"
  by code_simp

section \<open>test_alerting.py\<close>

text \<open>\<^verbatim>\<open>part in text\<close>\<close>

fun contains :: "string \<Rightarrow> string \<Rightarrow> bool" where
  "contains part [] = (part = [])"
| "contains part (c # cs) = (startswith (c # cs) part \<or> contains part cs)"

definition test_console_alert :: bool where
  "test_console_alert \<longleftrightarrow>
     (send test_ext ConsoleChannel ''Test Alert'' ''Device esp32-001 is dead'')"

definition test_alert_service_dispatches_to_all_channels :: bool where
  "test_alert_service_dispatches_to_all_channels \<longleftrightarrow>
     (map (\<lambda>(ch, subject, message, sent). ch) (device_dead test_ext [''esp32-001'', ''esp32-002'']) = channels test_ext \<and>
      list_all (\<lambda>(ch, subject, message, sent). contains ''2 device(s)'' subject \<and> contains ''esp32-001'' message \<and>
        contains ''esp32-002'' message) (device_dead test_ext [''esp32-001'', ''esp32-002'']))"

definition test_alert_service_empty_list_no_alert :: bool where
  "test_alert_service_empty_list_no_alert \<longleftrightarrow>
     (device_dead test_ext [] = [])"

definition test_slack_channel_disabled_without_url :: bool where
  "test_slack_channel_disabled_without_url \<longleftrightarrow>
     (\<not> send test_ext SlackChannel ''Test'' ''msg'')"

definition test_dead_detection_triggers_alert :: bool where
  "test_dead_detection_triggers_alert \<longleftrightarrow>
     (let r = check_dead_devices test_ext (with_devices [test_device ''esp32-alert-test'' ''AL:ER:TT:ES:T0:01'' ''alive'' (Some 880)])
      in fst r = [''esp32-alert-test''] \<and> snd (snd r) = device_dead test_ext [''esp32-alert-test''])"

lemma test_alertings_hold:
  "list_all (\<lambda>t. t)
    [test_console_alert, test_alert_service_dispatches_to_all_channels,
     test_alert_service_empty_list_no_alert, test_slack_channel_disabled_without_url,
     test_dead_detection_triggers_alert]"
  by code_simp

section \<open>test_ota.py\<close>

definition ota_firmware :: firmware_version where
  "ota_firmware =
     \<lparr> f_id = 1, f_version = ''2.0.0'', f_binary_path = ''fw'', f_checksum = ''abc'', f_release_notes = Some ''OTA test release'',
       f_created_at = seconds 10 \<rparr>"

definition ota_db :: db where
  "ota_db = (with_devices
     [test_device ''esp32-ota-0'' ''OT:AA:00:00:00:00'' ''alive'' None, test_device ''esp32-ota-1'' ''OT:AA:00:00:00:01'' ''alive'' None,
      test_device ''esp32-ota-2'' ''OT:AA:00:00:00:02'' ''alive'' None, test_device ''esp32-ota-3'' ''OT:AA:00:00:00:03'' ''alive'' None,
      test_device ''esp32-ota-4'' ''OT:AA:00:00:00:04'' ''alive'' None])\<lparr>firmware_versions := [ota_firmware]\<rparr>"

definition rollout_of :: "string \<Rightarrow> string \<Rightarrow> int \<Rightarrow> string list option \<Rightarrow> rollout_request" where
  "rollout_of version strategy n targets =
     \<lparr> q_target_version = version, q_strategy = strategy, q_canary_count = n, q_target_devices = targets,
       q_target_community = None \<rparr>"

definition test_canary_rollout :: bool where
  "test_canary_rollout \<longleftrightarrow>
     (let (r, db', ms) = start_rollout test_ext 0 (rollout_of ''2.0.0'' ''canary'' 2 None) ota_db
      in answers r (\<lambda>es. length es = 2 \<and> list_all (\<lambda>e. e_status e = ''pending'' \<and> e_to_version e = ''2.0.0'' \<and>
           e_from_version e = ''1.0.0'') es) \<and> length ms = 2)"

definition test_full_rollout :: bool where
  "test_full_rollout \<longleftrightarrow>
     (let (r, db', ms) = start_rollout test_ext 0 (rollout_of ''2.0.0'' ''full'' 2 None) ota_db
      in answers r (\<lambda>es. length es = 5) \<and> length ms = 5)"

definition test_rollout_skips_already_on_version :: bool where
  "test_rollout_skips_already_on_version \<longleftrightarrow>
     (answers (fst (start_rollout test_ext 0 (rollout_of ''2.0.0'' ''full'' 2 None)
          (ota_db\<lparr>devices := (hd (devices ota_db))\<lparr>d_firmware_version := Some ''2.0.0''\<rparr> # tl (devices ota_db)\<rparr>)))
        (\<lambda>es. length es = 4 \<and> ''esp32-ota-0'' \<notin> set (map e_device_id es)))"

definition test_rollout_target_specific_devices :: bool where
  "test_rollout_target_specific_devices \<longleftrightarrow>
     (answers (fst (start_rollout test_ext 0 (rollout_of ''2.0.0'' ''full'' 2 (Some [''esp32-ota-1'', ''esp32-ota-3''])) ota_db))
        (\<lambda>es. map e_device_id es = [''esp32-ota-1'', ''esp32-ota-3'']))"

definition test_rollout_unknown_firmware :: bool where
  "test_rollout_unknown_firmware \<longleftrightarrow>
     (fst (start_rollout test_ext 0 (rollout_of ''99.99.99'' ''canary'' 2 None) ota_db) =
        Inl (ValueError ''Firmware version 99.99.99 not found''))"

definition test_abort_rollout :: bool where
  "test_abort_rollout \<longleftrightarrow>
     (let (r, db1, ms) = start_rollout test_ext 0 (rollout_of ''2.0.0'' ''full'' 2 None) ota_db;
          (n, db2) = abort_rollout ''2.0.0'' db1
      in n = 5 \<and> list_all (\<lambda>e. e_status e = ''cancelled'') (get_events test_ext (Some ''2.0.0'') db2))"

definition test_get_events :: bool where
  "test_get_events \<longleftrightarrow>
     (let (r, db1, ms) = start_rollout test_ext 0 (rollout_of ''2.0.0'' ''canary'' 3 None) ota_db
      in length (get_events test_ext (Some ''2.0.0'') db1) = 3 \<and> length (get_events test_ext None db1) = 3)"

definition test_api_start_rollout :: bool where
  "test_api_start_rollout \<longleftrightarrow>
     (answers (fst (api_start_rollout test_ext admin_token (rollout_of ''2.0.0'' ''canary'' 2 None) ota_db))
        (\<lambda>a. rr_target_version a = ''2.0.0'' \<and> rr_total_devices a = 2 \<and> length (rr_events a) = 2))"

definition test_api_rollout_bad_version :: bool where
  "test_api_rollout_bad_version \<longleftrightarrow>
     (raises_status 400 (fst (api_start_rollout test_ext admin_token (rollout_of ''nonexistent'' ''canary'' 2 None) ota_db)))"

definition test_api_abort_rollout :: bool where
  "test_api_abort_rollout \<longleftrightarrow>
     (let (r, db1, ms) = api_start_rollout test_ext admin_token (rollout_of ''2.0.0'' ''full'' 2 None) ota_db
      in answers (fst (api_abort_rollout test_ext admin_token ''2.0.0'' db1)) (\<lambda>(n, v). n = 5))"

definition test_api_list_events :: bool where
  "test_api_list_events \<longleftrightarrow>
     (let (r, db1, ms) = api_start_rollout test_ext admin_token (rollout_of ''2.0.0'' ''canary'' 3 None) ota_db
      in answers (api_list_events test_ext admin_token (Some ''2.0.0'') db1) (\<lambda>es. length es = 3))"

lemma test_otas_hold:
  "list_all (\<lambda>t. t)
    [test_canary_rollout, test_full_rollout, test_rollout_skips_already_on_version,
     test_rollout_target_specific_devices, test_rollout_unknown_firmware, test_abort_rollout,
     test_get_events, test_api_start_rollout, test_api_rollout_bad_version, test_api_abort_rollout,
     test_api_list_events]"
  by code_simp

section \<open>test_broadcast.py\<close>

definition test_communities :: "(string \<times> string) list \<Rightarrow> community list" where
  "test_communities cs =
     map (\<lambda>(i, n). \<lparr> c_community_id = i, c_name = n, c_description = None, c_created_at = seconds 10 \<rparr>) cs"

definition community_db :: "(string \<times> string) list \<Rightarrow> db" where
  "community_db cs = admin_db
     \<lparr>communities := test_communities cs, home_community := [(''home-test-001'', ''nrh-test'')],
      homes := [\<lparr> h_home_id = ''home-test-001'', h_patient_name = ''Patient A'', h_address = None, h_created_at = seconds 10 \<rparr>]\<rparr>"

definition nrh :: db where "nrh = community_db [(''nrh-test'', ''NRH Test'')]"

definition broadcast_to :: "string list \<Rightarrow> datetime option \<Rightarrow> broadcast_create" where
  "broadcast_to ids later =
     \<lparr> bc_community_ids = ids, bc_message = ''Flu clinic Saturday 9am'', bc_type = ''alert'', bc_priority = ''normal'',
       bc_scheduled_at = later, bc_sent_by = Some ''admin'' \<rparr>"

definition push_ext :: ext where
  "push_ext = test_ext\<lparr>cfg := (cfg test_ext)\<lparr>FCM_PROJECT_ID := ''fleet''\<rparr>\<rparr>"

definition test_send_immediate_broadcast :: bool where
  "test_send_immediate_broadcast \<longleftrightarrow>
     (let (r, db', posts) = broadcast_send push_ext (broadcast_to [''nrh-test''] None) nrh
      in answers r (\<lambda>bs. map (\<lambda>b. (b_community_id b, b_message b)) bs = [(''nrh-test'', ''Flu clinic Saturday 9am'')] \<and>
           list_all (\<lambda>b. b_sent_at b \<noteq> None) bs) \<and>
         map pr_json posts = [fcm_payload ''nrh-test'' ''NRH Test'' ''Flu clinic Saturday 9am'' ''normal''])"

definition test_send_to_multiple_communities :: bool where
  "test_send_to_multiple_communities \<longleftrightarrow>
     (let (r, db', posts) = broadcast_send push_ext (broadcast_to [''nrh-test'', ''kaiser-test''] None)
            (community_db [(''nrh-test'', ''NRH Test''), (''kaiser-test'', ''Kaiser Test'')])
      in answers r (\<lambda>bs. map b_community_id bs = [''nrh-test'', ''kaiser-test'']) \<and> length posts = 2)"

definition test_send_scheduled_broadcast :: bool where
  "test_send_scheduled_broadcast \<longleftrightarrow>
     (let (r, db', posts) = broadcast_send push_ext (broadcast_to [''nrh-test''] (Some (seconds 9000))) nrh
      in answers r (\<lambda>bs. map (\<lambda>b. (b_scheduled_at b, b_sent_at b)) bs = [(Some (seconds 9000), None)]) \<and> posts = [])"

definition test_send_to_unknown_community :: bool where
  "test_send_to_unknown_community \<longleftrightarrow>
     (let (r, db', posts) = broadcast_send push_ext (broadcast_to [''ghost-community''] None) nrh
      in r = Inr [] \<and> posts = [])"

definition test_record_ack :: bool where
  "test_record_ack \<longleftrightarrow>
     (let (r, db1, posts) = broadcast_send test_ext (broadcast_to [''nrh-test''] None) nrh
      in answers (fst (record_ack 1 ''home-test-001'' ''delivered'' None db1))
           (\<lambda>a. map_option (\<lambda>a. (a_broadcast_id a, a_home_id a, a_status a)) a = Some (1, ''home-test-001'', ''delivered'')))"

definition test_record_ack_unknown_broadcast :: bool where
  "test_record_ack_unknown_broadcast \<longleftrightarrow>
     (fst (record_ack 99999 ''home-test-001'' ''delivered'' None nrh) = Inr None)"

definition test_delivery_stats :: bool where
  "test_delivery_stats \<longleftrightarrow>
     (let (r, db1, posts) = broadcast_send test_ext (broadcast_to [''nrh-test''] None) nrh;
          (a, db2) = record_ack 1 ''home-test-001'' ''delivered'' None db1
      in answers (get_delivery_stats test_ext 1 db2)
           (\<lambda>s. map_option (\<lambda>s. (ds_total_targets s, ds_delivered_count s)) s = Some (1, 1)))"

definition test_get_all_filter_by_community :: bool where
  "test_get_all_filter_by_community \<longleftrightarrow>
     (let (r1, db1, p1) = broadcast_send test_ext (broadcast_to [''nrh-test''] None)
            (community_db [(''nrh-test'', ''NRH Test''), (''other'', ''Other'')]);
          (r2, db2, p2) = broadcast_send test_ext (broadcast_to [''other''] None) db1
      in answers (get_all_broadcasts test_ext (Some ''nrh-test'') 0 100 db2) (\<lambda>bs. map b_community_id bs = [''nrh-test'']) \<and>
         answers (get_all_broadcasts test_ext None 0 100 db2) (\<lambda>bs. length bs = 2))"

definition test_api_send_broadcast :: bool where
  "test_api_send_broadcast \<longleftrightarrow>
     (answers (fst (send_broadcast test_ext admin_token (broadcast_to [''nrh-test''] None) nrh))
        (\<lambda>bs. map (\<lambda>b. (b_community_id b, b_message b)) bs = [(''nrh-test'', ''Flu clinic Saturday 9am'')]))"

definition test_api_send_broadcast_no_valid_community :: bool where
  "test_api_send_broadcast_no_valid_community \<longleftrightarrow>
     (raises_status 400 (fst (send_broadcast test_ext admin_token (broadcast_to [''ghost''] None) nrh)))"

definition test_api_get_broadcast_detail :: bool where
  "test_api_get_broadcast_detail \<longleftrightarrow>
     (let (r, db1, posts) = send_broadcast test_ext admin_token (broadcast_to [''nrh-test''] None) nrh
      in answers (get_broadcast test_ext admin_token 1 db1)
           (\<lambda>(b, s). b_message b = ''Flu clinic Saturday 9am'' \<and> ds_total_targets s = 1 \<and> ds_delivered_count s = 0))"

definition test_api_get_broadcast_not_found :: bool where
  "test_api_get_broadcast_not_found \<longleftrightarrow>
     (raises_status 404 (get_broadcast test_ext admin_token 99999 nrh))"

lemma test_broadcasts_hold:
  "list_all (\<lambda>t. t)
    [test_send_immediate_broadcast, test_send_to_multiple_communities, test_send_scheduled_broadcast,
     test_send_to_unknown_community, test_record_ack, test_record_ack_unknown_broadcast,
     test_delivery_stats, test_get_all_filter_by_community, test_api_send_broadcast,
     test_api_send_broadcast_no_valid_community, test_api_get_broadcast_detail,
     test_api_get_broadcast_not_found]"
  by code_simp

end
