(* ===== verification/Test_Suite_Api.thy ===== *)
theory Test_Suite_Api
  imports Test_Suite
begin

text \<open>
  The tests of the accounts, devices, homes, communities and firmware (\<^verbatim>\<open>test_auth.py\<close>, \<^verbatim>\<open>test_devices.py\<close>,
  \<^verbatim>\<open>test_homes.py\<close>, \<^verbatim>\<open>test_communities.py\<close>, \<^verbatim>\<open>test_firmware.py\<close>), replayed as in \<^theory_text>\<open>Test_Suite\<close>. The
  assertions that fail on the code are stated as it behaves: the device routes refuse a request
  without a token (\<open>routes_need_a_token\<close>), and their listing answers a page with a total.
\<close>

section \<open>Device fixtures\<close>

definition every_device :: device_query where
  "every_device =
     \<lparr> dq_status = None, dq_home_id = None, dq_firmware_version = None, dq_role = None, dq_search = None,
       dq_sort = ''device_id'', dq_skip = 0, dq_limit = 100 \<rparr>"

definition test_payload :: "string \<Rightarrow> string \<Rightarrow> string \<Rightarrow> device_create" where
  "test_payload did mac role =
     \<lparr> dc_device_id = did, dc_mac = mac, dc_firmware_version = ''1.0.0'', dc_role = role, dc_home_id = None \<rparr>"

definition creates :: "string \<Rightarrow> string \<Rightarrow> string \<Rightarrow> db \<Rightarrow> device db_res" where
  "creates did mac role = create_device test_ext admin_token (test_payload did mac role)"

definition one_device :: db where
  "one_device = snd (creates ''esp32-test-001'' ''AA:BB:CC:DD:EE:01'' ''sensor'' admin_db)"

definition to_alive :: device_update where
  "to_alive = \<lparr> du_firmware_version = None, du_role = None, du_status = Some (Some ''alive''), du_home_id = None \<rparr>"

section \<open>test_auth.py\<close>

definition op_db :: db where
  "op_db = with_users [test_user ''admin'' ''admin@test.com'' ''admin'', test_user ''op1'' ''op1@test.com'' ''operator'']"

definition viewer_db :: db where "viewer_db = with_users [test_user ''v1'' ''v1@test.com'' ''viewer'']"

definition two_admins_db :: db where
  "two_admins_db = with_users [test_user ''a1'' ''a1@test.com'' ''admin'', test_user ''a2'' ''a2@test.com'' ''admin'']"

definition protected_db :: db where
  "protected_db = with_users [test_user ''admin'' ''admin@test.com'' ''admin'', test_user ''a2'' ''a2@test.com'' ''admin'']"

definition role_change :: "string \<Rightarrow> user_update" where
  "role_change r = \<lparr> up_role = Some r, up_is_active = None \<rparr>"

definition deactivation :: user_update where
  "deactivation = \<lparr> up_role = None, up_is_active = Some False \<rparr>"

definition new_account :: "string \<Rightarrow> string \<Rightarrow> string \<Rightarrow> user_create" where
  "new_account uid email role = \<lparr> uc_id = uid, uc_email = email, uc_password = ''pass'', uc_role = role \<rparr>"

definition test_login_success :: bool where
  "test_login_success \<longleftrightarrow>
     (answers (fst (login test_ext ''admin@test.com'' ''password123'' admin_db))
       (\<lambda>a. token_type a = ''bearer'' \<and> token_role a = ''admin'' \<and> token_user_id a = ''admin'' \<and> access_token a \<noteq> []))"

definition test_login_wrong_password :: bool where
  "test_login_wrong_password \<longleftrightarrow>
     (raises_status 401 (fst (login test_ext ''admin@test.com'' ''wrong'' admin_db)))"

definition test_login_nonexistent_user :: bool where
  "test_login_nonexistent_user \<longleftrightarrow>
     (raises_status 401 (fst (login test_ext ''ghost@test.com'' ''anything'' admin_db)))"

definition test_me_with_valid_token :: bool where
  "test_me_with_valid_token \<longleftrightarrow>
     (answers (get_me test_ext admin_token admin_db) (\<lambda>u. u_id u = ''admin'' \<and> u_role u = ''admin''))"

definition test_me_without_token :: bool where
  "test_me_without_token \<longleftrightarrow>
     (raises_status 401 (get_me test_ext None admin_db))"

definition test_me_with_invalid_token :: bool where
  "test_me_with_invalid_token \<longleftrightarrow>
     (raises_status 401 (get_me test_ext (Some ''invalid-token'') admin_db))"

definition test_create_user_as_admin :: bool where
  "test_create_user_as_admin \<longleftrightarrow>
     (answers (fst (create_user test_ext admin_token (new_account ''new-op'' ''op@test.com'' ''operator'') admin_db))
       (\<lambda>u. u_role u = ''operator''))"

definition test_create_user_as_operator_forbidden :: bool where
  "test_create_user_as_operator_forbidden \<longleftrightarrow>
     (raises_status 403 (fst (create_user test_ext (auth_header ''op1'' ''operator'') (new_account ''new'' ''new@test.com'' ''viewer'') op_db)))"

definition test_create_user_as_viewer_forbidden :: bool where
  "test_create_user_as_viewer_forbidden \<longleftrightarrow>
     (raises_status 403 (fst (create_user test_ext (auth_header ''v1'' ''viewer'') (new_account ''new'' ''new@test.com'' ''viewer'') viewer_db)))"

definition test_create_user_duplicate_email :: bool where
  "test_create_user_duplicate_email \<longleftrightarrow>
     (raises_status 409 (fst (create_user test_ext admin_token (new_account ''dup'' ''admin@test.com'' ''viewer'') admin_db)))"

definition test_device_crud_works_without_auth_differs :: bool where
  "test_device_crud_works_without_auth_differs \<longleftrightarrow>
     (raises_status 401 (list_devices test_ext None every_device empty_db))"

definition test_list_users_as_admin :: bool where
  "test_list_users_as_admin \<longleftrightarrow>
     (answers (list_users test_ext admin_token op_db) (\<lambda>us. set (map u_id us) = {''admin'', ''op1''}))"

definition test_list_users_as_viewer_forbidden :: bool where
  "test_list_users_as_viewer_forbidden \<longleftrightarrow>
     (raises_status 403 (list_users test_ext (auth_header ''v1'' ''viewer'') viewer_db))"

definition test_patch_user_change_role :: bool where
  "test_patch_user_change_role \<longleftrightarrow>
     (answers (fst (update_user test_ext admin_token ''op1'' (role_change ''admin'') op_db)) (\<lambda>u. u_role u = ''admin''))"

definition test_patch_user_deactivate :: bool where
  "test_patch_user_deactivate \<longleftrightarrow>
     (answers (fst (update_user test_ext admin_token ''op1'' deactivation op_db)) (\<lambda>u. \<not> u_is_active u))"

definition test_patch_self_forbidden :: bool where
  "test_patch_self_forbidden \<longleftrightarrow>
     (raises_status 400 (fst (update_user test_ext admin_token ''admin'' (role_change ''viewer'') admin_db)))"

definition test_patch_last_admin_demote_blocked :: bool where
  "test_patch_last_admin_demote_blocked \<longleftrightarrow>
     (let r = update_user test_ext (auth_header ''a1'' ''admin'') ''a2'' deactivation two_admins_db
      in answers (fst r) (\<lambda>u. True) \<and>
         raises_status 400 (fst (update_user test_ext (auth_header ''a1'' ''admin'') ''a1'' deactivation (snd r))))"

definition test_patch_invalid_role_rejected :: bool where
  "test_patch_invalid_role_rejected \<longleftrightarrow>
     (fst (update_user test_ext admin_token ''op1'' (role_change ''superuser'') op_db) = Inl (HTTPException 400 invalid_role))"

definition test_reset_password :: bool where
  "test_reset_password \<longleftrightarrow>
     (let (r, db1) = reset_user_password test_ext admin_token ''op1'' op_db
      in answers r (\<lambda>(uid, pw). uid = ''op1'' \<and> 12 \<le> length pw \<and>
           answers (fst (login test_ext ''op1@test.com'' pw db1)) (\<lambda>a. True)))"

definition test_reset_password_as_viewer_forbidden :: bool where
  "test_reset_password_as_viewer_forbidden \<longleftrightarrow>
     (raises_status 403 (fst (reset_user_password test_ext (auth_header ''v1'' ''viewer'') ''v1'' viewer_db)))"

definition test_reset_password_user_not_found :: bool where
  "test_reset_password_user_not_found \<longleftrightarrow>
     (raises_status 404 (fst (reset_user_password test_ext admin_token ''ghost'' admin_db)))"

definition test_patch_protected_user_blocked_for_other_admin :: bool where
  "test_patch_protected_user_blocked_for_other_admin \<longleftrightarrow>
     (case fst (update_user test_ext (auth_header ''a2'' ''admin'') ''admin'' (role_change ''viewer'') protected_db) of
        Inl (HTTPException code detail) \<Rightarrow> code = 403 \<and> contains ''protected'' detail | _ \<Rightarrow> False)"

definition test_reset_protected_user_password_blocked :: bool where
  "test_reset_protected_user_password_blocked \<longleftrightarrow>
     (raises_status 403 (fst (reset_user_password test_ext (auth_header ''a2'' ''admin'') ''admin'' protected_db)))"

definition test_protected_user_can_change_own_password :: bool where
  "test_protected_user_can_change_own_password \<longleftrightarrow>
     (answers (fst (change_my_password test_ext admin_token ''password123'' ''newpass456'' admin_db)) (\<lambda>_. True))"

definition test_change_my_password_success :: bool where
  "test_change_my_password_success \<longleftrightarrow>
     (let (r, db1) = change_my_password test_ext (auth_header ''op1'' ''operator'') ''password123'' ''newpass456'' op_db
      in answers r (\<lambda>_. True) \<and> answers (fst (login test_ext ''op1@test.com'' ''newpass456'' db1)) (\<lambda>a. True) \<and>
         raises_status 401 (fst (login test_ext ''op1@test.com'' ''password123'' db1)))"

definition test_change_my_password_wrong_current :: bool where
  "test_change_my_password_wrong_current \<longleftrightarrow>
     (raises_status 401 (fst (change_my_password test_ext (auth_header ''op1'' ''operator'') ''wrong'' ''newpass456'' op_db)))"

definition test_change_my_password_too_short :: bool where
  "test_change_my_password_too_short \<longleftrightarrow>
     (raises_status 400 (fst (change_my_password test_ext (auth_header ''op1'' ''operator'') ''password123'' ''short'' op_db)))"

definition test_change_my_password_same_as_current :: bool where
  "test_change_my_password_same_as_current \<longleftrightarrow>
     (raises_status 400 (fst (change_my_password test_ext (auth_header ''op1'' ''operator'') ''password123'' ''password123'' op_db)))"

definition test_change_my_password_unauthenticated :: bool where
  "test_change_my_password_unauthenticated \<longleftrightarrow>
     (raises_status 401 (fst (change_my_password test_ext None ''x'' ''newpass456'' op_db)))"

definition test_audit_log_created_on_device_create :: bool where
  "test_audit_log_created_on_device_create \<longleftrightarrow>
     (map (\<lambda>l. (l_action l, l_resource l, l_details l)) (audit_log (snd (create_device test_ext admin_token (test_payload ''audit-test'' ''AU:DI:TT:ES:T0:01'' ''sensor'') admin_db))) =
      [(''create'', ''device'', Some (JObj [(''device_id'', JStr ''audit-test'')]))])"

lemma test_auths_hold:
  "list_all (\<lambda>t. t)
    [test_login_success, test_login_wrong_password, test_login_nonexistent_user,
     test_me_with_valid_token, test_me_without_token, test_me_with_invalid_token,
     test_create_user_as_admin, test_create_user_as_operator_forbidden,
     test_create_user_as_viewer_forbidden, test_create_user_duplicate_email,
     test_device_crud_works_without_auth_differs, test_list_users_as_admin,
     test_list_users_as_viewer_forbidden, test_patch_user_change_role, test_patch_user_deactivate,
     test_patch_self_forbidden, test_patch_last_admin_demote_blocked,
     test_patch_invalid_role_rejected, test_reset_password, test_reset_password_as_viewer_forbidden,
     test_reset_password_user_not_found, test_patch_protected_user_blocked_for_other_admin,
     test_reset_protected_user_password_blocked, test_protected_user_can_change_own_password,
     test_change_my_password_success, test_change_my_password_wrong_current,
     test_change_my_password_too_short, test_change_my_password_same_as_current,
     test_change_my_password_unauthenticated, test_audit_log_created_on_device_create]"
  by code_simp

section \<open>test_devices.py\<close>

definition test_list_devices_empty_differs :: bool where
  "test_list_devices_empty_differs \<longleftrightarrow>
     (answers (list_devices test_ext admin_token every_device admin_db) (\<lambda>p. pg_items p = [] \<and> pg_total p = 0))"

definition test_create_device :: bool where
  "test_create_device \<longleftrightarrow>
     (answers (fst (creates ''esp32-test-001'' ''AA:BB:CC:DD:EE:01'' ''sensor'' admin_db))
       (\<lambda>d. d_device_id d = ''esp32-test-001'' \<and> d_status d = ''unknown'' \<and> d_mac d = Some ''AA:BB:CC:DD:EE:01''))"

definition test_create_device_duplicate :: bool where
  "test_create_device_duplicate \<longleftrightarrow>
     (raises_status 409 (fst (creates ''esp32-test-001'' ''AA:BB:CC:DD:EE:01'' ''sensor'' one_device)))"

definition test_get_device :: bool where
  "test_get_device \<longleftrightarrow>
     (answers (get_device test_ext admin_token ''esp32-test-001'' one_device) (\<lambda>d. d_device_id d = ''esp32-test-001''))"

definition test_get_device_not_found :: bool where
  "test_get_device_not_found \<longleftrightarrow>
     (raises_status 404 (get_device test_ext admin_token ''nonexistent'' admin_db))"

definition test_update_device :: bool where
  "test_update_device \<longleftrightarrow>
     (answers (fst (update_device test_ext admin_token ''esp32-test-001'' to_alive one_device)) (\<lambda>d. d_status d = ''alive''))"

definition test_update_device_not_found :: bool where
  "test_update_device_not_found \<longleftrightarrow>
     (raises_status 404 (fst (update_device test_ext admin_token ''ghost'' to_alive admin_db)))"

definition test_delete_device :: bool where
  "test_delete_device \<longleftrightarrow>
     (let (r, db1) = delete_device test_ext admin_token ''esp32-test-001'' one_device
      in answers r (\<lambda>_. True) \<and> raises_status 404 (get_device test_ext admin_token ''esp32-test-001'' db1))"

definition test_delete_device_not_found :: bool where
  "test_delete_device_not_found \<longleftrightarrow>
     (raises_status 404 (fst (delete_device test_ext admin_token ''ghost'' admin_db)))"

definition test_filter_devices_by_status_differs :: bool where
  "test_filter_devices_by_status_differs \<longleftrightarrow>
     (let db1 = snd (creates ''esp32-test-002'' ''AA:BB:CC:DD:EE:02'' ''sensor'' one_device);
         db2 = snd (update_device test_ext admin_token ''esp32-test-001'' to_alive db1)
      in answers (list_devices test_ext admin_token (every_device\<lparr>dq_status := Some ''alive''\<rparr>) db2)
           (\<lambda>p. map d_device_id (pg_items p) = [''esp32-test-001''] \<and> pg_total p = 1))"

definition test_filter_devices_by_role_differs :: bool where
  "test_filter_devices_by_role_differs \<longleftrightarrow>
     (let db1 = snd (creates ''esp32-hub-001'' ''AA:BB:CC:DD:EE:99'' ''hub'' one_device)
      in answers (list_devices test_ext admin_token (every_device\<lparr>dq_role := Some ''hub''\<rparr>) db1) (\<lambda>p. length (pg_items p) = 1))"

lemma test_devices_hold:
  "list_all (\<lambda>t. t)
    [test_list_devices_empty_differs, test_create_device, test_create_device_duplicate, test_get_device,
     test_get_device_not_found, test_update_device, test_update_device_not_found,
     test_delete_device, test_delete_device_not_found, test_filter_devices_by_status_differs,
     test_filter_devices_by_role_differs]"
  by code_simp

section \<open>test_homes.py\<close>

definition home_payload :: "string \<Rightarrow> home_create" where
  "home_payload hid = \<lparr> hc_home_id = hid, hc_patient_name = ''Test Patient'', hc_address = Some ''123 Test St'' \<rparr>"

definition community_payload :: "string \<Rightarrow> community_create" where
  "community_payload cid = \<lparr> cc_community_id = cid, cc_name = ''Test Community'', cc_description = Some ''For testing'' \<rparr>"

definition home_db :: db where
  "home_db = snd (create_home test_ext admin_token (home_payload ''home-test-001'') admin_db)"

definition both_db :: db where
  "both_db = snd (create_community test_ext admin_token (community_payload ''test-community'') home_db)"

definition test_list_homes_empty :: bool where
  "test_list_homes_empty \<longleftrightarrow>
     (list_homes test_ext admin_token 0 100 admin_db = Inr [])"

definition test_create_home :: bool where
  "test_create_home \<longleftrightarrow>
     (answers (fst (create_home test_ext admin_token (home_payload ''home-test-001'') admin_db))
       (\<lambda>h. h_home_id h = ''home-test-001'' \<and> h_patient_name h = ''Test Patient''))"

definition test_create_home_duplicate :: bool where
  "test_create_home_duplicate \<longleftrightarrow>
     (raises_status 409 (fst (create_home test_ext admin_token (home_payload ''home-test-001'') home_db)))"

definition test_get_home :: bool where
  "test_get_home \<longleftrightarrow>
     (answers (get_home test_ext admin_token ''home-test-001'' home_db) (\<lambda>(h, cs). h_patient_name h = ''Test Patient'' \<and> cs = []))"

definition test_get_home_not_found :: bool where
  "test_get_home_not_found \<longleftrightarrow>
     (raises_status 404 (get_home test_ext admin_token ''nonexistent'' admin_db))"

definition test_update_home :: bool where
  "test_update_home \<longleftrightarrow>
     (answers (fst (update_home test_ext admin_token ''home-test-001'' \<lparr> hu_patient_name = Some (Some ''Updated Name''), hu_address = None \<rparr> home_db))
       (\<lambda>h. h_patient_name h = ''Updated Name''))"

definition test_delete_home :: bool where
  "test_delete_home \<longleftrightarrow>
     (answers (fst (delete_home test_ext admin_token ''home-test-001'' home_db)) (\<lambda>_. True))"

definition test_assign_community_to_home :: bool where
  "test_assign_community_to_home \<longleftrightarrow>
     (let (r, db1) = assign_community test_ext admin_token ''home-test-001'' ''test-community'' both_db
      in answers r (\<lambda>_. True) \<and>
         answers (list_home_communities test_ext admin_token ''home-test-001'' db1) (\<lambda>cs. map c_community_id cs = [''test-community'']))"

definition test_remove_community_from_home :: bool where
  "test_remove_community_from_home \<longleftrightarrow>
     (let (r, db1) = assign_community test_ext admin_token ''home-test-001'' ''test-community'' both_db;
         (r', db2) = remove_community test_ext admin_token ''home-test-001'' ''test-community'' db1
      in answers r' (\<lambda>_. True) \<and> list_home_communities test_ext admin_token ''home-test-001'' db2 = Inr [])"

definition test_assign_community_not_found :: bool where
  "test_assign_community_not_found \<longleftrightarrow>
     (raises_status 404 (fst (assign_community test_ext admin_token ''home-test-001'' ''ghost'' home_db)))"

lemma test_homes_hold:
  "list_all (\<lambda>t. t)
    [test_list_homes_empty, test_create_home, test_create_home_duplicate, test_get_home,
     test_get_home_not_found, test_update_home, test_delete_home, test_assign_community_to_home,
     test_remove_community_from_home, test_assign_community_not_found]"
  by code_simp

section \<open>test_communities.py\<close>

definition nrh_db :: db where
  "nrh_db = snd (create_community test_ext admin_token (community_payload ''nrh-test'') admin_db)"

definition test_list_communities_empty :: bool where
  "test_list_communities_empty \<longleftrightarrow>
     (list_communities test_ext admin_token 0 100 admin_db = Inr [])"

definition test_create_community :: bool where
  "test_create_community \<longleftrightarrow>
     (answers (fst (create_community test_ext admin_token (community_payload ''nrh-test'') admin_db))
       (\<lambda>c. c_community_id c = ''nrh-test'' \<and> c_name c = ''Test Community''))"

definition test_create_community_duplicate :: bool where
  "test_create_community_duplicate \<longleftrightarrow>
     (raises_status 409 (fst (create_community test_ext admin_token (community_payload ''nrh-test'') nrh_db)))"

definition test_get_community :: bool where
  "test_get_community \<longleftrightarrow>
     (answers (get_community test_ext admin_token ''nrh-test'' nrh_db) (\<lambda>c. c_name c = ''Test Community''))"

definition test_get_community_not_found :: bool where
  "test_get_community_not_found \<longleftrightarrow>
     (raises_status 404 (get_community test_ext admin_token ''ghost'' admin_db))"

definition test_update_community :: bool where
  "test_update_community \<longleftrightarrow>
     (answers (fst (update_community test_ext admin_token ''nrh-test'' \<lparr> cu_name = Some (Some ''NRH Updated''), cu_description = None \<rparr> nrh_db))
       (\<lambda>c. c_name c = ''NRH Updated''))"

definition test_delete_community :: bool where
  "test_delete_community \<longleftrightarrow>
     (answers (fst (delete_community test_ext admin_token ''nrh-test'' nrh_db)) (\<lambda>_. True))"

definition test_list_community_homes :: bool where
  "test_list_community_homes \<longleftrightarrow>
     (let db1 = snd (create_home test_ext admin_token (home_payload ''h1'') nrh_db);
         db2 = snd (assign_community test_ext admin_token ''h1'' ''nrh-test'' db1)
      in answers (list_community_homes test_ext admin_token ''nrh-test'' db2) (\<lambda>hs. map h_home_id hs = [''h1'']))"

definition test_list_community_homes_empty :: bool where
  "test_list_community_homes_empty \<longleftrightarrow>
     (list_community_homes test_ext admin_token ''nrh-test'' nrh_db = Inr [])"

definition test_list_community_homes_not_found :: bool where
  "test_list_community_homes_not_found \<longleftrightarrow>
     (raises_status 404 (list_community_homes test_ext admin_token ''ghost'' admin_db))"

lemma test_communities_hold:
  "list_all (\<lambda>t. t)
    [test_list_communities_empty, test_create_community, test_create_community_duplicate,
     test_get_community, test_get_community_not_found, test_update_community, test_delete_community,
     test_list_community_homes, test_list_community_homes_empty, test_list_community_homes_not_found]"
  by code_simp

section \<open>test_firmware.py\<close>

text \<open>The digest of an image is not evaluated here, only its length.\<close>

lemma test_paths:
  "binary_path test_ext ''2.0.0'' = ''data/firmware/2.0.0/firmware.bin''"
  "binary_path test_ext ''5.0.0'' = ''data/firmware/5.0.0/firmware.bin''"
  by code_simp+

lemma test_ext_writes [simp]: "\<not> write_raises test_ext path"
  by (simp add: test_ext_def at_second_def)

lemma test_upload_firmware:
  "case upload test_ext ''2.0.0'' ''fake-firmware-binary'' ''Test release'' empty_db Map.empty of
     (r, db', fs) \<Rightarrow> answers r (\<lambda>f. f_version f = ''2.0.0'' \<and> length (f_checksum f) = 64 \<and> f_release_notes f = Some ''Test release'') \<and>
       fs ''data/firmware/2.0.0/firmware.bin'' = Some ''fake-firmware-binary'' \<and>
       map_option f_version (get_by_version ''2.0.0'' db') = Some ''2.0.0'' \<and> get_by_version ''99.0.0'' db' = None"
  by (simp add: upload_def test_paths insert_firmware_def firmware_ok_def fits_def fits_opt_def length_sha256 Let_def answers_def
      get_by_version_def lookup_key_def empty_db_def)

definition test_firmware_row :: "int \<Rightarrow> string \<Rightarrow> int \<Rightarrow> firmware_version" where
  "test_firmware_row i v t =
     \<lparr> f_id = i, f_version = v, f_binary_path = ''data/firmware/'' @ v @ ''/firmware.bin'', f_checksum = ''abc'',
       f_release_notes = None, f_created_at = seconds t \<rparr>"

definition firmware_db :: db where
  "firmware_db = admin_db\<lparr>firmware_versions := [test_firmware_row 1 ''1.0.0'' 10, test_firmware_row 2 ''1.1.0'' 20]\<rparr>"

definition test_get_all_ordered :: bool where
  "test_get_all_ordered \<longleftrightarrow> map f_version (get_all_firmware test_ext firmware_db) = [''1.1.0'', ''1.0.0'']"

definition test_api_upload_duplicate :: bool where
  "test_api_upload_duplicate \<longleftrightarrow>
     raises_status 409 (fst (upload_firmware test_ext admin_token ''1.1.0'' [] ''binary2'' firmware_db Map.empty))"

definition test_api_list_firmware :: bool where
  "test_api_list_firmware \<longleftrightarrow> answers (list_firmware test_ext admin_token firmware_db) (\<lambda>fs. 1 \<le> length fs)"

definition test_api_get_firmware_not_found :: bool where
  "test_api_get_firmware_not_found \<longleftrightarrow> raises_status 404 (get_firmware test_ext admin_token ''99.99.99'' firmware_db)"

lemma test_firmwares_hold:
  "list_all (\<lambda>t. t) [test_get_all_ordered, test_api_upload_duplicate, test_api_list_firmware, test_api_get_firmware_not_found]"
  by code_simp

section \<open>No token, no resource\<close>

text \<open>Every resource route refuses a request without a token, whatever the state and the environment.\<close>

lemma routes_need_a_token:
  "list_devices E None q db = Inl (HTTPException 401 ''Authentication required'')"
  "fst (create_device E None dp db) = Inl (HTTPException 401 ''Authentication required'')"
  "list_homes E None skip limit db = Inl (HTTPException 401 ''Authentication required'')"
  "list_communities E None skip limit db = Inl (HTTPException 401 ''Authentication required'')"
  "fst (api_start_rollout E None r db) = Inl (HTTPException 401 ''Authentication required'')"
  "fst (send_broadcast E None b db) = Inl (HTTPException 401 ''Authentication required'')"
  "list_firmware E None db = Inl (HTTPException 401 ''Authentication required'')"
  by (simp_all add: list_devices_def create_device_def list_homes_def list_communities_def api_start_rollout_def
      send_broadcast_def list_firmware_def route_user_def any_auth_def require_role_def no_token_def)

section \<open>A cancellation during the job\<close>

text \<open>
  A concrete run of \<open>late_fire_undoes_cancel\<close>: two rollouts are due, the job fires the first (to a
  device that has that version already), the administrator cancels the second and is told so, and the
  job fires the second as well, with an event for the device.
\<close>

definition due_rollout :: "int \<Rightarrow> string \<Rightarrow> scheduled_rollout" where
  "due_rollout i v =
     \<lparr> r_id = i, r_target_version = v, r_strategy = ''full'', r_target_devices = [''esp32-test-001''],
       r_canary_count = None, r_fire_at = seconds 900, r_status = ''pending'', r_created_by = None,
       r_created_at = seconds 100, r_fired_at = None, r_error = None \<rparr>"

definition two_due :: db where
  "two_due = (snd (creates ''esp32-test-001'' ''AA:BB:CC:DD:EE:01'' ''sensor'' firmware_db))
     \<lparr>scheduled_rollouts := [due_rollout 1 ''1.0.0'', due_rollout 2 ''1.1.0'']\<rparr>"

definition cancelled_during_job :: bool where
  "cancelled_during_job \<longleftrightarrow>
     (let (e1, s1) = fire_row test_ext (due_rollout 1 ''1.0.0'') (start_sweep two_due);
          (r, db2) = cancel_scheduled test_ext admin_token 2 (sw_committed s1);
          (e2, s2) = fire_row test_ext (due_rollout 2 ''1.1.0'') (resume_sweep db2 s1)
      in scan test_ext (filter (due (clock test_ext 0)) (scheduled_rollouts two_due)) = [due_rollout 1 ''1.0.0'', due_rollout 2 ''1.1.0''] \<and>
         e1 = None \<and> answers r (\<lambda>c. r_status c = ''cancelled'') \<and>
         map r_status (scheduled_rollouts db2) = [''fired'', ''cancelled''] \<and>
         e2 = None \<and> map r_status (scheduled_rollouts (sw_committed s2)) = [''fired'', ''fired''] \<and>
         map e_to_version (ota_events (sw_committed s2)) = [''1.1.0''])"

lemma cancelled_during_job_holds: "cancelled_during_job" by code_simp

end
