(* ===== verification/Spec2Isabelle.thy ===== *)
theory Spec2Isabelle
  imports Rollout_Flow Overlap Responses Schema_Types Test_Suite_Api
begin

text \<open>
  A verification library for the ESP32 fleet-management server under \<^verbatim>\<open>src/fleet_server\<close>: a FastAPI
  application over PostgreSQL that keeps devices, the homes and communities they belong to, and
  firmware versions; talks to the devices over MQTT; rolls firmware out to them, at once or on a
  schedule; broadcasts messages to the mobile apps of a community; and builds firmware for new
  devices. This theory is the root: it imports all others and states the properties that span
  components.

  \<^bold>\<open>How the program is modelled.\<close> The state of the server is the database (\<open>db\<close>: one record per model
  class of \<^verbatim>\<open>models/\<close>, one list of rows per table, the sequences of the autoincrement columns), the
  firmware storage (\<open>files\<close>: a map from paths to contents), and whether the MQTT listener is alive.
  A handler is a function \<open>ext \<Rightarrow> arguments \<Rightarrow> db \<Rightarrow> 'a res \<times> db\<close>: its result, an exception (\<open>Inl\<close>) or a
  value (\<open>Inr\<close>), and the database it leaves, which after an exception is the one of the last commit.
  Messages and HTTP requests it sends are further results. \<open>db_wf\<close> is the schema invariant: keys,
  unique columns, foreign keys, widths, ranges, and sequences ahead of their tables.

  \<^bold>\<open>What the environment gives\<close> is the record \<open>ext\<close> of \<open>External\<close>, an argument of every operation:
  settings, clocks, the order of rows the database is free to choose, the encoding of JSON values for
  columns, bcrypt, JWT, random choices, collation, the broker, HTTP. The named hypotheses on it
  state documented behaviour: \<open>scan_ok\<close> (a query returns every matching row once), \<open>bind_ok\<close> (what the
  driver accepts for INTEGER and VARCHAR), \<open>bcrypt_ok\<close> (a password checks against its own hash),
  \<open>jwt_ok\<close> (a token decodes to its claims until it expires), \<open>choice_ok\<close> (a random choice is a member)
  and \<open>collate_ok\<close> (different texts have different sort keys). \<open>demo_ext\<close> satisfies all of them
  and serves the witnesses. Provisioning has an environment of its own, \<open>build_env\<close> (templates, the
  container runtime, the file search).

  \<^bold>\<open>The theories\<close>, in the order of their imports, and the code each models:
  \<^item> \<open>Fleet_Prelude\<close>: tables as lists of rows; \<open>Py_Base\<close>: exceptions, string and path methods, JSON
    values; \<open>Py_Json\<close>: \<^verbatim>\<open>json.dumps\<close> and \<^verbatim>\<open>json.loads\<close>, with their round trip; \<open>Py_Hashlib\<close>: SHA-256 on
    32-bit words; \<open>External\<close>: the environment and \<^verbatim>\<open>config.py\<close>.
  \<^item> \<open>Fleet_Db\<close>, \<open>Db_Statements\<close>, \<open>Db_Deletes\<close>: \<^verbatim>\<open>models/\<close>, the INSERT, UPDATE and DELETE statements
    with their constraint checks and cascades, each keeping \<open>db_wf\<close>. \<open>Migrations\<close> models \<^verbatim>\<open>alembic/versions\<close>
    as operations on a schema and shows that they build the schema of the models; \<open>Schema_Types\<close> reads
    the tables as typed cells and shows that \<open>db_wf\<close> implies what that schema demands.
  \<^item> \<open>Audit_Log\<close>: \<^verbatim>\<open>services/audit.py\<close>; \<open>Auth\<close>: \<^verbatim>\<open>services/auth.py\<close>, \<^verbatim>\<open>api/auth.py\<close> and the guard of
    \<^verbatim>\<open>api/router.py\<close>; \<open>Firmware\<close>: \<^verbatim>\<open>services/firmware.py\<close> and \<^verbatim>\<open>api/firmware.py\<close>.
  \<^item> \<open>Row_History\<close>, \<open>Ota_Events\<close>: how the rows of a table may evolve, and the life of an OTA event;
    \<open>Ota\<close>: \<^verbatim>\<open>services/ota.py\<close> and \<^verbatim>\<open>api/ota.py\<close>; \<open>Mqtt_Handlers\<close>: \<^verbatim>\<open>mqtt/handlers.py\<close> and the message
    loop of \<^verbatim>\<open>mqtt/client.py\<close>; \<open>Scheduler\<close>: \<^verbatim>\<open>tasks/scheduler.py\<close>, \<^verbatim>\<open>services/alerting.py\<close> and
    \<^verbatim>\<open>api/scheduled_rollouts.py\<close>.
  \<^item> \<open>Repository\<close>: \<^verbatim>\<open>repositories/\<close> over any model class (its contract is a locale, interpreted for
    each model class); \<open>Devices\<close>, \<open>Homes\<close>, \<open>Device_Groups\<close>, \<open>Broadcasts\<close>, \<open>Provisioning\<close>: the remaining
    services and endpoints under \<^verbatim>\<open>services/\<close> and \<^verbatim>\<open>api/\<close>; \<open>Seed\<close>: \<^verbatim>\<open>scripts/seed.py\<close>.
  \<^item> \<open>Http_Server\<close>: \<^verbatim>\<open>main.py\<close>, \<^verbatim>\<open>middleware/\<close> and the life cycle of \<^verbatim>\<open>mqtt/client.py\<close>. \<open>Responses\<close>: the
    response models and the answer to every read request.
  \<^item> \<open>Fleet_Records\<close>, \<open>Fleet_System\<close>: every call that changes state as one step of a state machine
    (\<open>perform\<close>), sequences of calls (\<open>reaches\<close>), and two locales that lift a property of one call to
    every sequence. \<open>Access_Control\<close> gives the access table of the calls, \<open>Rollout_Flow\<close> follows one
    update from the request to the heartbeat, and \<open>Overlap\<close> splits account updates and promotions into
    their reading and writing halves and interleaves them, and puts a cancellation between two turns of
    the job that fires rollouts.
  \<^item> \<open>Sample_Fleet\<close>: the small database of the witnesses; \<open>Test_Suite\<close>, \<open>Test_Suite_Api\<close>: the tests of
    \<^verbatim>\<open>tests/\<close> replayed on the definitions by evaluation, which checks the model against what the
    repository expects of the code, and names the tests that the code contradicts.

  \<^bold>\<open>What is shown.\<close> Per component: every operation keeps the schema; the exact effect of the
  operations, error branches included; refinement of maps (device, home and community endpoints),
  of planned events (rollouts) and of listings (pages, campaigns, previews); round trips (passwords,
  commands, assignments, migrations); termination with an outcome (scheduled rollouts, provisioning
  jobs). Here and in the theories on the whole server: invariants of every sequence of calls, what
  is never lost or rewritten, who may change what, and what no answer gives away.

  \<^bold>\<open>Bounds and fuel.\<close> The JSON decoder recurses on fuel \<open>2 * length + 1\<close>, which \<open>fuel_enough\<close> shows to
  be enough for every text, and to a depth of 500; a text that is nested deeper or uses numbers or
  escapes beyond the decoder is \<open>Beyond\<close> and left to the parameter \<open>wide_loads\<close>. The chain of
  migrations is followed with as many steps as there are files. All other recursions are structural.

  \<^bold>\<open>Limits of the model.\<close> Outside \<open>Overlap\<close> a call runs to its end before the next one starts. Strings
  are code points below 256, and texts from HTTP contain no NUL. Not modelled: CORS preflight answers
  and static files (\<^verbatim>\<open>main.py\<close> hands both to the framework), the duration in the access log,
  names of database constraints, the construction of the engine (\<^verbatim>\<open>database.py\<close>, \<^verbatim>\<open>alembic/env.py\<close>), and
  the insides of FastAPI, SQLAlchemy, aiomqtt, APScheduler and httpx. The ESPHome sources, the
  dashboard and the deployment files are not logic of the server.
\<close>

section \<open>Properties of the whole server\<close>

text \<open>The server right after the seed script has filled an empty database.\<close>

definition fresh_system :: "ext \<Rightarrow> files \<Rightarrow> system" where
  "fresh_system E fs = \<lparr> sys_db = snd (seed E empty_db), sys_files = fs, sys_listening = True \<rparr>"

lemma fresh_system_administered: "scan_ok E \<Longrightarrow> bcrypt_ok E \<Longrightarrow> administered (sys_db (fresh_system E fs))"
  by (simp add: fresh_system_def administered_def db_wf_seed) 
     (simp add: seed_empty count_active_admins_def seed_users_def)

text \<open>
  C1: the fleet stays valid and administered. Whatever sequence of requests, device messages, background
  runs and scheduled jobs the server goes through after it was seeded, in whatever environment each
  of them runs, the database satisfies every key, uniqueness, reference and width constraint of the
  schema, and there is an active administrator.
\<close>

theorem fleet_stays_valid:
  assumes "scan_ok E" "bcrypt_ok E" "reaches (fresh_system E fs) t"
  shows "db_wf (sys_db t) \<and> 1 \<le> count_active_admins (sys_db t)"
  using administration.holds [OF assms(3) fresh_system_administered [OF assms(1,2)]]
  by (simp only: administered_def)

text \<open>A short life of the server: a viewer's role change, a heartbeat, a sweep and the job.\<close>

definition demo_calls :: "(ext \<times> call) list" where
  "demo_calls =
     [(demo_ext, UpdateUser (sample_token ''admin'') ''operator1'' \<lparr> up_role = Some ''viewer'', up_is_active = None \<rparr>),
      (demo_ext, Message ''fleet/esp32-door-003/heartbeat'' (Some fresh_boot_text)),
      (demo_ext, CheckDeadDevices), (demo_ext, FireDueRollouts), (demo_ext, SeedScript)]"

lemma demo_calls_reach: "reaches s (run_calls demo_calls s)"
  by (rule run_calls_reaches) (simp add: demo_calls_def)

theorem fleet_stays_valid_witness:
  "db_wf (sys_db (run_calls demo_calls (fresh_system demo_ext Map.empty))) \<and>
   1 \<le> count_active_admins (sys_db (run_calls demo_calls (fresh_system demo_ext Map.empty)))"
  by (rule fleet_stays_valid [OF _ _ demo_calls_reach]) simp_all

lemma reaches_archive: "reaches s t \<Longrightarrow> db_wf (sys_db s) \<Longrightarrow> archive (sys_db s) (sys_db t)"
  by (rule records.related)

lemma history_eq_append: "history (=) rows rows' \<Longrightarrow> \<exists>new. rows' = rows @ new"
  by (auto simp: history_def list.rel_eq)

text \<open>
  C2: nothing that was recorded is lost or rewritten. From any state with a valid database, in every
  later state the audit log, the broadcasts and the firmware versions are the old ones with new ones
  behind them; an OTA event that is no longer active, and a scheduled rollout that is no longer
  pending, is there unchanged; and every account is there with its id and email.
\<close>

theorem records_are_kept:
  assumes "db_wf (sys_db s)" "reaches s t"
  shows "(\<exists>new. audit_log (sys_db t) = audit_log (sys_db s) @ new) \<and>
         (\<exists>new. broadcasts (sys_db t) = broadcasts (sys_db s) @ new) \<and>
         (\<exists>new. firmware_versions (sys_db t) = firmware_versions (sys_db s) @ new) \<and>
         (\<forall>e \<in> set (ota_events (sys_db s)). \<not> event_active e \<longrightarrow> e \<in> set (ota_events (sys_db t))) \<and>
         (\<forall>r \<in> set (scheduled_rollouts (sys_db s)). r_status r \<noteq> ''pending'' \<longrightarrow> r \<in> set (scheduled_rollouts (sys_db t))) \<and>
         (\<forall>u \<in> set (users (sys_db s)). \<exists>u' \<in> set (users (sys_db t)). u_id u' = u_id u \<and> u_email u' = u_email u)"
proof -
  have "archive (sys_db s) (sys_db t)" using assms(2,1) by (rule reaches_archive)
  then have h: "history (=) (audit_log (sys_db s)) (audit_log (sys_db t))"
      "history (=) (broadcasts (sys_db s)) (broadcasts (sys_db t))"
      "history (=) (firmware_versions (sys_db s)) (firmware_versions (sys_db t))"
      "events_evolve (sys_db s) (sys_db t)" "rollouts_evolve (sys_db s) (sys_db t)"
      "history user_step (users (sys_db s)) (users (sys_db t))"
    by (simp_all add: archive_def chronicle_def frozen_tables_def)
  show ?thesis
    using h(1-3)[THEN history_eq_append] event_history.preserves [OF h(4)] rollout_history.preserves [OF h(5)]
      user_history.preserves [OF h(6)]
    by (auto simp: event_step_def rollout_step_def user_step_def) metis+
qed

theorem records_are_kept_witness:
  "(\<exists>new. audit_log (sys_db (run_calls demo_calls (fresh_system demo_ext Map.empty))) =
      audit_log (sys_db (fresh_system demo_ext Map.empty)) @ new)"
proof -
  have "db_wf (sys_db (fresh_system demo_ext Map.empty))" by (simp add: fresh_system_def db_wf_seed)
  from records_are_kept [OF this demo_calls_reach] show ?thesis by (rule conjunct1)
qed


text \<open>A system that has one broadcast scheduled.\<close>

definition demo_broadcast :: broadcast where
  "demo_broadcast =
     \<lparr> b_id = 1, b_community_id = ''c1'', b_message = ''hello'', b_type = ''info'', b_priority = ''normal'',
       b_scheduled_at = Some (seconds 2000), b_sent_at = None, b_sent_by = None, b_created_at = seconds 1000 \<rparr>"

definition sample_system :: system where
  "sample_system = \<lparr> sys_db = sample_db, sys_files = Map.empty, sys_listening = True \<rparr>"


text \<open>
  C4: an aborted update stays aborted. After an accepted abort of a version, every event of that version
  that was active is cancelled, and stays exactly so in every later state: no status report or
  heartbeat of the device that comes after it, however late, turns it into a success or failure. (One
  that it comes in the middle of may: \<open>late_promotion_undoes_abort\<close> of \<open>Overlap\<close>.)
\<close>

theorem aborted_updates_stay_cancelled:
  assumes "db_wf (sys_db s)" "scan_ok E" "bind_ok E" "any_auth E token (sys_db s) = Inr u"
    and "e \<in> set (ota_events (sys_db s))" "e_to_version e = v" "event_active e"
    and "reaches (perform E (AbortRollout token v) s) t"
  shows "e\<lparr>e_status := ''cancelled''\<rparr> \<in> set (ota_events (sys_db t))"
proof -
  let ?s = "perform E (AbortRollout token v) s" and ?e = "e\<lparr>e_status := ''cancelled''\<rparr>"
  have "ota_events (sys_db ?s) = update_where (\<lambda>e. e_to_version e = v \<and> event_active e) (\<lambda>e. e\<lparr>e_status := ''cancelled''\<rparr>) (ota_events (sys_db s))"
    using assms(4) by (simp add: perform_def api_abort_rollout_def abort_rollout_def Let_def)
  then have e: "?e \<in> set (ota_events (sys_db ?s))"
    using assms(5-7) by (auto simp: set_update_where intro!: rev_image_eqI [of e])
  have "db_wf (sys_db ?s)" using schema.perform_keeps [OF assms(2,3,1)] .
  then have "events_evolve (sys_db ?s) (sys_db t)"
    using reaches_archive [OF assms(8)] by (simp add: archive_def chronicle_def)
  from event_history.preserves [OF this e] show ?thesis
    by (auto simp: event_step_def event_active_def active_statuses_def)
qed

theorem aborted_updates_stay_cancelled_witness:
  "(sample_event 1 ''dev3'' ''flashing'' 950)\<lparr>e_status := ''cancelled''\<rparr> \<in>
     set (ota_events (sys_db (run_calls demo_calls
       (perform demo_ext (AbortRollout (sample_token ''admin'') ''1.1'') sample_system))))"
  by (rule aborted_updates_stay_cancelled [OF _ _ _ _ _ _ _ demo_calls_reach, of _ _ _ "sample_user ''admin'' ''admin''"])
     (simp_all add: sample_system_def any_auth_def event_active_def active_statuses_def)

text \<open>
  C5: a cancelled rollout stays cancelled. Only a pending rollout can be cancelled, and once the request
  has succeeded, in every later state of the server the rollout of that id is the cancelled row: no
  run of the job that comes after it, however it ends, fires or changes it. (A run it comes in the
  middle of may: \<open>late_fire_undoes_cancel\<close> of \<open>Overlap\<close>.)
\<close>

theorem cancelled_rollout_stays_cancelled:
  assumes "db_wf (sys_db s)" "cancel_scheduled E token i (sys_db s) = (Inr row, db')"
    and "reaches (s\<lparr>sys_db := db'\<rparr>) t"
  shows "(\<exists>r. lookup_key r_id i (scheduled_rollouts (sys_db s)) = Some r \<and> r_status r = ''pending'') \<and>
         r_status row = ''cancelled'' \<and> lookup_key r_id i (scheduled_rollouts (sys_db t)) = Some row"
proof -
  note row = cancel_scheduled_InrD [OF assms(2)]
  have wf: "db_wf (sys_db (s\<lparr>sys_db := db'\<rparr>))"
    using cancel_scheduled_inv [OF assms(1), of E token i] assms(2) by simp
  have "rollouts_evolve db' (sys_db t)"
    using reaches_archive [OF assms(3) wf] by (simp add: archive_def chronicle_def)
  from rollout_history.preserves [OF this row(4)] have "row \<in> set (scheduled_rollouts (sys_db t))"
    using row(3) by (auto simp: rollout_step_def)
  then have "lookup_key r_id i (scheduled_rollouts (sys_db t)) = Some row"
    using rollout_rows(1) [OF schema.holds [OF assms(3) wf]] row(2) by (simp add: lookup_key_Some_iff)
  with row show ?thesis by blast
qed

theorem cancelled_rollout_stays_cancelled_witness:
  "\<exists>row db'. cancel_scheduled demo_ext (sample_token ''admin'') 1 sample_db = (Inr row, db') \<and>
     r_status row = ''cancelled'' \<and>
     lookup_key r_id 1 (scheduled_rollouts (sys_db (run_calls demo_calls (sample_system\<lparr>sys_db := db'\<rparr>)))) = Some row"
proof -
  obtain row db' where c: "cancel_scheduled demo_ext (sample_token ''admin'') 1 (sys_db sample_system) = (Inr row, db')"
    using sample_cancel by (auto simp: sample_system_def)
  have "db_wf (sys_db sample_system)" by (simp add: sample_system_def)
  from cancelled_rollout_stays_cancelled [OF this c demo_calls_reach] c show ?thesis
    by (auto simp: sample_system_def)
qed



end
